(* ===== verification/Prelude.thy ===== *)
theory Prelude
  imports Main "HOL-Library.Sublist"
begin

text \<open>
  Prelude of the development: the numeric type of Go's \<open>int\<close>/\<open>int64\<close>, the handling of
  Go maps and their unspecified iteration order, and the generic lemmas on lists and maps that
  the component theories share. Nothing here models a line of the repository; every
  component imports it.

  Go integers are mathematical integers with the wrap-around of two's complement written out
  by \<open>wrap64\<close>, which is the identity inside the 64-bit range.
\<close>

named_theorems wrap_simps \<open>wrap-around lemmas for 64-bit integers\<close>
named_theorems step_defs \<open>definitions of operations, unfolded when an operation is evaluated\<close>

subsection \<open>Go's 64-bit integers\<close>

definition int64_range :: "int \<Rightarrow> bool" where
  "int64_range x \<longleftrightarrow> - (2 ^ 63) \<le> x \<and> x < 2 ^ 63"

definition wrap64 :: "int \<Rightarrow> int" where
  "wrap64 x = (x + 2 ^ 63) mod 2 ^ 64 - 2 ^ 63"

lemma wrap64_id [wrap_simps]: "- (2 ^ 63) \<le> x \<Longrightarrow> x < 2 ^ 63 \<Longrightarrow> wrap64 x = x"
  by (simp add: wrap64_def)

lemma wrap64_range [wrap_simps]: "int64_range (wrap64 x)"
proof -
  have "0 \<le> (x + 2 ^ 63) mod 2 ^ 64" and "(x + 2 ^ 63) mod 2 ^ 64 < (2 :: int) ^ 64"
    by simp_all
  then show ?thesis
    unfolding int64_range_def wrap64_def by simp
qed

lemma wrap64_int64: "int64_range x \<Longrightarrow> wrap64 x = x"
  by (simp add: int64_range_def wrap64_id)

subsection \<open>Go maps and their iteration order\<close>

text \<open>
  A Go map is a partial function. Ranging over a map visits its keys in an unspecified order:
  a definition that ranges over one takes that order as an argument, and a list of keys is
  admissible when it enumerates the domain without repetition.
\<close>

definition enumerates :: "'k list \<Rightarrow> ('k \<rightharpoonup> 'v) \<Rightarrow> bool" where
  "enumerates ks m \<longleftrightarrow> distinct ks \<and> set ks = dom m"

definition range_map :: "'k list \<Rightarrow> ('k \<rightharpoonup> 'v) \<Rightarrow> 'v list" where
  "range_map ks m = List.map_filter m ks"

lemma range_map_Nil [simp]: "range_map [] m = []"
  by (simp add: range_map_def)

lemma range_map_Cons [simp]:
  "range_map (k # ks) m = (case m k of None \<Rightarrow> range_map ks m | Some v \<Rightarrow> v # range_map ks m)"
  by (simp add: range_map_def split: option.split)

lemma set_range_map: "set (range_map ks m) = {v. \<exists>k \<in> set ks. m k = Some v}"
  by (induction ks) (auto split: option.splits)

lemma set_range_map_ran: "enumerates ks m \<Longrightarrow> set (range_map ks m) = ran m"
  by (auto simp: enumerates_def set_range_map ran_def)

lemma length_range_map: "set ks \<subseteq> dom m \<Longrightarrow> length (range_map ks m) = length ks"
  by (induction ks) (auto split: option.splits)

lemma enumerates_length: "enumerates ks m \<Longrightarrow> length ks = card (dom m)"
  by (auto simp: enumerates_def distinct_card [symmetric])

lemma enumerates_length_eq: "enumerates ks m \<Longrightarrow> enumerates ks' m \<Longrightarrow> length ks = length ks'"
  by (simp add: enumerates_length)

lemma distinct_range_map:
  assumes "distinct ks" and "inj_on m (dom m \<inter> set ks)"
  shows "distinct (range_map ks m)"
  using assms
proof (induction ks)
  case Nil
  then show ?case by simp
next
  case (Cons k ks)
  have "inj_on m (dom m \<inter> set ks)"
    using Cons.prems(2) by (rule inj_on_subset) auto
  with Cons.IH Cons.prems(1) have IH: "distinct (range_map ks m)" by simp
  have "v \<notin> set (range_map ks m)" if k: "m k = Some v" for v
  proof
    assume "v \<in> set (range_map ks m)"
    then obtain k' where k': "k' \<in> set ks" "m k' = Some v" by (auto simp: set_range_map)
    with k Cons.prems(2) have "k = k'" by (auto dest!: inj_onD [of m _ k k'])
    with k' Cons.prems(1) show False by simp
  qed
  with IH show ?case by (simp split: option.split)
qed

subsection \<open>Lists\<close>

lemma take_drop_append_self: "take n xs @ drop n xs = xs"
  by simp

lemma sorted_wrt_unique:
  assumes irr: "\<And>x. \<not> lt x x" and tr: "\<And>x y z. lt x y \<Longrightarrow> lt y z \<Longrightarrow> lt x z"
    and "sorted_wrt lt xs" "sorted_wrt lt ys" "set xs = set ys"
  shows "xs = ys"
  using assms(3-5)
proof (induction xs arbitrary: ys)
  case Nil
  then show ?case by simp
next
  case (Cons x xs)
  then obtain y ys' where ys: "ys = y # ys'" by (cases ys) auto
  have xy: "x = y"
  proof (rule ccontr)
    assume "x \<noteq> y"
    with Cons.prems(3) ys have "x \<in> set ys'" "y \<in> set xs" by auto
    with Cons.prems(1,2) ys have "lt x y" "lt y x" by auto
    then show False using irr tr by blast
  qed
  have "x \<notin> set xs" "y \<notin> set ys'" using Cons.prems(1,2) irr ys by auto
  with Cons.prems(3) ys xy have "set xs = set ys'" by auto
  with Cons.IH Cons.prems(1,2) ys xy show ?case by auto
qed

subsection \<open>Sorting\<close>

text \<open>\<open>sort.Slice\<close>, which leaves the order of equal elements open: here they keep their order.\<close>

fun insert_by :: "('a \<Rightarrow> 'a \<Rightarrow> bool) \<Rightarrow> 'a \<Rightarrow> 'a list \<Rightarrow> 'a list" where
  "insert_by lt x [] = [x]"
| "insert_by lt x (y # ys) = (if lt y x then y # insert_by lt x ys else x # y # ys)"

definition sort_Slice :: "('a \<Rightarrow> 'a \<Rightarrow> bool) \<Rightarrow> 'a list \<Rightarrow> 'a list" where
  "sort_Slice lt xs = foldr (insert_by lt) xs []"

lemma set_insert_by [simp]: "set (insert_by lt x ys) = insert x (set ys)"
  by (induction ys) auto

lemma length_insert_by [simp]: "length (insert_by lt x ys) = Suc (length ys)"
  by (induction ys) auto

lemma set_sort_Slice [simp]: "set (sort_Slice lt xs) = set xs"
  by (induction xs) (simp_all add: sort_Slice_def)

lemma length_sort_Slice [simp]: "length (sort_Slice lt xs) = length xs"
  by (induction xs) (simp_all add: sort_Slice_def)

lemma insert_by_sorted:
  assumes "\<And>x y z. lt x y \<Longrightarrow> lt y z \<Longrightarrow> lt x z" "\<And>y. y \<in> set ys \<Longrightarrow> lt x y \<or> lt y x" "sorted_wrt lt ys"
  shows "sorted_wrt lt (insert_by lt x ys)"
  using assms(2,3)
proof (induction ys)
  case (Cons y ys)
  show ?case
  proof (cases "lt y x")
    case True
    then show ?thesis using Cons by auto
  next
    case False
    then have "lt x y" using Cons.prems(1) by auto
    then show ?thesis using Cons.prems(2) False assms(1) by auto
  qed
qed simp

lemma sort_Slice_sorted:
  assumes "\<And>x y z. lt x y \<Longrightarrow> lt y z \<Longrightarrow> lt x z"
    and "\<And>x y. x \<in> set xs \<Longrightarrow> y \<in> set xs \<Longrightarrow> x \<noteq> y \<Longrightarrow> lt x y \<or> lt y x" "distinct xs"
  shows "sorted_wrt lt (sort_Slice lt xs)"
  using assms(2,3)
proof (induction xs)
  case Nil
  then show ?case by (simp add: sort_Slice_def)
next
  case (Cons x xs)
  have "sorted_wrt lt (sort_Slice lt xs)" using Cons by auto
  moreover have "y \<in> set (sort_Slice lt xs) \<Longrightarrow> lt x y \<or> lt y x" for y using Cons.prems by auto
  ultimately have "sorted_wrt lt (insert_by lt x (sort_Slice lt xs))"
    using assms(1) by (intro insert_by_sorted) auto
  then show ?case by (simp add: sort_Slice_def)
qed

end
