(* ===== verification/Utf8.thy ===== *)
theory Utf8
  imports Prelude
begin

text \<open>
  Go strings are sequences of bytes (\<open>string\<close>, one \<open>char\<close> per byte). This theory holds what
  the program uses of \<open>unicode/utf8\<close>: \<open>DecodeRune\<close>, \<open>AppendRune\<close>, the runes of a
  string and the valid strings, with the round trips between them. It models the standard
  library, so nothing here maps to a file under src/.
\<close>

subsection \<open>Bytes and runes\<close>

definition bytes :: "string \<Rightarrow> nat list" where
  "bytes s = map of_char s"

definition of_bytes :: "nat list \<Rightarrow> string" where
  "of_bytes bs = map char_of bs"

lemma of_bytes_bytes [simp]: "of_bytes (bytes s) = s"
  by (simp add: bytes_def of_bytes_def comp_def)

lemma bytes_of_bytes: "\<forall>b \<in> set bs. b < 256 \<Longrightarrow> bytes (of_bytes bs) = bs"
  unfolding bytes_def of_bytes_def map_map comp_def
  by (rule map_idI) simp

lemma bytes_bound: "\<forall>b \<in> set (bytes s). b < 256"
  by (auto simp: bytes_def)

lemma bytes_append [simp]: "bytes (s @ t) = bytes s @ bytes t"
  and bytes_Nil [simp]: "bytes [] = []"
  and bytes_Cons [simp]: "bytes (c # s) = of_char c # bytes s"
  by (simp_all add: bytes_def)

lemma length_bytes [simp]: "length (bytes s) = length s"
  by (simp add: bytes_def)

lemma bytes_inject: "bytes s = bytes t \<longleftrightarrow> s = t"
  by (metis of_bytes_bytes)

lemma of_bytes_append [simp]: "of_bytes (s @ t) = of_bytes s @ of_bytes t"
  by (simp add: of_bytes_def)

definition rune_error :: nat where
  "rune_error = 65533"

definition valid_rune :: "nat \<Rightarrow> bool" where
  "valid_rune r \<longleftrightarrow> r < 0x110000 \<and> \<not> (0xD800 \<le> r \<and> r \<le> 0xDFFF)"

definition is_cont :: "nat \<Rightarrow> bool" where
  "is_cont b \<longleftrightarrow> 128 \<le> b \<and> b < 192"

text \<open>The range the second byte of a three or four byte sequence must lie in.\<close>

definition accept :: "nat \<Rightarrow> nat \<Rightarrow> bool" where
  "accept b0 b1 \<longleftrightarrow>
     (if b0 = 224 then 160 else if b0 = 240 then 144 else 128) \<le> b1 \<and>
     b1 \<le> (if b0 = 237 then 159 else if b0 = 244 then 143 else 191)"

text \<open>\<open>utf8.DecodeRune\<close>: the rune at the front and how many bytes it takes.\<close>

definition decode_rune :: "nat list \<Rightarrow> nat \<times> nat" where
  "decode_rune bs =
     (case bs of
        [] \<Rightarrow> (rune_error, 0)
      | b0 # r1 \<Rightarrow>
          if b0 < 128 then (b0, 1)
          else if 194 \<le> b0 \<and> b0 < 224 then
            (case r1 of
               b1 # _ \<Rightarrow> if is_cont b1 then ((b0 - 192) * 64 + (b1 - 128), 2) else (rune_error, 1)
             | [] \<Rightarrow> (rune_error, 1))
          else if 224 \<le> b0 \<and> b0 < 240 then
            (case r1 of
               b1 # b2 # _ \<Rightarrow>
                 if accept b0 b1 \<and> is_cont b2
                 then ((b0 - 224) * 4096 + (b1 - 128) * 64 + (b2 - 128), 3)
                 else (rune_error, 1)
             | _ \<Rightarrow> (rune_error, 1))
          else if 240 \<le> b0 \<and> b0 < 245 then
            (case r1 of
               b1 # b2 # b3 # _ \<Rightarrow>
                 if accept b0 b1 \<and> is_cont b2 \<and> is_cont b3
                 then ((b0 - 240) * 262144 + (b1 - 128) * 4096 + (b2 - 128) * 64 + (b3 - 128), 4)
                 else (rune_error, 1)
             | _ \<Rightarrow> (rune_error, 1))
          else (rune_error, 1))"

text \<open>\<open>utf8.AppendRune\<close>: a rune that is not a Unicode scalar value is written as U+FFFD.\<close>

definition encode_rune :: "nat \<Rightarrow> nat list" where
  "encode_rune r0 =
     (let r = (if valid_rune r0 then r0 else rune_error) in
      if r < 128 then [r]
      else if r < 2048 then [192 + r div 64, 128 + r mod 64]
      else if r < 65536 then [224 + r div 4096, 128 + (r div 64) mod 64, 128 + r mod 64]
      else [240 + r div 262144, 128 + (r div 4096) mod 64, 128 + (r div 64) mod 64, 128 + r mod 64])"

fun runes :: "nat list \<Rightarrow> nat list" where
  "runes [] = []"
| "runes (b # bs) = fst (decode_rune (b # bs)) # runes (drop (snd (decode_rune (b # bs)) - 1) bs)"

definition encode_runes :: "nat list \<Rightarrow> nat list" where
  "encode_runes rs = concat (map encode_rune rs)"

definition valid_utf8 :: "string \<Rightarrow> bool" where
  "valid_utf8 s \<longleftrightarrow> encode_runes (runes (bytes s)) = bytes s"

lemma encode_runes_Nil [simp]: "encode_runes [] = []"
  and encode_runes_Cons [simp]: "encode_runes (r # rs) = encode_rune r @ encode_runes rs"
  and encode_runes_append [simp]: "encode_runes (rs @ rs') = encode_runes rs @ encode_runes rs'"
  by (simp_all add: encode_runes_def)

lemma decode_ascii [simp]: "b < 128 \<Longrightarrow> decode_rune (b # bs) = (b, 1)"
  by (simp add: decode_rune_def)

lemma runes_ascii: "\<forall>b \<in> set bs. b < 128 \<Longrightarrow> runes bs = bs"
  by (induction bs) simp_all

lemma encode_ascii [simp]: "r < 128 \<Longrightarrow> encode_rune r = [r]"
  by (simp add: encode_rune_def valid_rune_def)

lemma encode_runes_ascii: "\<forall>b \<in> set bs. b < 128 \<Longrightarrow> encode_runes bs = bs"
  by (induction bs) simp_all

lemma encode_rune_bound: "b \<in> set (encode_rune r) \<Longrightarrow> b < 256"
  by (auto simp: encode_rune_def Let_def rune_error_def valid_rune_def split: if_splits)

lemma encode_runes_bound: "\<forall>b \<in> set (encode_runes rs). b < 256"
  by (auto simp: encode_runes_def dest: encode_rune_bound)

lemma encode_rune_nonempty [simp]: "encode_rune r \<noteq> []"
  by (simp add: encode_rune_def Let_def)

subsection \<open>Decoding inverts encoding\<close>


lemma div_mod_3: "r div 4096 * 4096 + (r div 64) mod 64 * 64 + r mod 64 = (r::nat)"
proof -
  have "r div 4096 = r div 64 div 64" by (simp add: div_mult2_eq [symmetric])
  moreover have "r div 64 div 64 * 64 + (r div 64) mod 64 = r div 64" by (rule div_mult_mod_eq)
  moreover have "r div 64 * 64 + r mod 64 = r" by (rule div_mult_mod_eq)
  ultimately show ?thesis by linarith
qed

lemma div_mod_4:
  "r div 262144 * 262144 + (r div 4096) mod 64 * 4096 + (r div 64) mod 64 * 64 + r mod 64 = (r::nat)"
proof -
  have "r div 262144 = r div 4096 div 64" by (simp add: div_mult2_eq [symmetric])
  moreover have "r div 4096 div 64 * 64 + (r div 4096) mod 64 = r div 4096" by (rule div_mult_mod_eq)
  ultimately show ?thesis using div_mod_3 [of r] by linarith
qed

lemma decode_rune3:
  "a < 16 \<Longrightarrow> b < 64 \<Longrightarrow> c < 64 \<Longrightarrow> (a = 0 \<longrightarrow> 32 \<le> b) \<Longrightarrow> (a = 13 \<longrightarrow> b < 32) \<Longrightarrow>
   decode_rune ((224 + a) # (128 + b) # (128 + c) # bs) = (a * 4096 + b * 64 + c, 3)"
  by (auto simp: decode_rune_def is_cont_def accept_def)

lemma decode_rune4:
  "a < 5 \<Longrightarrow> b < 64 \<Longrightarrow> c < 64 \<Longrightarrow> d < 64 \<Longrightarrow> (a = 0 \<longrightarrow> 16 \<le> b) \<Longrightarrow> (a = 4 \<longrightarrow> b < 16) \<Longrightarrow>
   decode_rune ((240 + a) # (128 + b) # (128 + c) # (128 + d) # bs)
     = (a * 262144 + b * 4096 + c * 64 + d, 4)"
  by (auto simp: decode_rune_def is_cont_def accept_def)

lemma decode_encode_rune:
  assumes "valid_rune r"
  shows "decode_rune (encode_rune r @ bs) = (r, length (encode_rune r))"
proof -
  consider "r < 128" | "128 \<le> r" "r < 2048" | "2048 \<le> r" "r < 65536" | "65536 \<le> r" by linarith
  then show ?thesis
  proof cases
    case 1
    then show ?thesis by simp
  next
    case 2
    then have "r div 64 < 32" "2 \<le> r div 64" by auto
    with 2 assms show ?thesis
      by (simp add: encode_rune_def decode_rune_def is_cont_def)
  next
    case 3
    let ?a = "r div 4096" and ?b = "(r div 64) mod 64" and ?c = "r mod 64"
    have eq: "?a * 4096 + ?b * 64 + ?c = r" by (rule div_mod_3)
    have lt: "?b < 64" "?c < 64" by simp_all
    have hi: "?a < 16" using eq 3 by linarith
    have low: "?a = 0 \<longrightarrow> 32 \<le> ?b" using eq lt 3 by linarith
    have sur: "?a = 13 \<longrightarrow> ?b < 32"
    proof
      assume "?a = 13"
      with eq lt have "53248 \<le> r" "r < 57344" by linarith+
      with assms have "r < 55296" by (simp add: valid_rune_def)
      with eq \<open>?a = 13\<close> show "?b < 32" by linarith
    qed
    have "encode_rune r = [224 + ?a, 128 + ?b, 128 + ?c]"
      using 3 assms by (simp add: encode_rune_def)
    with decode_rune3 [OF hi lt low sur] eq show ?thesis by simp
  next
    case 4
    let ?a = "r div 262144" and ?b = "(r div 4096) mod 64" and ?c = "(r div 64) mod 64" and ?d = "r mod 64"
    have eq: "?a * 262144 + ?b * 4096 + ?c * 64 + ?d = r" by (rule div_mod_4)
    have lt: "?b < 64" "?c < 64" "?d < 64" by simp_all
    have lim: "r < 0x110000" using assms by (simp add: valid_rune_def)
    have hi: "?a < 5" using eq lim by linarith
    have low: "?a = 0 \<longrightarrow> 16 \<le> ?b" using eq lt 4 by linarith
    have top: "?a = 4 \<longrightarrow> ?b < 16" using eq lim by linarith
    have "encode_rune r = [240 + ?a, 128 + ?b, 128 + ?c, 128 + ?d]"
      using 4 assms by (simp add: encode_rune_def)
    with decode_rune4 [OF hi lt low top] eq show ?thesis by simp
  qed
qed

lemma runes_step:
  assumes "valid_rune r"
  shows "runes (encode_rune r @ bs) = r # runes bs"
proof -
  obtain b t where e: "encode_rune r = b # t" by (cases "encode_rune r") auto
  with decode_encode_rune [OF assms, of bs] show ?thesis by simp
qed

lemma runes_encode_runes: "\<forall>r \<in> set rs. valid_rune r \<Longrightarrow> runes (encode_runes rs) = rs"
  by (induction rs) (simp_all add: runes_step)

lemma valid_rune_error [simp]: "valid_rune rune_error"
  by (simp add: valid_rune_def rune_error_def)

lemma valid_rune_ascii [simp]: "r < 128 \<Longrightarrow> valid_rune r"
  by (simp add: valid_rune_def)

lemma base64_digits2: "b < 64 \<Longrightarrow> (a * 64 + b) div 64 = (a :: nat) \<and> (a * 64 + b) mod 64 = b"
  by simp

lemma base64_digits3:
  assumes "b < 64" "c < (64 :: nat)"
  shows "(a * 4096 + b * 64 + c) div 4096 = a"
    "((a * 4096 + b * 64 + c) div 64) mod 64 = b" "(a * 4096 + b * 64 + c) mod 64 = c"
proof -
  have eq: "a * 4096 + b * 64 + c = (a * 64 + b) * 64 + c" by simp
  have d: "(a * 4096 + b * 64 + c) div 64 = a * 64 + b" unfolding eq using assms by simp
  show "((a * 4096 + b * 64 + c) div 64) mod 64 = b" unfolding d using assms by simp
  show "(a * 4096 + b * 64 + c) mod 64 = c"
    unfolding eq using assms by (simp only: mod_mult_self3 mod_less)
  show "(a * 4096 + b * 64 + c) div 4096 = a" using assms by simp
qed

lemma base64_digits4:
  assumes "b < 64" "c < (64 :: nat)" "d < 64"
  shows "(a * 262144 + b * 4096 + c * 64 + d) div 262144 = a"
    "((a * 262144 + b * 4096 + c * 64 + d) div 4096) mod 64 = b"
    "((a * 262144 + b * 4096 + c * 64 + d) div 64) mod 64 = c"
    "(a * 262144 + b * 4096 + c * 64 + d) mod 64 = d"
proof -
  have eq: "a * 262144 + b * 4096 + c * 64 + d = (a * 64 + b) * 4096 + c * 64 + d" by simp
  note d3 = base64_digits3 [of c d "a * 64 + b", OF assms(2,3)]
  show "((a * 262144 + b * 4096 + c * 64 + d) div 4096) mod 64 = b"
    unfolding eq d3 using assms by simp
  show "((a * 262144 + b * 4096 + c * 64 + d) div 64) mod 64 = c" unfolding eq by (rule d3)
  show "(a * 262144 + b * 4096 + c * 64 + d) mod 64 = d" unfolding eq by (rule d3)
  show "(a * 262144 + b * 4096 + c * 64 + d) div 262144 = a" using assms by simp
qed

lemma encode_rune2:
  "2 \<le> a \<Longrightarrow> a < 32 \<Longrightarrow> b < 64 \<Longrightarrow> encode_rune (a * 64 + b) = [192 + a, 128 + b]"
  by (simp add: encode_rune_def valid_rune_def base64_digits2)

lemma encode_rune3:
  assumes "a < 16" "b < 64" "c < 64" "a = 0 \<longrightarrow> 32 \<le> b" "a = 13 \<longrightarrow> b < 32"
  shows "valid_rune (a * 4096 + b * 64 + c)"
    and "encode_rune (a * 4096 + b * 64 + c) = [224 + a, 128 + b, 128 + c]"
proof -
  show v: "valid_rune (a * 4096 + b * 64 + c)"
  proof -
    have "\<not> (0xD800 \<le> a * 4096 + b * 64 + c \<and> a * 4096 + b * 64 + c \<le> 0xDFFF)"
    proof
      assume h: "0xD800 \<le> a * 4096 + b * 64 + c \<and> a * 4096 + b * 64 + c \<le> 0xDFFF"
      with assms have "a = 13" by linarith
      with h assms show False by simp
    qed
    with assms show ?thesis by (simp add: valid_rune_def)
  qed
  have "2048 \<le> a * 4096 + b * 64 + c" using assms by (cases "a = 0") auto
  moreover have "a * 4096 + b * 64 + c < 65536" using assms by linarith
  ultimately show "encode_rune (a * 4096 + b * 64 + c) = [224 + a, 128 + b, 128 + c]"
    using v base64_digits3 [OF assms(2,3)] by (simp add: encode_rune_def)
qed

lemma encode_rune4:
  assumes "a < 5" "b < 64" "c < 64" "d < 64" "a = 0 \<longrightarrow> 16 \<le> b" "a = 4 \<longrightarrow> b < 16"
  shows "valid_rune (a * 262144 + b * 4096 + c * 64 + d)"
    and "encode_rune (a * 262144 + b * 4096 + c * 64 + d) = [240 + a, 128 + b, 128 + c, 128 + d]"
proof -
  have lo: "65536 \<le> a * 262144 + b * 4096 + c * 64 + d" using assms by (cases "a = 0") auto
  have "a * 262144 + b * 4096 + c * 64 + d < 0x110000"
    using assms by (cases "a = 4") auto
  with lo show v: "valid_rune (a * 262144 + b * 4096 + c * 64 + d)" by (simp add: valid_rune_def)
  show "encode_rune (a * 262144 + b * 4096 + c * 64 + d) = [240 + a, 128 + b, 128 + c, 128 + d]"
    using v lo base64_digits4 [OF assms(2,3,4)] by (simp add: encode_rune_def)
qed

text \<open>
  A decoded rune is either the error of one bad byte or what the bytes encode: one lemma per
  sequence length, then the summary.
\<close>

lemma decode_rune_sound2:
  assumes "194 \<le> b0" "b0 < 224"
  shows "decode_rune (b0 # r1) = (rune_error, 1) \<or>
    (\<exists>r t. valid_rune r \<and> b0 # r1 = encode_rune r @ t)"
proof (cases "\<exists>b1 r2. r1 = b1 # r2 \<and> is_cont b1")
  case True
  then obtain b1 r2 where r1: "r1 = b1 # r2" "128 \<le> b1" "b1 < 192" by (auto simp: is_cont_def)
  then obtain y where y: "b1 = 128 + y" "y < 64" using le_Suc_ex [of 128 b1] by auto
  obtain x where x: "b0 = 192 + x" "2 \<le> x" "x < 32" using assms le_Suc_ex [of 192 b0] by auto
  have "valid_rune (x * 64 + y)" using x y by (simp add: valid_rune_def)
  moreover have "b0 # r1 = encode_rune (x * 64 + y) @ r2"
    using x y encode_rune2 [of x y] by (simp add: r1)
  ultimately show ?thesis by blast
next
  case False
  with assms show ?thesis by (auto simp: decode_rune_def split: list.splits if_splits)
qed

lemma decode_rune_sound3:
  assumes "224 \<le> b0" "b0 < 240"
  shows "decode_rune (b0 # r1) = (rune_error, 1) \<or>
    (\<exists>r t. valid_rune r \<and> b0 # r1 = encode_rune r @ t)"
proof (cases "\<exists>b1 b2 r2. r1 = b1 # b2 # r2 \<and> accept b0 b1 \<and> is_cont b2")
  case True
  then obtain b1 b2 r2 where r1: "r1 = b1 # b2 # r2" "accept b0 b1" "is_cont b2" by blast
  obtain x where x: "b0 = 224 + x" "x < 16" using assms le_Suc_ex [of 224 b0] by auto
  have "128 \<le> b1" "b1 < 192" using r1(2) by (auto simp: accept_def split: if_splits)
  then obtain y where y: "b1 = 128 + y" "y < 64" using le_Suc_ex [of 128 b1] by auto
  obtain z where z: "b2 = 128 + z" "z < 64"
    using r1(3) le_Suc_ex [of 128 b2] by (auto simp: is_cont_def)
  have lim: "x = 0 \<longrightarrow> 32 \<le> y" "x = 13 \<longrightarrow> y < 32" using r1(2) x y by (auto simp: accept_def)
  have "b0 # r1 = encode_rune (x * 4096 + y * 64 + z) @ r2"
    using encode_rune3(2) [OF x(2) y(2) z(2) lim] by (simp add: r1(1) x(1) y(1) z(1))
  with encode_rune3(1) [OF x(2) y(2) z(2) lim] show ?thesis by blast
next
  case False
  with assms show ?thesis by (auto simp: decode_rune_def split: list.splits if_splits)
qed

lemma decode_rune_sound4:
  assumes "240 \<le> b0" "b0 < 245"
  shows "decode_rune (b0 # r1) = (rune_error, 1) \<or>
    (\<exists>r t. valid_rune r \<and> b0 # r1 = encode_rune r @ t)"
proof (cases "\<exists>b1 b2 b3 r2. r1 = b1 # b2 # b3 # r2 \<and> accept b0 b1 \<and> is_cont b2 \<and> is_cont b3")
  case True
  then obtain b1 b2 b3 r2 where r1: "r1 = b1 # b2 # b3 # r2" "accept b0 b1" "is_cont b2" "is_cont b3"
    by blast
  obtain x where x: "b0 = 240 + x" "x < 5" using assms le_Suc_ex [of 240 b0] by auto
  have "128 \<le> b1" "b1 < 192" using r1(2) by (auto simp: accept_def split: if_splits)
  then obtain y where y: "b1 = 128 + y" "y < 64" using le_Suc_ex [of 128 b1] by auto
  obtain z where z: "b2 = 128 + z" "z < 64"
    using r1(3) le_Suc_ex [of 128 b2] by (auto simp: is_cont_def)
  obtain w where w: "b3 = 128 + w" "w < 64"
    using r1(4) le_Suc_ex [of 128 b3] by (auto simp: is_cont_def)
  have lim: "x = 0 \<longrightarrow> 16 \<le> y" "x = 4 \<longrightarrow> y < 16" using r1(2) x y by (auto simp: accept_def)
  have "b0 # r1 = encode_rune (x * 262144 + y * 4096 + z * 64 + w) @ r2"
    using encode_rune4(2) [OF x(2) y(2) z(2) w(2) lim] by (simp add: r1(1) x(1) y(1) z(1) w(1))
  with encode_rune4(1) [OF x(2) y(2) z(2) w(2) lim] show ?thesis by blast
next
  case False
  with assms show ?thesis by (auto simp: decode_rune_def split: list.splits if_splits)
qed

lemma decode_rune_cases:
  assumes "bs \<noteq> []"
  obtains (bad) "decode_rune bs = (rune_error, 1)"
    | (good) r t where "valid_rune r" "bs = encode_rune r @ t" "decode_rune bs = (r, length (encode_rune r))"
proof -
  obtain b0 r1 where bs: "bs = b0 # r1" using assms by (cases bs) auto
  consider "b0 < 128" | "194 \<le> b0" "b0 < 224" | "224 \<le> b0" "b0 < 240" | "240 \<le> b0" "b0 < 245"
    | "128 \<le> b0" "b0 < 194 \<or> 245 \<le> b0" by linarith
  then have "decode_rune bs = (rune_error, 1) \<or> (\<exists>r t. valid_rune r \<and> bs = encode_rune r @ t)"
  proof cases
    case 1
    then have "valid_rune b0" "bs = encode_rune b0 @ r1" by (simp_all add: bs)
    then show ?thesis by blast
  next
    case 5
    then show ?thesis by (auto simp: bs decode_rune_def)
  qed (simp_all only: bs decode_rune_sound2 decode_rune_sound3 decode_rune_sound4)
  with bad good show thesis by (metis decode_encode_rune)
qed

lemma valid_rune_decode: "bs \<noteq> [] \<Longrightarrow> valid_rune (fst (decode_rune bs))"
  by (erule decode_rune_cases) simp_all

lemma valid_runes: "\<forall>r \<in> set (runes bs). valid_rune r"
  by (induction bs rule: runes.induct) (auto simp: valid_rune_decode)

lemma runes_eq_Nil [simp]: "runes bs = [] \<longleftrightarrow> bs = []"
  by (cases bs) simp_all

lemma valid_utf8_encode: "\<forall>r \<in> set rs. valid_rune r \<Longrightarrow> valid_utf8 (of_bytes (encode_runes rs))"
  by (simp add: valid_utf8_def bytes_of_bytes encode_runes_bound runes_encode_runes)
end
