(* ===== verification/GoText.thy ===== *)
theory GoText
  imports Utf8 "HOL-Library.List_Lexorder"
begin

text \<open>
  The byte-level functions of \<open>strings\<close> and \<open>strconv\<close> that the program calls:
  \<open>TrimSpace\<close>, \<open>ToLower\<close>, \<open>IndexByte\<close>, \<open>Count\<close>, \<open>Contains\<close>, \<open>Split\<close>,
  \<open>Itoa\<close>, \<open>Atoi\<close> and the byte order on strings. Standard library only: nothing here maps
  to a file under src/.

  The lower-case table of \<open>unicode.ToLower\<close> above ASCII is data of the Go distribution. It is
  the parameter \<open>ul\<close> (the lower-case rune of a rune \<open>\<ge> 128\<close>), and \<open>lower_table ul\<close> states
  what is relied on: it maps runes to runes, it is idempotent, and it turns no letter into
  white space.
\<close>

subsection \<open>strings.TrimSpace\<close>

definition is_space :: "nat \<Rightarrow> bool" where
  "is_space r \<longleftrightarrow> (9 \<le> r \<and> r \<le> 13) \<or> r = 32 \<or> r = 0x85 \<or> r = 0xA0 \<or> r = 0x1680
     \<or> (0x2000 \<le> r \<and> r \<le> 0x200A) \<or> r = 0x2028 \<or> r = 0x2029 \<or> r = 0x202F \<or> r = 0x205F \<or> r = 0x3000"

fun trim_left :: "nat list \<Rightarrow> nat list" where
  "trim_left [] = []"
| "trim_left (b # bs) =
     (if is_space (fst (decode_rune (b # bs)))
      then trim_left (drop (snd (decode_rune (b # bs)) - 1) bs) else b # bs)"

text \<open>
  The number of bytes of a white-space rune at the end, if there is one. White space takes at
  most three bytes in UTF-8.
\<close>

definition last_space :: "nat list \<Rightarrow> nat option" where
  "last_space bs =
     find (\<lambda>n. n \<le> length bs \<and> snd (decode_rune (drop (length bs - n) bs)) = n
                \<and> is_space (fst (decode_rune (drop (length bs - n) bs)))) [1, 2, 3]"

lemma last_space_Some:
  assumes "last_space bs = Some n"
  shows "1 \<le> n" "n \<le> length bs" "snd (decode_rune (drop (length bs - n) bs)) = n"
    "is_space (fst (decode_rune (drop (length bs - n) bs)))"
  using assms by (auto simp: last_space_def split: if_splits)

function trim_right :: "nat list \<Rightarrow> nat list" where
  "trim_right bs =
     (case last_space bs of None \<Rightarrow> bs | Some n \<Rightarrow> trim_right (take (length bs - n) bs))"
  by pat_completeness auto
termination
proof (relation "measure length")
  fix bs n
  assume "last_space bs = Some n"
  then have "1 \<le> n" "n \<le> length bs" by (rule last_space_Some)+
  then show "(take (length bs - n) bs, bs) \<in> measure length" by simp
qed simp

declare trim_right.simps [simp del]

definition TrimSpace :: "string \<Rightarrow> string" where
  "TrimSpace s = of_bytes (trim_right (trim_left (bytes s)))"

subsection \<open>strings.ToLower\<close>

definition lower_rune :: "(nat \<Rightarrow> nat) \<Rightarrow> nat \<Rightarrow> nat" where
  "lower_rune ul r = (if r < 128 then (if 65 \<le> r \<and> r \<le> 90 then r + 32 else r) else ul r)"

definition lower_table :: "(nat \<Rightarrow> nat) \<Rightarrow> bool" where
  "lower_table ul \<longleftrightarrow> (\<forall>r. 128 \<le> r \<longrightarrow> valid_rune r \<longrightarrow>
     valid_rune (ul r) \<and> lower_rune ul (ul r) = ul r \<and> (is_space (ul r) \<longrightarrow> is_space r))"

definition ToLower :: "(nat \<Rightarrow> nat) \<Rightarrow> string \<Rightarrow> string" where
  "ToLower ul s = of_bytes (encode_runes (map (lower_rune ul) (runes (bytes s))))"

lemma lower_table_id [simp]: "lower_table (\<lambda>r. r)"
  by (simp add: lower_table_def lower_rune_def)

lemma lower_rune_valid: "lower_table ul \<Longrightarrow> valid_rune r \<Longrightarrow> valid_rune (lower_rune ul r)"
  by (auto simp: lower_rune_def lower_table_def)

lemma lower_rune_idem:
  "lower_table ul \<Longrightarrow> valid_rune r \<Longrightarrow> lower_rune ul (lower_rune ul r) = lower_rune ul r"
proof (cases "r < 128")
  case True
  then show ?thesis by (simp add: lower_rune_def)
next
  case False
  assume "lower_table ul" "valid_rune r"
  with False have "lower_rune ul (ul r) = ul r" by (simp add: lower_table_def)
  with False show ?thesis by (simp add: lower_rune_def [of ul r])
qed

lemma lower_rune_space: "lower_table ul \<Longrightarrow> valid_rune r \<Longrightarrow> is_space (lower_rune ul r) \<Longrightarrow> is_space r"
proof (cases "65 \<le> r \<and> r \<le> 90")
  case True
  assume "is_space (lower_rune ul r)"
  with True show ?thesis by (simp add: lower_rune_def is_space_def)
next
  case False
  assume "lower_table ul" "valid_rune r" "is_space (lower_rune ul r)"
  with False show ?thesis by (cases "r < 128") (auto simp: lower_rune_def lower_table_def)
qed

subsection \<open>Searching and splitting\<close>

fun IndexByte :: "string \<Rightarrow> char \<Rightarrow> int" where
  "IndexByte [] c = -1"
| "IndexByte (x # xs) c = (if x = c then 0 else if IndexByte xs c < 0 then -1 else IndexByte xs c + 1)"

definition CountByte :: "string \<Rightarrow> char \<Rightarrow> nat" where
  "CountByte s c = count_list s c"

fun Contains :: "string \<Rightarrow> string \<Rightarrow> bool" where
  "Contains [] sub = (sub = [])"
| "Contains (x # xs) sub = (prefix sub (x # xs) \<or> Contains xs sub)"

fun SplitByte :: "string \<Rightarrow> char \<Rightarrow> string list" where
  "SplitByte [] c = [[]]"
| "SplitByte (x # xs) c =
     (if x = c then [] # SplitByte xs c
      else (case SplitByte xs c of [] \<Rightarrow> [[x]] | p # ps \<Rightarrow> (x # p) # ps))"

definition string_less :: "string \<Rightarrow> string \<Rightarrow> bool" where
  "string_less s t \<longleftrightarrow> bytes s < bytes t"

lemma IndexByte_range: "-1 \<le> IndexByte s c \<and> IndexByte s c < int (length s)"
  by (induction s) auto

lemma IndexByte_neg: "IndexByte s c < 0 \<longleftrightarrow> c \<notin> set s"
  by (induction s) auto

lemma IndexByte_split:
  "0 \<le> IndexByte s c \<Longrightarrow>
     s = take (nat (IndexByte s c)) s @ c # drop (nat (IndexByte s c + 1)) s \<and>
     c \<notin> set (take (nat (IndexByte s c)) s)"
proof (induction s)
  case Nil
  then show ?case by simp
next
  case (Cons x s)
  show ?case
  proof (cases "x = c")
    case True
    then show ?thesis by simp
  next
    case False
    with Cons.prems have pos: "0 \<le> IndexByte s c" by (auto split: if_splits)
    then obtain k where k: "IndexByte s c = int k" by (auto dest: nonneg_int_cases)
    with False pos have "IndexByte (x # s) c = int (Suc k)" by simp
    with Cons.IH pos k False show ?thesis by (simp add: nat_add_distrib)
  qed
qed

lemma Contains_byte: "Contains s [c] \<longleftrightarrow> c \<in> set s"
  by (induction s) auto

lemma SplitByte_nonempty [simp]: "SplitByte s c \<noteq> []"
  by (induction s) (auto split: list.splits)

lemma string_less_irrefl: "\<not> string_less s s"
  and string_less_trans: "string_less s t \<Longrightarrow> string_less t u \<Longrightarrow> string_less s u"
  and string_less_total: "s \<noteq> t \<Longrightarrow> string_less s t \<or> string_less t s"
  by (auto simp: string_less_def bytes_inject [symmetric])

subsection \<open>strconv\<close>

datatype num_error = ErrSyntax | ErrRange

definition digit_char :: "nat \<Rightarrow> char" where
  "digit_char d = char_of (48 + d)"

definition is_digit :: "char \<Rightarrow> bool" where
  "is_digit c \<longleftrightarrow> 48 \<le> (of_char c :: nat) \<and> (of_char c :: nat) \<le> 57"

definition digit_val :: "char \<Rightarrow> nat" where
  "digit_val c = of_char c - 48"

fun nat_digits :: "nat \<Rightarrow> string" where
  "nat_digits n = (if n < 10 then [digit_char n] else nat_digits (n div 10) @ [digit_char (n mod 10)])"

declare nat_digits.simps [simp del]

definition Itoa :: "int \<Rightarrow> string" where
  "Itoa i = (if i < 0 then CHR ''-'' # nat_digits (nat (- i)) else nat_digits (nat i))"

definition digits_val :: "string \<Rightarrow> nat" where
  "digits_val s = foldl (\<lambda>n c. n * 10 + digit_val c) 0 s"

text \<open>\<open>strconv.Atoi\<close>: an out-of-range number is reported and saturates, a malformed one is 0.\<close>

definition Atoi :: "string \<Rightarrow> int \<times> num_error option" where
  "Atoi s =
     (let neg = (s \<noteq> [] \<and> hd s = CHR ''-'');
          ds = (if s \<noteq> [] \<and> (hd s = CHR ''-'' \<or> hd s = CHR ''+'') then tl s else s);
          n = (if neg then - int (digits_val ds) else int (digits_val ds)) in
      if ds = [] \<or> \<not> list_all is_digit ds then (0, Some ErrSyntax)
      else if n < - (2 ^ 63) then (- (2 ^ 63), Some ErrRange)
      else if 2 ^ 63 \<le> n then (2 ^ 63 - 1, Some ErrRange)
      else (n, None))"

lemma digit_char_val [simp]: "d < 10 \<Longrightarrow> digit_val (digit_char d) = d"
  by (simp add: digit_val_def digit_char_def)

lemma digit_char_is_digit [simp]: "d < 10 \<Longrightarrow> is_digit (digit_char d)"
  by (simp add: is_digit_def digit_char_def)

lemma digits_val_snoc [simp]: "digits_val (s @ [c]) = digits_val s * 10 + digit_val c"
  by (simp add: digits_val_def)

lemma nat_digits_val: "digits_val (nat_digits n) = n \<and> list_all is_digit (nat_digits n) \<and> nat_digits n \<noteq> []"
proof (induction n rule: nat_digits.induct)
  case (1 n)
  show ?case
  proof (cases "n < 10")
    case True
    then show ?thesis by (simp add: nat_digits.simps [of n] digits_val_def)
  next
    case False
    with 1 show ?thesis by (simp add: nat_digits.simps [of n])
  qed
qed

lemma is_digit_sign: "is_digit c \<Longrightarrow> c \<noteq> CHR ''-'' \<and> c \<noteq> CHR ''+''"
  by (auto simp: is_digit_def)

lemma nat_digits_hd: "hd (nat_digits n) \<noteq> CHR ''-'' \<and> hd (nat_digits n) \<noteq> CHR ''+''"
  using nat_digits_val [of n] by (cases "nat_digits n") (auto dest: is_digit_sign)

text \<open>\<open>Atoi\<close> reads back what \<open>Itoa\<close> writes.\<close>

lemma Atoi_Itoa: "int64_range i \<Longrightarrow> Atoi (Itoa i) = (i, None)"
  using nat_digits_val [of "nat i"] nat_digits_val [of "nat (- i)"] nat_digits_hd [of "nat i"]
  by (cases "i < 0") (simp_all add: Atoi_def Itoa_def int64_range_def Let_def)

lemma Itoa_inject: "int64_range i \<Longrightarrow> int64_range j \<Longrightarrow> Itoa i = Itoa j \<longleftrightarrow> i = j"
  by (metis Atoi_Itoa prod.inject)

end
