(* ===== verification/TextNormal.thy ===== *)
theory TextNormal
  imports GoText
begin

text \<open>
  Trimming and lower-casing reach a fixed point in one pass: a string that went through
  \<open>TrimSpace\<close> and \<open>ToLower\<close> is changed by neither again, whatever bytes it held. This is
  what makes the normal form of an e-mail address stable. Standard library only.
\<close>

subsection \<open>Normalising twice changes nothing\<close>

lemma space_not_error [simp]: "\<not> is_space rune_error"
  by (simp add: is_space_def rune_error_def)

lemma space_valid: "is_space r \<Longrightarrow> valid_rune r"
  by (auto simp: is_space_def valid_rune_def)

lemma decode_space:
  assumes "bs \<noteq> []" "is_space (fst (decode_rune bs))"
  obtains t where "bs = encode_rune (fst (decode_rune bs)) @ t"
    "snd (decode_rune bs) = length (encode_rune (fst (decode_rune bs)))"
  using assms(1)
proof (cases rule: decode_rune_cases)
  case bad
  with assms show thesis by simp
next
  case (good r t)
  with that show thesis by simp
qed

lemma trim_left_hd: "trim_left bs = [] \<or> \<not> is_space (fst (decode_rune (trim_left bs)))"
  by (induction bs rule: trim_left.induct) auto

lemma trim_left_id: "bs = [] \<or> \<not> is_space (fst (decode_rune bs)) \<Longrightarrow> trim_left bs = bs"
  by (cases bs) auto

lemma trim_right_last: "last_space (trim_right bs) = None"
proof (induction bs rule: trim_right.induct)
  case (1 bs)
  then show ?case by (cases "last_space bs") (simp_all add: trim_right.simps [of bs])
qed

lemma trim_right_id: "last_space bs = None \<Longrightarrow> trim_right bs = bs"
  by (simp add: trim_right.simps [of bs])

lemma trim_right_prefix: "\<exists>t. bs = trim_right bs @ t"
proof (induction bs rule: trim_right.induct)
  case (1 bs)
  show ?case
  proof (cases "last_space bs")
    case None
    then show ?thesis by (simp add: trim_right_id)
  next
    case (Some n)
    with "1.IH" obtain t where "take (length bs - n) bs = trim_right (take (length bs - n) bs) @ t"
      by blast
    with Some have "bs = trim_right bs @ t @ drop (length bs - n) bs"
      by (simp add: trim_right.simps [of bs]) (metis append.assoc append_take_drop_id)
    then show ?thesis by blast
  qed
qed

lemma trim_right_hd:
  assumes "\<not> is_space (fst (decode_rune bs))"
  shows "trim_right bs = [] \<or> \<not> is_space (fst (decode_rune (trim_right bs)))"
proof (rule ccontr)
  assume h: "\<not> ?thesis"
  then obtain t where t: "trim_right bs = encode_rune (fst (decode_rune (trim_right bs))) @ t"
    by (blast elim: decode_space)
  obtain u where u: "bs = trim_right bs @ u" using trim_right_prefix by blast
  let ?r = "fst (decode_rune (trim_right bs))"
  have "bs = encode_rune ?r @ t @ u" using t u by (metis append.assoc)
  moreover have "valid_rune ?r" using h space_valid by blast
  ultimately have "fst (decode_rune bs) = ?r" by (metis decode_encode_rune fst_conv)
  with assms h show False by simp
qed

lemma hd_encode_rune: "\<not> is_cont (hd (encode_rune r))"
  by (auto simp: encode_rune_def Let_def is_cont_def rune_error_def valid_rune_def)

lemma tl_encode_rune: "b \<in> set (tl (encode_rune r)) \<Longrightarrow> is_cont b"
  by (auto simp: encode_rune_def Let_def is_cont_def rune_error_def valid_rune_def split: if_splits)

lemma encode_rune_inject: "valid_rune r \<Longrightarrow> valid_rune q \<Longrightarrow> encode_rune r = encode_rune q \<Longrightarrow> r = q"
  by (metis decode_encode_rune append_Nil2 fst_conv)

text \<open>UTF-8 is self-synchronising: two encodings that end the same bytes are the same.\<close>

lemma encode_rune_suffix:
  assumes "p @ encode_rune r = q @ encode_rune s" "valid_rune r" "valid_rune s"
  shows "r = s"
proof -
  have no: False if "encode_rune x = u @ encode_rune y" "u \<noteq> []" for x y u
  proof -
    have "hd (encode_rune y) \<in> set (tl (encode_rune x))"
      using that by (cases u) (auto intro: hd_in_set)
    then show False using tl_encode_rune hd_encode_rune by blast
  qed
  from assms(1) obtain u where "encode_rune r = u @ encode_rune s \<or> encode_rune s = u @ encode_rune r"
    unfolding append_eq_append_conv2 by metis
  then have "encode_rune r = encode_rune s"
  proof
    assume h: "encode_rune r = u @ encode_rune s"
    with no [OF h] show ?thesis by fastforce
  next
    assume h: "encode_rune s = u @ encode_rune r"
    with no [OF h] show ?thesis by fastforce
  qed
  with assms show ?thesis by (blast dest: encode_rune_inject)
qed

lemma last_rune_suffix:
  "bs \<noteq> [] \<Longrightarrow> last (runes bs) = rune_error \<or> (\<exists>p. bs = p @ encode_rune (last (runes bs)))"
proof (induction bs rule: runes.induct)
  case 1
  then show ?case by simp
next
  case (2 b bs)
  let ?r = "fst (decode_rune (b # bs))" and ?rest = "drop (snd (decode_rune (b # bs)) - 1) bs"
  show ?case
  proof (cases "?rest = []")
    case True
    have "b # bs \<noteq> []" by simp
    then show ?thesis
    proof (cases rule: decode_rune_cases)
      case bad
      then show ?thesis using True by simp
    next
      case (good r t)
      then have "t = ?rest" by (cases "encode_rune r") auto
      with good True have bs: "b # bs = encode_rune r" by simp
      have "runes (b # bs) = [r]" using runes_step [OF good(1), of "[]"] by (simp add: bs)
      then have "b # bs = [] @ encode_rune (last (runes (b # bs)))" by (simp add: bs)
      then show ?thesis by blast
    qed
  next
    case False
    with "2.IH" have "last (runes ?rest) = rune_error \<or> (\<exists>p. ?rest = p @ encode_rune (last (runes ?rest)))"
      by blast
    moreover have "last (runes (b # bs)) = last (runes ?rest)" using False by simp
    moreover have "b # bs = (b # take (snd (decode_rune (b # bs)) - 1) bs) @ ?rest" by simp
    ultimately show ?thesis by (metis append.assoc)
  qed
qed

lemma length_encode_space: "is_space r \<Longrightarrow> length (encode_rune r) \<in> {1, 2, 3}"
  by (auto simp: encode_rune_def is_space_def Let_def rune_error_def)

lemma last_space_encode:
  assumes "is_space r" "bs = p @ encode_rune r"
  shows "last_space bs \<noteq> None"
proof -
  let ?n = "length (encode_rune r)"
  have "drop (length bs - ?n) bs = encode_rune r" using assms by simp
  moreover have "decode_rune (encode_rune r) = (r, ?n)"
    using decode_encode_rune [of r "[]"] space_valid assms by simp
  ultimately have "?n \<le> length bs \<and> snd (decode_rune (drop (length bs - ?n) bs)) = ?n
      \<and> is_space (fst (decode_rune (drop (length bs - ?n) bs)))" using assms by simp
  then show ?thesis
    using length_encode_space [OF assms(1)]
    unfolding last_space_def find_None_iff by auto
qed

lemma last_space_last_rune:
  assumes "bs \<noteq> []" "last_space bs = None"
  shows "\<not> is_space (last (runes bs))"
  using last_rune_suffix [OF assms(1)] last_space_encode assms(2) space_not_error by metis

lemma last_space_encode_runes:
  assumes "\<forall>r \<in> set rs. valid_rune r" "rs \<noteq> []" "\<not> is_space (last rs)"
  shows "last_space (encode_runes rs) = None"
proof (rule ccontr)
  let ?z = "encode_runes rs"
  assume "last_space ?z \<noteq> None"
  then obtain n where n: "last_space ?z = Some n" by auto
  note sp = last_space_Some [OF n]
  let ?t = "drop (length ?z - n) ?z"
  have "?t \<noteq> []" using sp by simp
  then obtain u where u: "?t = encode_rune (fst (decode_rune ?t)) @ u"
    "snd (decode_rune ?t) = length (encode_rune (fst (decode_rune ?t)))"
    using sp(4) by (rule decode_space)
  have "length ?t = n" using sp by simp
  with u sp(3) have "u = []" by (metis append_Nil2 append_eq_conv_conj drop_eq_Nil le_refl)
  then have "?z = take (length ?z - n) ?z @ encode_rune (fst (decode_rune ?t))"
    using u(1) by (metis append_Nil2 append_take_drop_id)
  moreover have "?z = encode_runes (butlast rs) @ encode_rune (last rs)"
    using assms(2) by (metis append_butlast_last_id append_Nil2 encode_runes_Cons encode_runes_Nil encode_runes_append)
  ultimately have "last rs = fst (decode_rune ?t)"
    using encode_rune_suffix space_valid sp(4) assms(1,2) last_in_set by metis
  with sp(4) assms(3) show False by simp
qed

text \<open>Trimming on byte lists, and what it leaves at both ends.\<close>

definition trim_bytes :: "nat list \<Rightarrow> nat list" where
  "trim_bytes bs = trim_right (trim_left bs)"

lemma trim_bytes_clean:
  "trim_bytes bs = [] \<or> (\<not> is_space (fst (decode_rune (trim_bytes bs))) \<and> last_space (trim_bytes bs) = None)"
proof (cases "trim_left bs = []")
  case True
  then show ?thesis by (simp add: trim_bytes_def trim_right_id last_space_def)
next
  case False
  then have "\<not> is_space (fst (decode_rune (trim_left bs)))" using trim_left_hd by blast
  then show ?thesis unfolding trim_bytes_def using trim_right_hd trim_right_last by blast
qed

lemma fst_decode_runes: "bs \<noteq> [] \<Longrightarrow> fst (decode_rune bs) = hd (runes bs)"
  by (cases bs) simp_all

text \<open>Lower-casing a trimmed string leaves nothing to trim or to lower-case.\<close>

lemma lower_trim_fix:
  assumes ul: "lower_table ul"
  defines "low \<equiv> (\<lambda>bs. encode_runes (map (lower_rune ul) (runes bs)))"
  shows "trim_bytes (low (trim_bytes bs)) = low (trim_bytes bs)"
    and "low (low bs) = low bs"
proof -
  have valid: "\<forall>r \<in> set (map (lower_rune ul) (runes x)). valid_rune r" for x
    using valid_runes [of x] lower_rune_valid [OF ul] by auto
  have low: "low x = encode_runes (map (lower_rune ul) (runes x))" for x by (simp add: low_def)
  have runes_low: "runes (low x) = map (lower_rune ul) (runes x)" for x
    unfolding low_def using valid by (rule runes_encode_runes)
  show "low (low bs) = low bs"
  proof -
    have "map (lower_rune ul) (runes (low bs)) = map (lower_rune ul) (runes bs)"
      unfolding runes_low using valid_runes [of bs] lower_rune_idem [OF ul] by simp
    then show ?thesis by (metis low)
  qed
  let ?y = "trim_bytes bs"
  show "trim_bytes (low ?y) = low ?y"
  proof (cases "?y = []")
    case True
    then show ?thesis by (simp add: low_def trim_bytes_def trim_right_id last_space_def)
  next
    case False
    then have y: "\<not> is_space (hd (runes ?y))" "\<not> is_space (last (runes ?y))"
      using trim_bytes_clean [of bs] last_space_last_rune fst_decode_runes by metis+
    have ne: "runes ?y \<noteq> []" using False by simp
    then have z: "low ?y \<noteq> []" by (cases "runes ?y") (auto simp: low_def)
    have "hd (runes (low ?y)) = lower_rune ul (hd (runes ?y))"
      "last (runes (low ?y)) = lower_rune ul (last (runes ?y))"
      unfolding runes_low using ne by (simp_all add: hd_map last_map)
    with y ne have "\<not> is_space (hd (runes (low ?y)))" "\<not> is_space (last (runes (low ?y)))"
      using lower_rune_space [OF ul] valid_runes by (metis hd_in_set last_in_set)+
    moreover have "last_space (low ?y) = None"
      using last_space_encode_runes [OF valid [of ?y]] calculation(2) ne runes_low by (simp add: low_def)
    ultimately show ?thesis
      using z by (simp add: trim_bytes_def trim_left_id trim_right_id fst_decode_runes)
  qed
qed
lemma set_trim_left: "set (trim_left bs) \<subseteq> set bs"
  by (induction bs rule: trim_left.induct) (auto dest: in_set_dropD)

lemma set_trim_bytes: "set (trim_bytes bs) \<subseteq> set bs"
proof -
  obtain t where "trim_left bs = trim_bytes bs @ t"
    unfolding trim_bytes_def using trim_right_prefix by blast
  then show ?thesis using set_trim_left [of bs] by (metis le_sup_iff set_append subset_trans sup_ge1)
qed

lemma bytes_TrimSpace: "bytes (TrimSpace s) = trim_bytes (bytes s)"
  unfolding TrimSpace_def trim_bytes_def [symmetric]
  using set_trim_bytes [of "bytes s"] bytes_bound [of s] by (intro bytes_of_bytes) blast

lemma bytes_ToLower:
  "bytes (ToLower ul s) = encode_runes (map (lower_rune ul) (runes (bytes s)))"
  unfolding ToLower_def by (intro bytes_of_bytes encode_runes_bound)

lemma TrimSpace_normal: "lower_table ul \<Longrightarrow> TrimSpace (ToLower ul (TrimSpace s)) = ToLower ul (TrimSpace s)"
  by (rule bytes_inject [THEN iffD1]) (simp add: bytes_TrimSpace bytes_ToLower lower_trim_fix(1))

lemma ToLower_idem: "lower_table ul \<Longrightarrow> ToLower ul (ToLower ul s) = ToLower ul s"
  by (rule bytes_inject [THEN iffD1]) (simp only: bytes_ToLower lower_trim_fix(2))

lemma valid_utf8_ToLower: "lower_table ul \<Longrightarrow> valid_utf8 (ToLower ul s)"
  unfolding ToLower_def
  using valid_runes [of "bytes s"] lower_rune_valid by (intro valid_utf8_encode) auto

text \<open>On ASCII strings \<open>ToLower\<close> works byte by byte.\<close>

lemma ToLower_ascii:
  "\<forall>b \<in> set (bytes s). b < 128 \<Longrightarrow> bytes (ToLower ul s) = map (lower_rune ul) (bytes s)"
  by (simp add: bytes_ToLower runes_ascii) (rule encode_runes_ascii, auto simp: lower_rune_def)

subsection \<open>ASCII strings, character by character\<close>

definition lower_char :: "char \<Rightarrow> char" where
  "lower_char c = (if 65 \<le> (of_char c :: nat) \<and> (of_char c :: nat) \<le> 90 then char_of (of_char c + 32 :: nat) else c)"

definition ascii :: "string \<Rightarrow> bool" where
  "ascii s \<longleftrightarrow> list_all (\<lambda>c. of_char c < (128 :: nat)) s"

lemma ascii_bytes: "ascii s \<longleftrightarrow> (\<forall>b \<in> set (bytes s). b < 128)"
  by (simp add: ascii_def bytes_def list_all_iff)

definition space_char :: "char \<Rightarrow> bool" where
  "space_char c \<longleftrightarrow> is_space (of_char c)"

lemma trim_left_ascii: "\<forall>b \<in> set bs. b < 128 \<Longrightarrow> trim_left bs = dropWhile is_space bs"
  by (induction bs) simp_all

lemma last_space_ascii:
  assumes "\<forall>b \<in> set bs. b < 128"
  shows "last_space bs = (if bs \<noteq> [] \<and> is_space (last bs) then Some 1 else None)"
proof -
  have dec: "decode_rune (drop k bs) = (bs ! k, 1)" if "k < length bs" for k
    using that assms by (simp add: Cons_nth_drop_Suc [symmetric])
  show ?thesis
  proof (cases "bs = []")
    case True
    then show ?thesis by (simp add: last_space_def)
  next
    case False
    then have "decode_rune (drop (length bs - n) bs) = (bs ! (length bs - n), 1)"
      if "n \<in> {1, 2, 3}" "n \<le> length bs" for n
      using that dec [of "length bs - n"] by auto
    from this [of 1] this [of 2] this [of 3] False show ?thesis
      by (auto simp: last_space_def last_conv_nth Suc_le_eq)
  qed
qed

lemma trim_right_ascii:
  "\<forall>b \<in> set bs. b < 128 \<Longrightarrow> trim_right bs = rev (dropWhile is_space (rev bs))"
proof (induction bs rule: rev_induct)
  case Nil
  then show ?case by (simp add: trim_right.simps last_space_ascii)
next
  case (snoc b bs)
  then have "last_space (bs @ [b]) = (if is_space b then Some 1 else None)"
    by (subst last_space_ascii) auto
  with snoc show ?case by (simp add: trim_right.simps [of "bs @ [b]"])
qed

lemma space_char_comp: "is_space \<circ> of_char = space_char"
  by (simp add: fun_eq_iff space_char_def)

lemma TrimSpace_ascii:
  assumes "ascii s"
  shows "TrimSpace s = rev (dropWhile space_char (rev (dropWhile space_char s)))"
proof -
  have a: "\<forall>b \<in> set (bytes s). b < 128" using assms by (simp add: ascii_bytes)
  then have "\<forall>b \<in> set (trim_left (bytes s)). b < 128"
    by (auto simp: trim_left_ascii dest: set_dropWhileD)
  with a have "trim_right (trim_left (bytes s)) =
      rev (dropWhile is_space (rev (dropWhile is_space (bytes s))))"
    by (simp only: trim_right_ascii trim_left_ascii)
  also have "\<dots> = bytes (rev (dropWhile space_char (rev (dropWhile space_char s))))"
    by (simp only: bytes_def dropWhile_map rev_map space_char_comp)
  finally show ?thesis by (simp add: TrimSpace_def)
qed

lemma ToLower_ascii_chars:
  assumes "ascii s"
  shows "ToLower ul s = map lower_char s"
proof -
  have "bytes (ToLower ul s) = map (lower_rune ul) (bytes s)"
    using assms by (simp add: ToLower_ascii ascii_bytes)
  also have "\<dots> = bytes (map lower_char s)"
    using assms by (auto simp: bytes_def lower_rune_def lower_char_def ascii_def list_all_iff)
  finally show ?thesis by (simp add: bytes_inject)
qed
text \<open>Facts that evaluate the text functions on a literal.\<close>

lemmas text_eval = TrimSpace_ascii ToLower_ascii_chars ascii_def space_char_def is_space_def lower_char_def char_of_def bit_Suc_0_iff

end
