(* ===== verification/SharedKernel.thy ===== *)
theory SharedKernel
  imports TextNormal
begin

text \<open>
  The shared kernel: \<open>internal/shared/domain\<close> (error kinds, the aggregate root's event
  buffer), and the conventions of \<open>internal/shared/application\<close> every context follows.

  A Go \<open>error\<close> is a value of \<open>gerr\<close>, a result \<open>(T, error)\<close> is a value of \<open>gerr + 'a\<close>, a lone
  \<open>error\<close> is a \<open>gerr option\<close> with \<open>None\<close> for nil. Code that can panic returns an
  \<open>outcome\<close>. Instants (\<open>time.Time\<close>) are integers, in nanoseconds from the zero time: only the
  instant is modelled, not the location or the monotonic reading, so \<open>.UTC()\<close> is the identity.
\<close>

type_synonym gotime = int

definition zero_time :: gotime where
  "zero_time = 0"

datatype 'a outcome = Return 'a | Panic string

subsection \<open>Errors\<close>

text \<open>Status codes of gRPC that the program names, and the remaining ones by number.\<close>

datatype grpc_code = NotFound | AlreadyExists | InvalidArgument | PermissionDenied | Internal | OtherCode nat

text \<open>
  Error values: the four sentinels, a \<open>ValidationError\<close>, an error made by \<open>errors.New\<close> or by
  a library (\<open>ErrorString\<close>), one wrapped by \<open>fmt.Errorf\<close> with \<open>%w\<close> at the end of the text
  (\<open>WrapError\<close>), the join of several (\<open>errors.Join\<close>) and a gRPC status.
\<close>

datatype gerr =
    ErrNotFound
  | ErrConflict
  | ErrValidation
  | ErrPermission
  | ValidationError string
  | ErrorString string
  | WrapError string gerr
  | JoinError "gerr list"
  | StatusError grpc_code string

type_synonym 'a result = "gerr + 'a"

definition Invalid :: "string \<Rightarrow> gerr" where
  "Invalid msg = ValidationError msg"

fun join_lines :: "string list \<Rightarrow> string" where
  "join_lines [] = []"
| "join_lines [s] = s"
| "join_lines (s # t # ss) = s @ CHR 0x0A # join_lines (t # ss)"

fun error_text :: "gerr \<Rightarrow> string" where
  "error_text ErrNotFound = ''domain: not found''"
| "error_text ErrConflict = ''domain: conflict''"
| "error_text ErrValidation = ''domain: validation failed''"
| "error_text ErrPermission = ''domain: permission denied''"
| "error_text (ValidationError msg) = ''domain: '' @ msg"
| "error_text (ErrorString msg) = msg"
| "error_text (WrapError msg e) = msg @ error_text e"
| "error_text (JoinError es) = join_lines (map error_text es)"
| "error_text (StatusError c msg) = msg"

text \<open>The \<open>Is\<close> method of an error value; only \<open>ValidationError\<close> has one.\<close>

definition ValidationError_Is :: "gerr \<Rightarrow> bool" where
  "ValidationError_Is target \<longleftrightarrow> target = ErrValidation"

text \<open>\<open>errors.Is\<close>: the value itself, its \<open>Is\<close> method, then what it wraps.\<close>

fun errors_Is :: "gerr \<Rightarrow> gerr \<Rightarrow> bool" where
  "errors_Is (ValidationError msg) t = (ValidationError msg = t \<or> ValidationError_Is t)"
| "errors_Is (WrapError msg e) t = (WrapError msg e = t \<or> errors_Is e t)"
| "errors_Is (JoinError es) t = (JoinError es = t \<or> list_ex (\<lambda>e. errors_Is e t) es)"
| "errors_Is e t = (e = t)"

text \<open>\<open>errors.Join\<close>: nil when every argument is nil.\<close>

definition errors_Join :: "gerr list \<Rightarrow> gerr option" where
  "errors_Join es = (if es = [] then None else Some (JoinError es))"

lemma errors_Join_None [simp]: "errors_Join es = None \<longleftrightarrow> es = []"
  by (simp add: errors_Join_def)

lemma errors_Is_refl [simp]: "errors_Is e e"
  by (cases e) simp_all

lemma Invalid_Is [simp]: "errors_Is (Invalid msg) t \<longleftrightarrow> t = Invalid msg \<or> t = ErrValidation"
  by (auto simp: Invalid_def ValidationError_Is_def)

subsection \<open>The aggregate root\<close>

text \<open>
  \<open>AggregateRoot\<close> is embedded by every aggregate: its record is extended by theirs, so its
  operations apply to them.
\<close>

record 'e AggregateRoot =
  root_events :: "'e list"

definition RecordEvent :: "'e \<Rightarrow> ('e, 'z) AggregateRoot_scheme \<Rightarrow> ('e, 'z) AggregateRoot_scheme" where
  "RecordEvent ev a = a\<lparr>root_events := root_events a @ [ev]\<rparr>"

definition PullEvents :: "('e, 'z) AggregateRoot_scheme \<Rightarrow> 'e list \<times> ('e, 'z) AggregateRoot_scheme" where
  "PullEvents a = (root_events a, a\<lparr>root_events := []\<rparr>)"

definition HasEvents :: "('e, 'z) AggregateRoot_scheme \<Rightarrow> bool" where
  "HasEvents a \<longleftrightarrow> 0 < length (root_events a)"

lemma PullEvents_drains: "\<not> HasEvents (snd (PullEvents a))"
  by (simp add: PullEvents_def HasEvents_def)

lemma PullEvents_RecordEvent: "fst (PullEvents (RecordEvent ev a)) = fst (PullEvents a) @ [ev]"
  by (simp add: PullEvents_def RecordEvent_def)

end
