(* ===== verification/Json.thy ===== *)
theory Json
  imports SharedKernel "HOL-Library.Monad_Syntax"
begin

text \<open>
  What the program uses of \<open>encoding/json\<close>: \<open>Marshal\<close> of a struct whose fields are strings, with
  the HTML-safe escaping of its encoder, and \<open>Unmarshal\<close> into such a struct, with the scan of the
  whole text, its nesting limit, the escapes, the replacement of what is not UTF-8 and the
  case-insensitive match of keys. It models the standard library, so nothing here maps to a
  file under src/. The texts of its error messages are abbreviated.

  Texts are lists of byte values here; \<open>bytes\<close> and \<open>of_bytes\<close> convert them from and to strings. The parser
  takes fuel, and the fuel it is started with, one more than twice the length of the text, is never used up:
  more fuel gives the same result.
\<close>

subsection \<open>Encoding\<close>

definition hex_digit :: "nat \<Rightarrow> nat" where
  "hex_digit n = (if n < 10 then 48 + n else 87 + n)"

text \<open>One rune of a string literal, with the number of bytes it was decoded from.\<close>

definition quote_rune :: "nat \<Rightarrow> nat \<Rightarrow> nat list" where
  "quote_rune r n =
    (if r < 128 then
       if r = 34 \<or> r = 92 then [92, r]
       else if r = 8 then [92, 98]
       else if r = 12 then [92, 102]
       else if r = 10 then [92, 110]
       else if r = 13 then [92, 114]
       else if r = 9 then [92, 116]
       else if r < 32 \<or> r = 60 \<or> r = 62 \<or> r = 38 then [92, 117, 48, 48, hex_digit (r div 16), hex_digit (r mod 16)]
       else [r]
     else if r = rune_error \<and> n = 1 then [92, 117, 102, 102, 102, 100]
     else if r = 0x2028 then [92, 117, 50, 48, 50, 56]
     else if r = 0x2029 then [92, 117, 50, 48, 50, 57]
     else encode_rune r)"

fun quote_bytes :: "nat list \<Rightarrow> nat list" where
  "quote_bytes [] = []"
| "quote_bytes (b # bs) =
    quote_rune (fst (decode_rune (b # bs))) (snd (decode_rune (b # bs))) @
    quote_bytes (drop (snd (decode_rune (b # bs)) - 1) bs)"

definition json_quote :: "string \<Rightarrow> nat list" where
  "json_quote s = 34 # quote_bytes (bytes s) @ [34]"

fun json_fields :: "(string \<times> string) list \<Rightarrow> nat list" where
  "json_fields [] = []"
| "json_fields [f] = json_quote (fst f) @ 58 # json_quote (snd f)"
| "json_fields (f # g # fs) = json_quote (fst f) @ 58 # json_quote (snd f) @ 44 # json_fields (g # fs)"

definition marshal_strings :: "(string \<times> string) list \<Rightarrow> string" where
  "marshal_strings fs = of_bytes (123 # json_fields fs @ [125])"

subsection \<open>Scanning\<close>

text \<open>A string keeps its literal, between the quotes, beside the runes it stands for.\<close>

datatype json =
    JNull
  | JBool bool
  | JNum "nat list"
  | JStr "nat list" "nat list"
  | JArr "json list"
  | JObj "(nat list \<times> json) list"

definition is_ws :: "nat \<Rightarrow> bool" where
  "is_ws b \<longleftrightarrow> b = 32 \<or> b = 9 \<or> b = 10 \<or> b = 13"

definition skip_ws :: "nat list \<Rightarrow> nat list" where
  "skip_ws bs = dropWhile is_ws bs"

definition expect :: "nat \<Rightarrow> nat list \<Rightarrow> nat list option" where
  "expect b s = (case s of [] \<Rightarrow> None | c # cs \<Rightarrow> if c = b then Some cs else None)"

definition hex_value :: "nat \<Rightarrow> nat option" where
  "hex_value b =
    (if 48 \<le> b \<and> b \<le> 57 then Some (b - 48)
     else if 97 \<le> b \<and> b \<le> 102 then Some (b - 87)
     else if 65 \<le> b \<and> b \<le> 70 then Some (b - 55)
     else None)"

definition hex4 :: "nat list \<Rightarrow> nat option" where
  "hex4 bs =
    (case bs of
      a # b # c # d # _ \<Rightarrow> do {
        a \<leftarrow> hex_value a; b \<leftarrow> hex_value b; c \<leftarrow> hex_value c; d \<leftarrow> hex_value d;
        Some (((a * 16 + b) * 16 + c) * 16 + d) }
    | _ \<Rightarrow> None)"

text \<open>The low half of a surrogate pair, when the text goes on with one.\<close>

definition low_surrogate :: "nat list \<Rightarrow> nat option" where
  "low_surrogate bs = do {
     s \<leftarrow> expect 92 bs; s \<leftarrow> expect 117 s; r \<leftarrow> hex4 s;
     if 0xDC00 \<le> r \<and> r \<le> 0xDFFF then Some r else None }"

text \<open>What follows a backslash: the rune it stands for and the bytes it takes.\<close>

definition escape :: "nat list \<Rightarrow> (nat \<times> nat) option" where
  "escape bs =
    (case bs of
      [] \<Rightarrow> None
    | d # ds \<Rightarrow>
        if d = 34 \<or> d = 92 \<or> d = 47 then Some (d, 1)
        else if d = 98 then Some (8, 1)
        else if d = 102 then Some (12, 1)
        else if d = 110 then Some (10, 1)
        else if d = 114 then Some (13, 1)
        else if d = 116 then Some (9, 1)
        else if d = 117 then
          (case hex4 ds of
            None \<Rightarrow> None
          | Some r \<Rightarrow>
              if valid_rune r then Some (r, 5)
              else if r \<le> 0xDBFF then
                (case low_surrogate (drop 4 ds) of
                  Some r2 \<Rightarrow> Some ((r - 0xD800) * 1024 + (r2 - 0xDC00) + 0x10000, 11)
                | None \<Rightarrow> Some (rune_error, 5))
              else Some (rune_error, 5))
        else None)"

text \<open>A string literal after its opening quote: its runes, and the text after the closing quote.\<close>

function (sequential) scan_string :: "nat list \<Rightarrow> (nat list \<times> nat list) option" where
  "scan_string [] = None"
| "scan_string (b # bs) =
    (if b = 34 then Some ([], bs)
     else if b = 92 then
       (case escape bs of
         None \<Rightarrow> None
       | Some rn \<Rightarrow> map_option (apfst (Cons (fst rn))) (scan_string (drop (snd rn) bs)))
     else if b < 32 then None
     else map_option (apfst (Cons (fst (decode_rune (b # bs)))))
            (scan_string (drop (snd (decode_rune (b # bs)) - 1) bs)))"
  by pat_completeness auto
termination
  by (relation "measure length") auto

subsection \<open>Values\<close>

definition is_dig :: "nat \<Rightarrow> bool" where
  "is_dig b \<longleftrightarrow> 48 \<le> b \<and> b \<le> 57"

definition scan_digits :: "nat list \<Rightarrow> (nat list \<times> nat list) option" where
  "scan_digits s = (if takeWhile is_dig s = [] then None else Some (takeWhile is_dig s, dropWhile is_dig s))"

definition scan_int :: "nat list \<Rightarrow> (nat list \<times> nat list) option" where
  "scan_int s = (case expect 48 s of Some t \<Rightarrow> Some ([48], t) | None \<Rightarrow> scan_digits s)"

definition scan_frac :: "nat list \<Rightarrow> (nat list \<times> nat list) option" where
  "scan_frac s =
    (case expect 46 s of None \<Rightarrow> Some ([], s) | Some t \<Rightarrow> map_option (apfst (Cons 46)) (scan_digits t))"

definition scan_exp :: "nat list \<Rightarrow> (nat list \<times> nat list) option" where
  "scan_exp s =
    (case s of
      e # t \<Rightarrow>
        if e = 101 \<or> e = 69 then
          (case t of
            g # u \<Rightarrow> if g = 43 \<or> g = 45 then map_option (apfst (\<lambda>ds. e # g # ds)) (scan_digits u)
                      else map_option (apfst (Cons e)) (scan_digits t)
          | [] \<Rightarrow> None)
        else Some ([], s)
    | [] \<Rightarrow> Some ([], s))"

definition scan_number :: "nat list \<Rightarrow> (nat list \<times> nat list) option" where
  "scan_number s = do {
     let (m, s0) = (case expect 45 s of Some t \<Rightarrow> ([45], t) | None \<Rightarrow> ([], s));
     (i, s1) \<leftarrow> scan_int s0; (f, s2) \<leftarrow> scan_frac s1; (e, s3) \<leftarrow> scan_exp s2;
     Some (m @ i @ f @ e, s3) }"

definition scan_word :: "string \<Rightarrow> json \<Rightarrow> nat list \<Rightarrow> (json \<times> nat list) option" where
  "scan_word w v s = (if take (length w) s = bytes w then Some (v, drop (length w) s) else None)"

definition string_value :: "nat list \<Rightarrow> nat list \<times> nat list \<Rightarrow> json" where
  "string_value bs rt = JStr (take (length bs - length (snd rt) - 1) bs) (fst rt)"

text \<open>
  The grammar of values. The second argument is how many more arrays and objects may be opened.
\<close>

fun parse_value :: "nat \<Rightarrow> nat \<Rightarrow> nat list \<Rightarrow> (json \<times> nat list) option"
  and parse_elems :: "nat \<Rightarrow> nat \<Rightarrow> nat list \<Rightarrow> (json list \<times> nat list) option"
  and parse_members :: "nat \<Rightarrow> nat \<Rightarrow> nat list \<Rightarrow> ((nat list \<times> json) list \<times> nat list) option" where
  "parse_value 0 d s = None"
| "parse_value (Suc f) d s =
    (case skip_ws s of
      [] \<Rightarrow> None
    | b # bs \<Rightarrow>
        if b = 34 then map_option (\<lambda>rt. (string_value bs rt, snd rt)) (scan_string bs)
        else if b = 123 then
          (if d = 0 then None
           else case expect 125 (skip_ws bs) of
                  Some t \<Rightarrow> Some (JObj [], t)
                | None \<Rightarrow> map_option (apfst JObj) (parse_members f (d - 1) bs))
        else if b = 91 then
          (if d = 0 then None
           else case expect 93 (skip_ws bs) of
                  Some t \<Rightarrow> Some (JArr [], t)
                | None \<Rightarrow> map_option (apfst JArr) (parse_elems f (d - 1) bs))
        else if b = 116 then scan_word ''true'' (JBool True) (b # bs)
        else if b = 102 then scan_word ''false'' (JBool False) (b # bs)
        else if b = 110 then scan_word ''null'' JNull (b # bs)
        else map_option (apfst JNum) (scan_number (b # bs)))"
| "parse_elems 0 d s = None"
| "parse_elems (Suc f) d s =
    (case parse_value f d s of
      None \<Rightarrow> None
    | Some (v, t) \<Rightarrow>
        (case expect 44 (skip_ws t) of
          Some u \<Rightarrow> map_option (apfst (Cons v)) (parse_elems f d u)
        | None \<Rightarrow> map_option (Pair [v]) (expect 93 (skip_ws t))))"
| "parse_members 0 d s = None"
| "parse_members (Suc f) d s =
    (case Option.bind (expect 34 (skip_ws s)) scan_string of
      None \<Rightarrow> None
    | Some (k, t) \<Rightarrow>
        (case expect 58 (skip_ws t) of
          None \<Rightarrow> None
        | Some u \<Rightarrow>
            (case parse_value f d u of
              None \<Rightarrow> None
            | Some (v, x) \<Rightarrow>
                (case expect 44 (skip_ws x) of
                  Some y \<Rightarrow> map_option (apfst (Cons (k, v))) (parse_members f d y)
                | None \<Rightarrow> map_option (Pair [(k, v)]) (expect 125 (skip_ws x))))))"

definition max_depth :: nat where
  "max_depth = 10000"

definition json_parse :: "nat list \<Rightarrow> json option" where
  "json_parse s =
    (case parse_value (Suc (2 * length s)) max_depth s of
      None \<Rightarrow> None
    | Some (v, t) \<Rightarrow> if skip_ws t = [] then Some v else None)"

definition json_Valid :: "string \<Rightarrow> bool" where
  "json_Valid s \<longleftrightarrow> json_parse (bytes s) \<noteq> None"

subsection \<open>Decoding into a struct of strings\<close>

text \<open>
  The fold under which a key matches a field name. It is exact for the runes that fold to ASCII,
  which is enough because the field names of the program are ASCII.
\<close>

definition fold_rune :: "nat \<Rightarrow> nat" where
  "fold_rune r = (if 97 \<le> r \<and> r \<le> 122 then r - 32 else if r = 0x17F then 83 else if r = 0x212A then 75 else r)"

definition field_for :: "string list \<Rightarrow> nat list \<Rightarrow> string option" where
  "field_for names k =
    (case List.find (\<lambda>n. bytes n = encode_runes k) names of
      Some n \<Rightarrow> Some n
    | None \<Rightarrow> List.find (\<lambda>n. map fold_rune (bytes n) = map fold_rune k) names)"

definition json_syntax_error :: gerr where
  "json_syntax_error = ErrorString ''json: syntax error''"

definition json_type_error :: gerr where
  "json_type_error = ErrorString ''json: cannot unmarshal value into Go struct field''"

text \<open>The first type error is kept and returned at the end; the other fields are still decoded.\<close>

fun decode_members :: "string list \<Rightarrow> (nat list \<times> json) list \<Rightarrow> (string \<Rightarrow> string) \<Rightarrow> gerr option \<Rightarrow> (string \<Rightarrow> string) \<times> gerr option" where
  "decode_members names [] v err = (v, err)"
| "decode_members names ((k, x) # ms) v err =
    (case field_for names k of
      None \<Rightarrow> decode_members names ms v err
    | Some n \<Rightarrow>
        (case x of
          JStr _ rs \<Rightarrow> decode_members names ms (v(n := of_bytes (encode_runes rs))) err
        | JNull \<Rightarrow> decode_members names ms v err
        | _ \<Rightarrow> decode_members names ms v (Some (case err of None \<Rightarrow> json_type_error | Some e \<Rightarrow> e))))"

definition unmarshal_strings :: "string list \<Rightarrow> string \<Rightarrow> (string \<Rightarrow> string) result" where
  "unmarshal_strings names s =
    (case json_parse (bytes s) of
      None \<Rightarrow> Inl json_syntax_error
    | Some JNull \<Rightarrow> Inr (\<lambda>_. [])
    | Some (JObj ms) \<Rightarrow>
        (case decode_members names ms (\<lambda>_. []) None of
          (v, None) \<Rightarrow> Inr v
        | (v, Some e) \<Rightarrow> Inl e)
    | Some _ \<Rightarrow> Inl json_type_error)"


subsection \<open>The fuel is enough\<close>

lemma length_skip_ws: "length (skip_ws s) \<le> length s"
  by (simp add: skip_ws_def length_dropWhile_le)

lemma skip_ws_Cons: "skip_ws s = b # bs \<Longrightarrow> length bs < length s"
  using length_skip_ws [of s] by simp

lemma expect_Some: "expect b s = Some t \<longleftrightarrow> s = b # t"
  by (auto simp: expect_def split: list.splits if_splits)

lemma expect_length: "expect b s = Some t \<Longrightarrow> length t < length s"
  by (simp add: expect_Some)

lemma expect_ws_length: "expect b (skip_ws s) = Some t \<Longrightarrow> length t < length s"
  using length_skip_ws [of s] by (simp add: expect_Some)

lemma scan_string_length: "scan_string s = Some (r, t) \<Longrightarrow> length t < length s"
proof (induction s arbitrary: r t rule: scan_string.induct)
  case (2 b bs)
  consider "b = 34" | "b = 92" "b \<noteq> 34" | "b \<noteq> 34" "b \<noteq> 92" "\<not> b < 32" using 2(3) by (auto split: if_splits)
  then show ?case
  proof cases
    case 1
    then show ?thesis using 2(3) by simp
  next
    case 2
    obtain a n where e: "escape bs = Some (a, n)" using 2 "2.prems" by (auto split: option.splits)
    show ?thesis
      using "2.prems" 2 e "2.IH"(1) [OF 2(2) 2(1) e] by (fastforce simp: less_Suc_eq)
  next
    case 3
    then show ?thesis
      using "2.prems" "2.IH"(2) [OF 3] by (fastforce simp: less_Suc_eq)
  qed
qed simp

lemma scan_digits_length: "scan_digits s = Some (r, t) \<Longrightarrow> length t < length s"
proof -
  assume a: "scan_digits s = Some (r, t)"
  then have "takeWhile is_dig s \<noteq> []" "t = dropWhile is_dig s" by (auto simp: scan_digits_def split: if_splits)
  moreover have "length s = length (takeWhile is_dig s) + length (dropWhile is_dig s)"
    by (metis length_append takeWhile_dropWhile_id)
  ultimately show ?thesis by simp
qed

lemma scan_int_length: "scan_int s = Some (r, t) \<Longrightarrow> length t < length s"
  by (auto simp: scan_int_def split: option.splits dest: scan_digits_length expect_length)

lemma scan_frac_length: "scan_frac s = Some (r, t) \<Longrightarrow> length t \<le> length s"
  by (auto simp: scan_frac_def split: option.splits dest!: scan_digits_length expect_length)

lemma scan_exp_length: "scan_exp s = Some (r, t) \<Longrightarrow> length t \<le> length s"
  by (auto simp: scan_exp_def split: list.splits if_splits dest!: scan_digits_length)

lemma scan_number_length: "scan_number s = Some (r, t) \<Longrightarrow> length t < length s"
  by (auto simp: scan_number_def bind_eq_Some_conv split: option.splits
      dest!: scan_int_length scan_frac_length scan_exp_length expect_length)

lemma scan_word_length: "scan_word w x s = Some (v, t) \<Longrightarrow> w \<noteq> [] \<Longrightarrow> length t < length s"
  by (cases s) (auto simp: scan_word_def bytes_def split: if_splits)

lemma parse_consumes:
  "parse_value f d s = Some (v, t) \<Longrightarrow> length t < length s"
  "parse_elems f d s = Some (vs, t) \<Longrightarrow> length t < length s"
  "parse_members f d s = Some (ms, t) \<Longrightarrow> length t < length s"
proof (induction f d s and f d s and f d s arbitrary: v t and vs t and ms t rule: parse_value_parse_elems_parse_members.induct)
  case (2 f d s)
  obtain b bs where s: "skip_ws s = b # bs" using 2(3) by (auto split: list.splits)
  have "length t < length (b # bs)"
    using 2(3) s
    by (auto split: if_splits option.splits simp del: length_Cons
        dest!: scan_string_length scan_word_length scan_number_length expect_ws_length)
       (use 2(1) [OF s] 2(2) [OF s] in force)+
  then show ?case using length_skip_ws [of s] s by simp
next
  case (4 f d s)
  then obtain v x where p: "parse_value f d s = Some (v, x)" by (auto split: option.splits)
  note 4(1) [OF p]
  moreover have "length t < length x"
    using 4(3) p length_skip_ws [of x] 4(2) [OF p refl]
    by (force split: option.splits simp: expect_Some)
  ultimately show ?case by simp
next
  case (6 f d s)
  obtain k x where k: "Option.bind (expect 34 (skip_ws s)) scan_string = Some (k, x)" using 6(3) by (auto split: option.splits)
  then have 1: "length x < length s" by (auto simp: bind_eq_Some_conv dest!: expect_ws_length scan_string_length)
  obtain u where u: "expect 58 (skip_ws x) = Some u" using 6(3) k by (auto split: option.splits)
  then have 2: "length u < length x" by (rule expect_ws_length)
  obtain v y where v: "parse_value f d u = Some (v, y)" using 6(3) k u by (auto split: option.splits)
  have 3: "length y < length u" using 6(1) [OF k refl u v] .
  have "length t < length y"
    using 6(3) k u v length_skip_ws [of y] 6(2) [OF k refl u v refl]
    by (force split: option.splits simp: expect_Some)
  with 1 2 3 show ?case by simp
qed simp_all


lemma parse_fuel_step:
  "2 * length s < f \<Longrightarrow> parse_value (Suc f) d s = parse_value f d s"
  "2 * length s + 1 < f \<Longrightarrow> parse_elems (Suc f) d s = parse_elems f d s"
  "2 * length s + 1 < f \<Longrightarrow> parse_members (Suc f) d s = parse_members f d s"
proof (induction f d s and f d s and f d s rule: parse_value_parse_elems_parse_members.induct)
  case (2 f d s)
  show ?case
  proof (cases "skip_ws s")
    case (Cons b bs)
    have "2 * length bs + 1 < f" using skip_ws_Cons [OF Cons] 2(3) by simp
    then show ?thesis
      using 2(1,2) [OF Cons] Cons
      by (simp only: parse_value.simps list.case) (auto split: option.split)
  qed simp
next
  case (4 f d s)
  have 1: "parse_value (Suc f) d s = parse_value f d s" using 4 by simp
  show ?case
  proof (cases "parse_value f d s")
    case (Some r)
    obtain v t where r: "r = (v, t)" by (cases r)
    have l: "length t < length s" using parse_consumes(1) Some r by blast
    show ?thesis
    proof (cases "expect 44 (skip_ws t)")
      case (Some u)
      have "2 * length u + 1 < f" using l expect_ws_length [OF Some] 4(3) by simp
      then show ?thesis using 4(2) \<open>parse_value f d s = Some r\<close> r Some 1
        by (simp only: parse_elems.simps option.case prod.case)
    next
      case None
      then show ?thesis using \<open>parse_value f d s = Some r\<close> r 1
        by (simp only: parse_elems.simps option.case prod.case)
    qed
  next
    case None
    then show ?thesis using 1 by (simp only: parse_elems.simps option.case)
  qed
next
  case (6 f d s)
  show ?case
  proof (cases "Option.bind (expect 34 (skip_ws s)) scan_string")
    case (Some kx)
    obtain k x where kx: "kx = (k, x)" by (cases kx)
    with Some have k: "Option.bind (expect 34 (skip_ws s)) scan_string = Some (k, x)" by simp
    then have l1: "length x < length s" by (auto simp: bind_eq_Some_conv dest!: expect_ws_length scan_string_length)
    show ?thesis
    proof (cases "expect 58 (skip_ws x)")
      case (Some u)
      note u = Some and l2 = expect_ws_length [OF Some]
      have 1: "parse_value (Suc f) d u = parse_value f d u" using 6(1) [OF k refl u] 6(3) l1 l2 by simp
      show ?thesis
      proof (cases "parse_value f d u")
        case (Some r)
        obtain v y where r: "r = (v, y)" by (cases r)
        with Some have v: "parse_value f d u = Some (v, y)" by simp
        note l3 = parse_consumes(1) [OF v]
        show ?thesis
        proof (cases "expect 44 (skip_ws y)")
          case (Some z)
          have "2 * length z + 1 < f" using l1 l2 l3 expect_ws_length [OF Some] 6(3) by simp
          then show ?thesis using 6(2) [OF k refl u v refl Some] k u v Some 1
            by (simp only: parse_members.simps option.case prod.case)
        next
          case None
          then show ?thesis using k u v 1 by (simp only: parse_members.simps option.case prod.case)
        qed
      next
        case None
        then show ?thesis using k u 1 by (simp only: parse_members.simps option.case prod.case)
      qed
    next
      case None
      then show ?thesis using k by (simp only: parse_members.simps option.case prod.case)
    qed
  next
    case None
    then show ?thesis by (simp only: parse_members.simps option.case)
  qed
qed simp_all

lemma parse_fuel_enough:
  assumes "2 * length s < f"
  shows "parse_value f d s = parse_value (Suc (2 * length s)) d s"
proof -
  have "parse_value (Suc (2 * length s) + k) d s = parse_value (Suc (2 * length s)) d s" for k
    by (induction k) (simp_all add: parse_fuel_step del: parse_value.simps)
  from this [of "f - Suc (2 * length s)"] assms show ?thesis by simp
qed


subsection \<open>What is written is read back\<close>

text \<open>The text of a string with every byte that is not UTF-8 replaced.\<close>

definition to_utf8 :: "string \<Rightarrow> string" where
  "to_utf8 s = of_bytes (encode_runes (runes (bytes s)))"

lemma to_utf8_valid [simp]: "valid_utf8 s \<Longrightarrow> to_utf8 s = s"
  by (simp add: to_utf8_def valid_utf8_def)

lemma hex_value_digit [simp]: "n < 16 \<Longrightarrow> hex_value (hex_digit n) = Some n"
  by (simp add: hex_value_def hex_digit_def)

lemma hex4_quoted: "r < 128 \<Longrightarrow> hex4 (48 # 48 # hex_digit (r div 16) # hex_digit (r mod 16) # t) = Some r"
proof -
  assume "r < 128"
  moreover have "hex_value 48 = Some 0" by (simp add: hex_value_def)
  moreover have "r div 16 * 16 + r mod 16 = r" by (rule div_mult_mod_eq)
  ultimately show ?thesis by (simp add: hex4_def)
qed

lemma scan_escaped: "escape (e @ t) = Some (r, length e) \<Longrightarrow> e \<noteq> [] \<Longrightarrow>
    scan_string (92 # e @ t) = map_option (apfst (Cons r)) (scan_string t)"
  by simp

lemma scan_plain: "r \<noteq> 34 \<Longrightarrow> r \<noteq> 92 \<Longrightarrow> 32 \<le> r \<Longrightarrow> r < 128 \<Longrightarrow>
    scan_string (r # t) = map_option (apfst (Cons r)) (scan_string t)"
  by simp

lemma encode_rune_high: "128 \<le> r \<Longrightarrow> \<forall>b \<in> set (encode_rune r). 128 \<le> b"
  by (auto simp: encode_rune_def Let_def rune_error_def)

lemma scan_encoded:
  assumes "valid_rune r" "128 \<le> r"
  shows "scan_string (encode_rune r @ t) = map_option (apfst (Cons r)) (scan_string t)"
proof -
  obtain b bs where b: "encode_rune r = b # bs" by (cases "encode_rune r") simp_all
  then have "128 \<le> b" using encode_rune_high [OF assms(2)] by simp
  moreover have "decode_rune (b # bs @ t) = (r, Suc (length bs))"
    using decode_encode_rune [OF assms(1), of t] by (simp add: b)
  ultimately show ?thesis by (simp add: b)
qed

lemma escape_u: "escape (117 # t) =
   (case hex4 t of None \<Rightarrow> None | Some r \<Rightarrow>
      if valid_rune r then Some (r, 5)
      else if r \<le> 0xDBFF then
        (case low_surrogate (drop 4 t) of Some r2 \<Rightarrow> Some ((r - 0xD800) * 1024 + (r2 - 0xDC00) + 0x10000, 11)
         | None \<Rightarrow> Some (rune_error, 5))
      else Some (rune_error, 5))"
  by (simp add: escape_def)

lemma scan_quote_rune:
  assumes "valid_rune r" "n = 1 \<and> r = rune_error \<or> r < 128 \<or> n = length (encode_rune r)"
  shows "scan_string (quote_rune r n @ t) = map_option (apfst (Cons r)) (scan_string t)"
proof (cases "r < 128")
  case True
  show ?thesis
  proof (cases "r \<noteq> 34 \<and> r \<noteq> 92 \<and> 32 \<le> r \<and> r \<noteq> 60 \<and> r \<noteq> 62 \<and> r \<noteq> 38")
    case True
    then have "quote_rune r n = [r]" using \<open>r < 128\<close> by (simp add: quote_rune_def)
    then show ?thesis using True \<open>r < 128\<close> by (simp add: scan_plain del: scan_string.simps)
  next
    case False
    obtain e where e: "quote_rune r n = 92 # e" "e \<noteq> []" "escape (e @ t) = Some (r, length e)"
    proof (cases "r \<in> {34, 92, 8, 12, 10, 13, 9}")
      case True
      then show thesis using that by (auto simp: quote_rune_def escape_def)
    next
      case f2: False
      then have "quote_rune r n = 92 # [117, 48, 48, hex_digit (r div 16), hex_digit (r mod 16)]"
        using False \<open>r < 128\<close> by (auto simp: quote_rune_def)
      moreover have "escape ([117, 48, 48, hex_digit (r div 16), hex_digit (r mod 16)] @ t) = Some (r, 5)"
        using hex4_quoted [OF \<open>r < 128\<close>, of t] \<open>r < 128\<close> by (simp add: escape_u)
      ultimately show thesis using that by simp
    qed
    then show ?thesis using scan_escaped [OF e(3) e(2)] by simp
  qed
next
  case False
  show ?thesis
  proof (cases "quote_rune r n = encode_rune r")
    case True
    then show ?thesis using scan_encoded assms(1) False by (simp del: scan_string.simps)
  next
    case q: False
    obtain e where "quote_rune r n = 92 # e" "e \<noteq> []" "escape (e @ t) = Some (r, length e)"
    proof (cases "r = rune_error \<and> n = 1")
      case True
      then show thesis
        using that [of "[117, 102, 102, 102, 100]"] \<open>\<not> r < 128\<close>
        by (simp add: quote_rune_def escape_u hex4_def hex_value_def rune_error_def valid_rune_def)
    next
      case False
      with q \<open>\<not> r < 128\<close> have "r = 0x2028 \<or> r = 0x2029" by (auto simp: quote_rune_def split: if_splits)
      then show thesis
        using that [of "[117, 50, 48, 50, 56]"] that [of "[117, 50, 48, 50, 57]"]
        by (auto simp: quote_rune_def escape_u hex4_def hex_value_def rune_error_def valid_rune_def)
    qed
    then show ?thesis using scan_escaped by simp
  qed
qed

lemma scan_quote_bytes: "scan_string (quote_bytes bs @ 34 # t) = Some (runes bs, t)"
proof (induction bs rule: quote_bytes.induct)
  case (2 b bs)
  let ?r = "fst (decode_rune (b # bs))" and ?n = "snd (decode_rune (b # bs))"
  have "valid_rune ?r \<and> (?n = 1 \<and> ?r = rune_error \<or> ?r < 128 \<or> ?n = length (encode_rune ?r))"
    by (rule decode_rune_cases [of "b # bs"]) simp_all
  then show ?case using scan_quote_rune [of ?r ?n] 2 by (simp del: scan_string.simps)
qed simp


lemma skip_ws_stop [simp]: "\<not> is_ws b \<Longrightarrow> skip_ws (b # bs) = b # bs"
  by (simp add: skip_ws_def)

lemma not_ws [simp]: "\<not> is_ws 34" "\<not> is_ws 123" "\<not> is_ws 125" "\<not> is_ws 44" "\<not> is_ws 58"
  by (simp_all add: is_ws_def)

lemma expect_eval [simp]: "expect b (c # cs) = (if c = b then Some cs else None)"
  by (simp add: expect_def)

lemma parse_quoted: "parse_value (Suc f) d (json_quote x @ t) = Some (JStr (quote_bytes (bytes x)) (runes (bytes x)), t)"
  by (simp add: json_quote_def scan_quote_bytes string_value_def)

lemma json_quote_front: "\<exists>u. json_quote x @ t = 34 # u \<and> scan_string u = Some (runes (bytes x), t)"
  by (simp add: json_quote_def scan_quote_bytes)

definition member_of :: "string \<times> string \<Rightarrow> nat list \<times> json" where
  "member_of p = (runes (bytes (fst p)), JStr (quote_bytes (bytes (snd p))) (runes (bytes (snd p))))"

lemma parse_member:
  "parse_members (Suc (Suc f)) d (json_quote k @ 58 # json_quote x @ 44 # t) =
    map_option (apfst (Cons (member_of (k, x)))) (parse_members (Suc f) d t)" (is ?more)
  and parse_last_member:
  "parse_members (Suc (Suc f)) d (json_quote k @ 58 # json_quote x @ 125 # t) =
    Some ([member_of (k, x)], t)" (is ?last)
proof -
  obtain u where u: "json_quote k @ 58 # json_quote x @ 44 # t = 34 # u"
    "scan_string u = Some (runes (bytes k), 58 # json_quote x @ 44 # t)"
    using json_quote_front by metis
  show ?more
    unfolding u(1)
    by (subst parse_members.simps(2))
       (simp add: u(2) parse_quoted member_of_def del: parse_value.simps parse_members.simps scan_string.simps)
  obtain v where v: "json_quote k @ 58 # json_quote x @ 125 # t = 34 # v"
    "scan_string v = Some (runes (bytes k), 58 # json_quote x @ 125 # t)"
    using json_quote_front by metis
  show ?last
    unfolding v(1)
    by (subst parse_members.simps(2))
       (simp add: v(2) parse_quoted member_of_def del: parse_value.simps parse_members.simps scan_string.simps)
qed

lemma less_two_Suc: "n < f \<Longrightarrow> 1 \<le> n \<Longrightarrow> \<exists>g. f = Suc (Suc g)"
  by presburger

lemma parse_json_fields:
  "fs \<noteq> [] \<Longrightarrow> length fs < f \<Longrightarrow>
    parse_members f d (json_fields fs @ 125 # t) = Some (map member_of fs, t)"
proof (induction fs arbitrary: f rule: json_fields.induct)
  case (2 p)
  obtain g where g: "f = Suc (Suc g)" using less_two_Suc [OF 2(2)] by auto
  show ?case
    using parse_last_member [of g d "fst p" "snd p" t]
    by (simp only: g json_fields.simps append_assoc append_Cons list.map prod.collapse)
next
  case (3 p q fs)
  obtain g where g: "f = Suc (Suc g)" using less_two_Suc [OF 3(3)] by auto
  have "length (q # fs) < Suc g" using 3(3) g by simp
  then have "parse_members (Suc g) d (json_fields (q # fs) @ 125 # t) = Some (map member_of (q # fs), t)"
    using 3(1) by blast
  then show ?case
    using parse_member [of g d "fst p" "snd p" "json_fields (q # fs) @ 125 # t"]
    by (simp only: g json_fields.simps(3) append_assoc append_Cons list.map prod.collapse option.map apfst_conv)
qed simp

lemma length_json_fields: "2 * length fs \<le> length (json_fields fs) + 1"
  by (induction fs rule: json_fields.induct) (simp_all add: json_quote_def)

lemma json_fields_front: "fs \<noteq> [] \<Longrightarrow> \<exists>u. json_fields fs @ t = 34 # u"
  by (induction fs rule: json_fields.induct) (simp_all add: json_quote_def)

lemma json_parse_marshal:
  "fs \<noteq> [] \<Longrightarrow> json_parse (123 # json_fields fs @ [125]) = Some (JObj (map member_of fs))"
proof -
  assume fs: "fs \<noteq> []"
  let ?s = "123 # json_fields fs @ [125]"
  have "length fs < 2 * length ?s" using length_json_fields [of fs] by simp
  then have m: "parse_members (2 * length ?s) d (json_fields fs @ [125]) = Some (map member_of fs, [])" for d
    using parse_json_fields [OF fs, of _ d "[]"] by blast
  obtain u where u: "json_fields fs @ [125] = 34 # u" using json_fields_front [OF fs] by blast
  have "parse_value (Suc (2 * length ?s)) max_depth ?s = Some (JObj (map member_of fs), [])"
    using m [of "max_depth - 1"] u by (simp add: max_depth_def)
  then show ?thesis by (simp add: json_parse_def skip_ws_def del: parse_value.simps)
qed

lemma json_fields_bound: "\<forall>b \<in> set (json_fields fs). b < 256"
proof -
  have q: "\<forall>b \<in> set (quote_rune r n). b < 256" for r n
    by (auto simp: quote_rune_def hex_digit_def rune_error_def dest!: encode_rune_bound)
  have "\<forall>b \<in> set (quote_bytes bs). b < 256" for bs
    by (induction bs rule: quote_bytes.induct) (use q in auto)
  then have "b \<in> set (quote_bytes bs) \<Longrightarrow> b < 256" for b bs by blast
  then show ?thesis
    by (induction fs rule: json_fields.induct) (auto simp: json_quote_def)
qed

lemma bytes_marshal: "bytes (marshal_strings fs) = 123 # json_fields fs @ [125]"
  using json_fields_bound [of fs] by (simp add: marshal_strings_def bytes_of_bytes)

lemma find_own_field:
  assumes "n \<in> set names" "\<forall>m \<in> set names. valid_utf8 m"
  shows "field_for names (runes (bytes n)) = Some n"
proof -
  have "List.find (\<lambda>m. bytes m = encode_runes (runes (bytes n))) names = List.find (\<lambda>m. m = n) names"
    using assms by (intro find_cong refl) (simp add: valid_utf8_def bytes_inject)
  moreover have "List.find (\<lambda>m. m = n) names = Some n"
    using assms(1) by (induction names) auto
  ultimately show ?thesis by (simp add: field_for_def)
qed

lemma decode_own_members:
  assumes "\<forall>m \<in> set names. valid_utf8 m" "fst ` set fs \<subseteq> set names"
  shows "decode_members names (map member_of fs) v None = (fold (\<lambda>p v. v(fst p := to_utf8 (snd p))) fs v, None)"
  using assms(2)
proof (induction fs arbitrary: v)
  case (Cons p fs)
  then show ?case using find_own_field [OF _ assms(1), of "fst p"]
    by (simp add: member_of_def to_utf8_def fun_upd_def)
qed simp

text \<open>Reading back what was written, whatever the bytes of the values.\<close>

lemma unmarshal_marshal:
  assumes "fs \<noteq> []" "fst ` set fs \<subseteq> set names" "\<forall>m \<in> set names. valid_utf8 m"
  shows "unmarshal_strings names (marshal_strings fs) = Inr (fold (\<lambda>p v. v(fst p := to_utf8 (snd p))) fs (\<lambda>_. []))"
  using assms by (simp add: unmarshal_strings_def bytes_marshal json_parse_marshal decode_own_members)


text \<open>A reader that declares fewer fields ignores the others.\<close>

lemma decode_some_members:
  assumes "\<forall>m \<in> set names. valid_utf8 m"
    and "\<forall>p \<in> set fs. fst p \<in> set names \<or> field_for names (runes (bytes (fst p))) = None"
  shows "decode_members names (map member_of fs) v None =
    (fold (\<lambda>p v. if fst p \<in> set names then v(fst p := to_utf8 (snd p)) else v) fs v, None)"
  using assms(2)
proof (induction fs arbitrary: v)
  case (Cons p fs)
  show ?case
  proof (cases "fst p \<in> set names")
    case True
    then show ?thesis using Cons find_own_field [OF True assms(1)]
      by (simp add: member_of_def to_utf8_def fun_upd_def)
  next
    case False
    then show ?thesis using Cons by (simp add: member_of_def)
  qed
qed simp

lemma unmarshal_some:
  assumes "fs \<noteq> []" "\<forall>m \<in> set names. valid_utf8 m"
    and "\<forall>p \<in> set fs. fst p \<in> set names \<or> field_for names (runes (bytes (fst p))) = None"
  shows "unmarshal_strings names (marshal_strings fs) =
    Inr (fold (\<lambda>p v. if fst p \<in> set names then v(fst p := to_utf8 (snd p)) else v) fs (\<lambda>_. []))"
  using assms by (simp add: unmarshal_strings_def bytes_marshal json_parse_marshal decode_some_members)

end
