(* ===== verification/GoTime.thy ===== *)
theory GoTime
  imports SharedKernel "HOL-Library.Monad_Syntax"
begin

text \<open>
  What the program uses of the package \<open>time\<close>: the proleptic Gregorian calendar, \<open>Format\<close> and \<open>Parse\<close>
  with the layout \<open>RFC3339Nano\<close>, and durations. A time is the number of nanoseconds since the zero time,
  1 January of year 1, in UTC. It models the standard library, so nothing here maps to a file under src/.
\<close>

subsection \<open>Durations\<close>

definition Nanosecond :: int where "Nanosecond = 1"
definition Microsecond :: int where "Microsecond = 1000"
definition Millisecond :: int where "Millisecond = 1000000"
definition Second :: int where "Second = 1000000000"
definition Minute :: int where "Minute = 60000000000"
definition Hour :: int where "Hour = 3600000000000"

lemmas duration_defs = Nanosecond_def Microsecond_def Millisecond_def Second_def Minute_def Hour_def

subsection \<open>The calendar\<close>

definition is_leap :: "int \<Rightarrow> bool" where
  "is_leap y \<longleftrightarrow> y mod 4 = 0 \<and> (y mod 100 \<noteq> 0 \<or> y mod 400 = 0)"

definition month_lengths :: "bool \<Rightarrow> int list" where
  "month_lengths leap = [31, if leap then 29 else 28, 31, 30, 31, 30, 31, 31, 30, 31, 30, 31]"

text \<open>The month, from 1, and the day of the month, from 0, of a day of the year, from 0.\<close>

fun split_month :: "int list \<Rightarrow> int \<Rightarrow> int \<Rightarrow> int \<times> int" where
  "split_month [] m d = (m, d)"
| "split_month (l # ls) m d = (if d < l then (m, d) else split_month ls (m + 1) (d - l))"

definition days_before :: "bool \<Rightarrow> int \<Rightarrow> int" where
  "days_before leap m = sum_list (take (nat (m - 1)) (month_lengths leap))"

text \<open>The year and the day of the year, from 0, of a day counted from 1 January of year 1.\<close>

definition year_day :: "int \<Rightarrow> int \<times> int" where
  "year_day n =
    (let c = n div 146097; r = n mod 146097;
         q = min 3 (r div 36524); r1 = r - q * 36524;
         p = r1 div 1461; r2 = r1 mod 1461;
         a = min 3 (r2 div 365)
     in (400 * c + 100 * q + 4 * p + a + 1, r2 - a * 365))"

definition days_to_year :: "int \<Rightarrow> int" where
  "days_to_year y = (y - 1) * 365 + (y - 1) div 4 - (y - 1) div 100 + (y - 1) div 400"

definition civil :: "int \<Rightarrow> int \<times> int \<times> int" where
  "civil n =
    (let (y, d) = year_day n; (m, k) = split_month (month_lengths (is_leap y)) 1 d in (y, m, k + 1))"

definition day_number :: "int \<Rightarrow> int \<Rightarrow> int \<Rightarrow> int" where
  "day_number y m d = days_to_year y + days_before (is_leap y) m + d - 1"

definition days_in :: "int \<Rightarrow> int \<Rightarrow> int" where
  "days_in y m = month_lengths (is_leap y) ! nat (m - 1)"

lemma min3_div: 
  fixes r k :: int
  assumes "0 \<le> r" "0 < k"
  shows "0 \<le> min 3 (r div k)" "min 3 (r div k) \<le> 3" "min 3 (r div k) * k \<le> r"
    "min 3 (r div k) < 3 \<Longrightarrow> r - min 3 (r div k) * k < k"
proof -
  have d: "r div k * k + r mod k = r" "0 \<le> r mod k" "r mod k < k" using assms by simp_all
  have "0 \<le> r div k" using assms by (simp add: pos_imp_zdiv_nonneg_iff)
  then show "0 \<le> min 3 (r div k)" "min 3 (r div k) \<le> 3" by simp_all
  have "min 3 (r div k) * k \<le> r div k * k" using assms(2) by (intro mult_right_mono) simp_all
  then show "min 3 (r div k) * k \<le> r" using d by linarith
  show "r - min 3 (r div k) * k < k" if "min 3 (r div k) < 3"
  proof -
    have "min 3 (r div k) = r div k" using that by simp
    moreover have "r - r div k * k < k" using d by linarith
    ultimately show ?thesis by (simp only:)
  qed
qed

lemma year_day_spec:
  assumes "year_day n = (y, d)"
  shows "days_to_year y + d = n" "0 \<le> d" "d < (if is_leap y then 366 else 365)"
proof -
  define c r where cr: "c = n div 146097" "r = n mod 146097"
  define q where q: "q = min 3 (r div 36524)"
  define p r2 where p: "p = (r - q * 36524) div 1461" "r2 = (r - q * 36524) mod 1461"
  define a where a: "a = min 3 (r2 div 365)"
  have yd: "y = 400 * c + 100 * q + 4 * p + a + 1" "d = r2 - a * 365"
    using assms unfolding year_day_def Let_def cr q p a prod.inject by (rule conjunct1 [THEN sym], rule conjunct2 [THEN sym])
  have n: "n = 146097 * c + r" "0 \<le> r" "r < 146097" by (simp_all add: cr)
  note Q = min3_div [OF n(2), of 36524, folded q, simplified]
  have r: "r - q * 36524 = 1461 * p + r2" "0 \<le> r2" "r2 < 1461" by (simp_all add: p)
  note A = min3_div [OF r(2), of 365, folded a, simplified]
  have R: "0 \<le> r - q * 36524" "r - q * 36524 \<le> 36524" "q < 3 \<longrightarrow> r - q * 36524 < 36524" using Q n by linarith+
  have P: "0 \<le> p" "p \<le> 24" using R by (simp_all add: p)
  have y1: "y - 1 = 400 * c + 100 * q + 4 * p + a" using yd by simp
  have "y - 1 = (100 * c + 25 * q + p) * 4 + a" using y1 by simp
  then have d4: "(y - 1) div 4 = 100 * c + 25 * q + p" using A(1,2) by (simp add: div_pos_pos_trivial)
  have "y - 1 = (4 * c + q) * 100 + (4 * p + a)" using y1 by simp
  then have d100: "(y - 1) div 100 = 4 * c + q" using A(1,2) P by (simp add: div_pos_pos_trivial)
  have "y - 1 = c * 400 + (100 * q + 4 * p + a)" using y1 by simp
  then have d400: "(y - 1) div 400 = c" using A(1,2) P Q(1,2) by (simp add: div_pos_pos_trivial)
  show "days_to_year y + d = n"
    unfolding days_to_year_def d4 d100 d400 using yd n r y1 by simp
  show "0 \<le> d" using A yd by simp
  have leap: "is_leap y" if "a = 3" "p < 24 \<or> q = 3"
  proof -
    have "y = (100 * c + 25 * q + p + 1) * 4" using that yd by simp
    then have "y mod 4 = 0" by simp
    moreover have "y mod 100 \<noteq> 0" if "p < 24"
    proof -
      have y: "y = (4 * c + q) * 100 + (4 * p + 4)" using \<open>a = 3\<close> yd by simp
      have "y mod 100 = (4 * p + 4) mod 100" unfolding y by (rule mod_mult_self3)
      then have "y mod 100 = 4 * p + 4" using that P by (simp add: mod_pos_pos_trivial)
      then show ?thesis using P by simp
    qed
    moreover have "y mod 400 = 0" if "p = 24" "q = 3"
    proof -
      have "y = (c + 1) * 400" using that yd \<open>a = 3\<close> by simp
      then show ?thesis by simp
    qed
    ultimately show ?thesis using that P unfolding is_leap_def by force
  qed
  show "d < (if is_leap y then 366 else 365)"
  proof (cases "a = 3")
    case False
    then have "d < 365" using A yd by simp
    then show ?thesis by simp
  next
    case True
    show ?thesis
    proof (cases "p < 24 \<or> q = 3")
      case True
      then show ?thesis using leap [OF \<open>a = 3\<close>] yd r \<open>a = 3\<close> by simp
    next
      case False
      then have "p = 24" "q < 3" using P Q by simp_all
      then have "1461 * 24 + r2 < 36524" using R r by simp
      then show ?thesis using yd \<open>a = 3\<close> by simp
    qed
  qed
qed

lemma split_month_spec:
  "split_month ls m d = (m', k) \<Longrightarrow> 0 \<le> d \<Longrightarrow> d < sum_list ls \<Longrightarrow>
    m \<le> m' \<and> nat (m' - m) < length ls \<and> 0 \<le> k \<and> k < ls ! nat (m' - m) \<and> sum_list (take (nat (m' - m)) ls) + k = d"
proof (induction ls arbitrary: m d)
  case (Cons l ls)
  show ?case
  proof (cases "d < l")
    case False
    then have IH: "m + 1 \<le> m' \<and> nat (m' - (m + 1)) < length ls \<and> 0 \<le> k \<and> k < ls ! nat (m' - (m + 1)) \<and>
        sum_list (take (nat (m' - (m + 1))) ls) + k = d - l"
      using Cons by simp
    moreover from this have "nat (m' - m) = Suc (nat (m' - (m + 1)))" by linarith
    ultimately show ?thesis by simp
  qed (use Cons in simp)
qed simp

lemma civil_spec:
  assumes "civil n = (y, m, d)"
  shows "day_number y m d = n" "1 \<le> m" "m \<le> 12" "1 \<le> d" "d \<le> days_in y m"
proof -
  obtain yd where yd: "year_day n = (y, yd)"
    using assms by (simp add: civil_def split: prod.splits)
  then have k: "split_month (month_lengths (is_leap y)) 1 yd = (m, d - 1)"
    using assms by (auto simp: civil_def split: prod.splits)
  note S = year_day_spec [OF yd]
  have "yd < sum_list (month_lengths (is_leap y))" using S by (cases "is_leap y") (simp_all add: month_lengths_def)
  note M = split_month_spec [OF k S(2) this]
  have "nat (m - 1) < 12" using M by (simp add: month_lengths_def)
  then show "m \<le> 12" by linarith
  show "1 \<le> m" "1 \<le> d" "d \<le> days_in y m" using M by (simp_all add: days_in_def)
  show "day_number y m d = n" using M S(1) by (simp add: day_number_def days_before_def)
qed

lemma days_in_31: "1 \<le> m \<Longrightarrow> m \<le> 12 \<Longrightarrow> days_in y m \<le> 31"
proof -
  assume "1 \<le> m" "m \<le> 12"
  then have "nat (m - 1) < 12" by linarith
  moreover have "\<forall>l \<in> set (month_lengths b). l \<le> 31" for b by (simp add: month_lengths_def)
  moreover have "length (month_lengths b) = 12" for b by (simp add: month_lengths_def)
  ultimately show ?thesis unfolding days_in_def by (metis nth_mem)
qed


subsection \<open>Formatting\<close>

text \<open>A number with leading zeros to a width, and the fraction of a second without its trailing zeros.\<close>

definition pad :: "nat \<Rightarrow> nat \<Rightarrow> string" where
  "pad w n = replicate (w - length (nat_digits n)) CHR ''0'' @ nat_digits n"

definition strip_zeros :: "string \<Rightarrow> string" where
  "strip_zeros s = rev (dropWhile (\<lambda>c. c = CHR ''0'') (rev s))"

definition format_year :: "int \<Rightarrow> string" where
  "format_year y = (if y < 0 then CHR ''-'' # pad 4 (nat (- y)) else pad 4 (nat y))"

definition Format_RFC3339Nano :: "gotime \<Rightarrow> string" where
  "Format_RFC3339Nano t =
    (let s = t div Second; ns = t mod Second;
         (y, m, d) = civil (s div 86400);
         tod = s mod 86400;
         frac = strip_zeros (pad 9 (nat ns))
     in format_year y @ ''-'' @ pad 2 (nat m) @ ''-'' @ pad 2 (nat d) @ ''T'' @
        pad 2 (nat (tod div 3600)) @ '':'' @ pad 2 (nat (tod div 60 mod 60)) @ '':'' @ pad 2 (nat (tod mod 60)) @
        (if frac = [] then [] else CHR ''.'' # frac) @ ''Z'')"

subsection \<open>Parsing\<close>

type_synonym 'a scanner = "string \<Rightarrow> ('a \<times> string) option"

definition scan_fixed :: "nat \<Rightarrow> int scanner" where
  "scan_fixed n s =
    (if n \<le> length s \<and> list_all is_digit (take n s) then Some (int (digits_val (take n s)), drop n s) else None)"

text \<open>The hour may have one digit.\<close>

definition scan_hour :: "int scanner" where
  "scan_hour s =
    (case scan_fixed 2 s of
      Some r \<Rightarrow> Some r
    | None \<Rightarrow> scan_fixed 1 s)"

definition lit :: "char \<Rightarrow> string \<Rightarrow> string option" where
  "lit c s = (case s of [] \<Rightarrow> None | d # ds \<Rightarrow> if d = c then Some ds else None)"

text \<open>The optional fraction; digits after the ninth are dropped.\<close>

definition scan_fraction :: "int scanner" where
  "scan_fraction s =
    (case s of
      c # d # _ \<Rightarrow>
        if (c = CHR ''.'' \<or> c = CHR '','') \<and> is_digit d
        then let ds = takeWhile is_digit (tl s); ns = take 9 ds
             in Some (int (digits_val ns) * 10 ^ (9 - length ns), dropWhile is_digit (tl s))
        else Some (0, s)
    | _ \<Rightarrow> Some (0, s))"

text \<open>The offset from UTC in seconds. Its ranges are inclusive, as \<open>time.Parse\<close> has them.\<close>

definition scan_zone :: "int scanner" where
  "scan_zone s =
    (case s of
      [] \<Rightarrow> None
    | c # cs \<Rightarrow>
        if c = CHR ''Z'' then Some (0, cs)
        else if c = CHR ''+'' \<or> c = CHR ''-'' then do {
          (hr, s1) \<leftarrow> scan_fixed 2 cs; s2 \<leftarrow> lit CHR '':'' s1; (mm, s3) \<leftarrow> scan_fixed 2 s2;
          if hr \<le> 24 \<and> mm \<le> 60 then Some ((if c = CHR ''+'' then 1 else - 1) * (hr * 60 + mm) * 60, s3) else None }
        else None)"

definition Parse_RFC3339Nano :: "string \<Rightarrow> gotime option" where
  "Parse_RFC3339Nano s = do {
     (y, s) \<leftarrow> scan_fixed 4 s; s \<leftarrow> lit CHR ''-'' s;
     (m, s) \<leftarrow> scan_fixed 2 s; s \<leftarrow> lit CHR ''-'' s;
     (d, s) \<leftarrow> scan_fixed 2 s; s \<leftarrow> lit CHR ''T'' s;
     (hh, s) \<leftarrow> scan_hour s; s \<leftarrow> lit CHR '':'' s;
     (mi, s) \<leftarrow> scan_fixed 2 s; s \<leftarrow> lit CHR '':'' s;
     (se, s) \<leftarrow> scan_fixed 2 s;
     (ns, s) \<leftarrow> scan_fraction s;
     (off, s) \<leftarrow> scan_zone s;
     if s = [] \<and> 1 \<le> m \<and> m \<le> 12 \<and> 1 \<le> d \<and> d \<le> days_in y m \<and> hh < 24 \<and> mi < 60 \<and> se < 60
     then Some ((day_number y m d * 86400 + hh * 3600 + mi * 60 + se - off) * Second + ns)
     else None }"

subsection \<open>Reading back what was written\<close>

lemma digits_val_zeros: "digits_val (replicate k CHR ''0'' @ s) = digits_val s"
proof -
  have "foldl (\<lambda>n c. n * 10 + digit_val c) 0 (replicate k CHR ''0'') = 0"
    by (induction k) (simp_all add: digit_val_def)
  then show ?thesis by (simp add: digits_val_def)
qed

lemma is_digit_zero [simp]: "is_digit CHR ''0''"
  by (simp add: is_digit_def)

lemma length_nat_digits: "n < 10 ^ w \<Longrightarrow> 0 < w \<Longrightarrow> length (nat_digits n) \<le> w"
proof (induction w arbitrary: n)
  case (Suc w)
  show ?case
  proof (cases "n < 10")
    case True
    then show ?thesis by (simp add: nat_digits.simps [of n])
  next
    case False
    then have "w \<noteq> 0" using Suc.prems by (cases w) simp_all
    moreover have "n div 10 < 10 ^ w" using Suc.prems by simp
    ultimately have "length (nat_digits (n div 10)) \<le> w" using Suc.IH by simp
    then show ?thesis using False by (simp add: nat_digits.simps [of n])
  qed
qed simp

lemma pad_spec: "n < 10 ^ w \<Longrightarrow> 0 < w \<Longrightarrow> length (pad w n) = w \<and> list_all is_digit (pad w n) \<and> digits_val (pad w n) = n"
  using length_nat_digits [of n w] nat_digits_val [of n]
  by (simp add: pad_def digits_val_zeros list_all_append) (simp add: list_all_iff)

lemma scan_pad: "n < 10 ^ w \<Longrightarrow> 0 < w \<Longrightarrow> scan_fixed w (pad w n @ s) = Some (int n, s)"
  using pad_spec [of n w] by (simp add: scan_fixed_def)

lemma scan_hour_pad: "n < 100 \<Longrightarrow> scan_hour (pad 2 n @ s) = Some (int n, s)"
  using scan_pad [of n 2 s] by (simp add: scan_hour_def)

lemma lit_Cons [simp]: "lit c (d # s) = (if d = c then Some s else None)"
  by (simp add: lit_def)

lemma strip_zeros_spec: "\<exists>k. s = strip_zeros s @ replicate k CHR ''0''"
proof -
  have "rev s = takeWhile (\<lambda>c. c = CHR ''0'') (rev s) @ dropWhile (\<lambda>c. c = CHR ''0'') (rev s)" by simp
  moreover have "takeWhile (\<lambda>c. c = CHR ''0'') (rev s) = replicate (length (takeWhile (\<lambda>c. c = CHR ''0'') (rev s))) CHR ''0''"
    by (rule replicate_length_same [symmetric]) (auto dest: set_takeWhileD)
  ultimately have "s = strip_zeros s @ rev (replicate (length (takeWhile (\<lambda>c. c = CHR ''0'') (rev s))) CHR ''0'')"
    unfolding strip_zeros_def by (metis rev_append rev_rev_ident)
  then show ?thesis by (metis rev_replicate)
qed

lemma digits_val_append_zeros: "digits_val (s @ replicate k CHR ''0'') = digits_val s * 10 ^ k"
proof (induction k)
  case (Suc k)
  have "s @ replicate (Suc k) CHR ''0'' = (s @ replicate k CHR ''0'') @ [CHR ''0'']"
    by (simp add: replicate_append_same)
  then have "digits_val (s @ replicate (Suc k) CHR ''0'') = digits_val (s @ replicate k CHR ''0'') * 10 + digit_val CHR ''0''"
    by (simp only: digits_val_snoc)
  then show ?case using Suc by (simp add: digit_val_def)
qed simp

lemma scan_fraction_format:
  assumes "n < 10 ^ 9"
  shows "scan_fraction ((if strip_zeros (pad 9 n) = [] then [] else CHR ''.'' # strip_zeros (pad 9 n)) @ ''Z'') = Some (int n, ''Z'')"
proof -
  let ?f = "strip_zeros (pad 9 n)"
  have p: "length (pad 9 n) = 9" "list_all is_digit (pad 9 n)" "digits_val (pad 9 n) = n"
    using pad_spec [of n 9] assms by simp_all
  obtain k where k: "pad 9 n = ?f @ replicate k CHR ''0''" using strip_zeros_spec by blast
  then have l: "length ?f = 9 - k" "k \<le> 9" using p(1) by (metis length_append length_replicate add_diff_cancel_right' le_add2)+
  have d: "list_all is_digit ?f" using k p(2) by (metis list_all_append)
  have v: "n = digits_val ?f * 10 ^ k" using k p(3) digits_val_append_zeros by metis
  have z: "\<not> is_digit CHR ''Z''" by (simp add: is_digit_def)
  show ?thesis
  proof (cases ?f)
    case Nil
    then have "n = 0" using v by (simp add: digits_val_def)
    then show ?thesis using Nil by (simp add: scan_fraction_def)
  next
    case (Cons c cs)
    have "takeWhile is_digit (?f @ ''Z'') = ?f" "dropWhile is_digit (?f @ ''Z'') = ''Z''"
      using d z by (simp_all add: list_all_iff)
    moreover have "9 - length ?f = k" "take 9 ?f = ?f" using l by simp_all
    moreover have "is_digit c" using d Cons by simp
    ultimately show ?thesis using Cons v by (simp add: scan_fraction_def Let_def)
  qed
qed

text \<open>The years that four digits can write.\<close>

definition year_in_range :: "gotime \<Rightarrow> bool" where
  "year_in_range t \<longleftrightarrow> (let (y, _) = year_day (t div Second div 86400) in 0 \<le> y \<and> y \<le> 9999)"

lemma Parse_fields:
  assumes "y < 10 ^ 4" "m \<le> 12" "d < 100" "h < 24" "mi < 60" "se < 60" "n < 10 ^ 9" "1 \<le> m" "1 \<le> d"
    and "int d \<le> days_in (int y) (int m)"
  shows "Parse_RFC3339Nano (pad 4 y @ CHR ''-'' # pad 2 m @ CHR ''-'' # pad 2 d @ CHR ''T'' #
      pad 2 h @ CHR '':'' # pad 2 mi @ CHR '':'' # pad 2 se @
      (if strip_zeros (pad 9 n) = [] then [] else CHR ''.'' # strip_zeros (pad 9 n)) @ ''Z'') =
    Some ((day_number (int y) (int m) (int d) * 86400 + int h * 3600 + int mi * 60 + int se) * Second + int n)"
proof -
  have "n < 100" if "n \<le> 60" for n :: nat using that by simp
  then have p: "scan_fixed 4 (pad 4 y @ s) = Some (int y, s)" "scan_fixed 2 (pad 2 m @ s) = Some (int m, s)"
    "scan_fixed 2 (pad 2 d @ s) = Some (int d, s)" "scan_hour (pad 2 h @ s) = Some (int h, s)"
    "scan_fixed 2 (pad 2 mi @ s) = Some (int mi, s)" "scan_fixed 2 (pad 2 se @ s) = Some (int se, s)" for s
    using assms scan_pad [of y 4] scan_pad [of m 2] scan_pad [of d 2] scan_hour_pad [of h] scan_pad [of mi 2] scan_pad [of se 2]
    by simp_all
  have z: "scan_zone ''Z'' = Some (0, [])" by (simp add: scan_zone_def)
  have r: "int h < 24" "int mi < 60" "int se < 60" "1 \<le> int m" "int m \<le> 12" "1 \<le> int d" using assms by simp_all
  show ?thesis
    unfolding Parse_RFC3339Nano_def
    by (simp only: p lit_Cons scan_fraction_format [OF assms(7)] z bind.bind_lunit prod.case if_True simp_thms r assms(10)
        refl diff_zero)
qed

lemma Parse_Format:
  assumes "year_in_range t"
  shows "Parse_RFC3339Nano (Format_RFC3339Nano t) = Some t"
proof -
  define s ns where s: "s = t div Second" "ns = t mod Second"
  obtain y m d where c: "civil (s div 86400) = (y, m, d)" by (cases "civil (s div 86400)") auto
  note C = civil_spec [OF c]
  have "\<exists>k. year_day (s div 86400) = (y, k)" using c by (auto simp: civil_def split: prod.splits)
  then have y: "0 \<le> y" "nat y < 10 ^ 4" using assms by (auto simp: year_in_range_def s)
  have ns: "0 \<le> ns" "nat ns < 10 ^ 9" by (simp_all add: s Second_def)
  define tod where tod: "tod = s mod 86400"
  then have "0 \<le> tod" "tod < 86400" by simp_all
  then have h: "0 \<le> tod div 3600" "tod div 3600 < 24" by (simp_all add: pos_imp_zdiv_nonneg_iff)
  have mi: "0 \<le> tod div 60 mod 60" "tod div 60 mod 60 < 60" and se: "0 \<le> tod mod 60" "tod mod 60 < 60" by simp_all
  have "tod div 3600 * 3600 + tod div 60 mod 60 * 60 + tod mod 60 = (tod div 60 div 60 * 60 + tod div 60 mod 60) * 60 + tod mod 60"
    using zdiv_zmult2_eq [of 60 tod 60] by (simp only: distrib_right mult.assoc) simp
  then have tod': "tod div 3600 * 3600 + tod div 60 mod 60 * 60 + tod mod 60 = tod"
    by (simp only: div_mult_mod_eq)
  define H M S where HMS: "H = tod div 3600" "M = tod div 60 mod 60" "S = tod mod 60"
  note h = h [folded HMS] and mi = mi [folded HMS] and se = se [folded HMS] and tod' = tod' [folded HMS]
  have m: "nat m < 100" using C(2,3) by simp
  have d: "nat d < 100" using C(4,5) days_in_31 [OF C(2,3), of y] by simp
  have t: "(s div 86400 * 86400 + tod) * Second + ns = t" unfolding tod s by simp
  have f: "Format_RFC3339Nano t = pad 4 (nat y) @ CHR ''-'' # pad 2 (nat m) @ CHR ''-'' # pad 2 (nat d) @ CHR ''T'' #
      pad 2 (nat H) @ CHR '':'' # pad 2 (nat M) @ CHR '':'' # pad 2 (nat S) @
      (if strip_zeros (pad 9 (nat ns)) = [] then [] else CHR ''.'' # strip_zeros (pad 9 (nat ns))) @ ''Z''"
    using y c by (simp add: Format_RFC3339Nano_def format_year_def s [symmetric] tod HMS Let_def)
  have "Parse_RFC3339Nano (Format_RFC3339Nano t) =
      Some ((day_number y m d * 86400 + H * 3600 + M * 60 + S) * Second + ns)"
  proof -
    have i: "int (nat y) = y" "int (nat m) = m" "int (nat d) = d" "int (nat H) = H"
      "int (nat M) = M" "int (nat S) = S" "int (nat ns) = ns"
      using y C(2,4) h mi se ns by simp_all
    have n: "nat m \<le> 12" "1 \<le> nat m" "1 \<le> nat d" using C(2-4) by simp_all
    have na: "nat H < 24" using h by (subst nat_less_iff) simp_all
    have nb: "nat M < 60" using mi by (subst nat_less_iff) simp_all
    have nc: "nat S < 60" using se by (subst nat_less_iff) simp_all
    have "int (nat d) \<le> days_in (int (nat y)) (int (nat m))" unfolding i by (rule C(5))
    from Parse_fields [OF y(2) n(1) d na nb nc ns(2) n(2,3) this] show ?thesis unfolding f i .
  qed
  also have "day_number y m d * 86400 + H * 3600 + M * 60 + S = s div 86400 * 86400 + tod"
    using tod' C(1) by (simp only: add.assoc)
  finally show ?thesis by (simp only: t)
qed

lemma zero_time_text: "Format_RFC3339Nano zero_time = ''0001-01-01T00:00:00Z''"
  by code_simp

end
