(* ===== verification/JsonValues.thy ===== *)
theory JsonValues
  imports Json GoTime
begin

text \<open>
  What the program uses of \<open>encoding/json\<close> and \<open>encoding/base64\<close> beyond structs of strings: integers,
  times, byte slices and maps of strings, as fields of a struct. It models the standard library, so nothing
  here maps to a file under src/. Texts are lists of byte values, as in the theory of structs of strings.
\<close>

subsection \<open>Base64\<close>

definition b64_char :: "nat \<Rightarrow> nat" where
  "b64_char n =
    (if n < 26 then 65 + n else if n < 52 then 71 + n else if n < 62 then n - 4 else if n = 62 then 43 else 47)"

definition b64_val :: "nat \<Rightarrow> nat option" where
  "b64_val b =
    (if 65 \<le> b \<and> b \<le> 90 then Some (b - 65)
     else if 97 \<le> b \<and> b \<le> 122 then Some (b - 71)
     else if 48 \<le> b \<and> b \<le> 57 then Some (b + 4)
     else if b = 43 then Some 62
     else if b = 47 then Some 63
     else None)"

fun b64_encode :: "nat list \<Rightarrow> nat list" where
  "b64_encode [] = []"
| "b64_encode [a] = [b64_char (a div 4), b64_char (a mod 4 * 16), 61, 61]"
| "b64_encode [a, b] = [b64_char (a div 4), b64_char (a mod 4 * 16 + b div 16), b64_char (b mod 16 * 4), 61]"
| "b64_encode (a # b # c # bs) =
    b64_char (a div 4) # b64_char (a mod 4 * 16 + b div 16) # b64_char (b mod 16 * 4 + c div 64) # b64_char (c mod 64) #
    b64_encode bs"

text \<open>Decoding drops line breaks and does not look at the spare bits of the last group.\<close>

fun b64_quads :: "nat list \<Rightarrow> nat list option" where
  "b64_quads [] = Some []"
| "b64_quads (w # x # y # z # r) =
    (case (b64_val w, b64_val x) of
      (Some w', Some x') \<Rightarrow>
        (case (b64_val y, b64_val z) of
          (Some y', Some z') \<Rightarrow>
            map_option (\<lambda>bs. (w' * 4 + x' div 16) # (x' mod 16 * 16 + y' div 4) # (y' mod 4 * 64 + z') # bs) (b64_quads r)
        | (Some y', None) \<Rightarrow>
            (if z = 61 \<and> r = [] then Some [w' * 4 + x' div 16, x' mod 16 * 16 + y' div 4] else None)
        | (None, _) \<Rightarrow> (if y = 61 \<and> z = 61 \<and> r = [] then Some [w' * 4 + x' div 16] else None))
    | _ \<Rightarrow> None)"
| "b64_quads _ = None"

definition b64_decode :: "nat list \<Rightarrow> nat list option" where
  "b64_decode s = b64_quads (filter (\<lambda>b. b \<noteq> 10 \<and> b \<noteq> 13) s)"

lemma b64_val_char [simp]: "n < 64 \<Longrightarrow> b64_val (b64_char n) = Some n"
  by (auto simp: b64_val_def b64_char_def)

lemma b64_val_pad [simp]: "b64_val 61 = None"
  by (simp add: b64_val_def)

lemma b64_groups:
  fixes a b c :: nat
  assumes "a < 256" "b < 256" "c < 256"
  shows "b64_val (b64_char (a div 4)) = Some (a div 4)" "b64_val (b64_char (a mod 4 * 16)) = Some (a mod 4 * 16)"
    "b64_val (b64_char (a mod 4 * 16 + b div 16)) = Some (a mod 4 * 16 + b div 16)"
    "b64_val (b64_char (b mod 16 * 4)) = Some (b mod 16 * 4)"
    "b64_val (b64_char (b mod 16 * 4 + c div 64)) = Some (b mod 16 * 4 + c div 64)"
    "b64_val (b64_char (c mod 64)) = Some (c mod 64)"
    "a div 4 * 4 + (a mod 4 * 16 + b div 16) div 16 = a" "(a mod 4 * 16 + b div 16) mod 16 * 16 + b mod 16 * 4 div 4 = b"
    "(a mod 4 * 16 + b div 16) mod 16 * 16 + (b mod 16 * 4 + c div 64) div 4 = b"
    "(b mod 16 * 4 + c div 64) mod 4 * 64 + c mod 64 = c" "a div 4 * 4 + a mod 4 * 16 div 16 = a"
proof -
  have d: "b div 16 < 16" "c div 64 < 4" "a mod 4 < 4" "b mod 16 < 16" using assms by auto
  then show "b64_val (b64_char (a div 4)) = Some (a div 4)" "b64_val (b64_char (a mod 4 * 16)) = Some (a mod 4 * 16)"
    "b64_val (b64_char (a mod 4 * 16 + b div 16)) = Some (a mod 4 * 16 + b div 16)"
    "b64_val (b64_char (b mod 16 * 4)) = Some (b mod 16 * 4)"
    "b64_val (b64_char (b mod 16 * 4 + c div 64)) = Some (b mod 16 * 4 + c div 64)"
    "b64_val (b64_char (c mod 64)) = Some (c mod 64)"
    using assms by (intro b64_val_char; linarith)+
  show "a div 4 * 4 + (a mod 4 * 16 + b div 16) div 16 = a" "a div 4 * 4 + a mod 4 * 16 div 16 = a"
    "(a mod 4 * 16 + b div 16) mod 16 * 16 + b mod 16 * 4 div 4 = b"
    "(a mod 4 * 16 + b div 16) mod 16 * 16 + (b mod 16 * 4 + c div 64) div 4 = b"
    "(b mod 16 * 4 + c div 64) mod 4 * 64 + c mod 64 = c"
    using d by simp_all
qed

lemma b64_quads_encode: "\<forall>b \<in> set bs. b < 256 \<Longrightarrow> b64_quads (b64_encode bs) = Some bs"
proof (induction bs rule: b64_encode.induct)
  case (2 a)
  then show ?case using b64_groups [of a a a] by (simp del: b64_val_char)
next
  case (3 a b)
  then show ?case using b64_groups [of a b b] by (simp only: b64_encode.simps b64_quads.simps) simp
next
  case (4 a b c bs)
  then show ?case using b64_groups [of a b c] by (simp only: b64_encode.simps b64_quads.simps) simp
qed simp

definition b64_byte :: "nat \<Rightarrow> bool" where
  "b64_byte b \<longleftrightarrow> b = 61 \<or> b64_val b \<noteq> None"

lemma b64_encode_bytes: "\<forall>b \<in> set bs. b < 256 \<Longrightarrow> \<forall>b \<in> set (b64_encode bs). b64_byte b"
proof (induction bs rule: b64_encode.induct)
  case (2 a)
  then show ?case using b64_groups [of a a a] by (simp add: b64_byte_def)
next
  case (3 a b)
  then show ?case using b64_groups [of a b b] by (simp add: b64_byte_def)
next
  case (4 a b c bs)
  then show ?case using b64_groups [of a b c] by (simp add: b64_byte_def)
qed simp

lemma b64_byte_plain: "b64_byte b \<Longrightarrow> 32 \<le> b \<and> b < 128 \<and> b \<noteq> 34 \<and> b \<noteq> 92"
  by (auto simp: b64_byte_def b64_val_def split: if_splits)

lemma b64_round_trip: "\<forall>b \<in> set bs. b < 256 \<Longrightarrow> b64_decode (b64_encode bs) = Some bs"
proof -
  assume a: "\<forall>b \<in> set bs. b < 256"
  then have "\<forall>b \<in> set (b64_encode bs). b \<noteq> 10 \<and> b \<noteq> 13"
    using b64_encode_bytes [OF a] b64_byte_plain by fastforce
  then have "filter (\<lambda>b. b \<noteq> 10 \<and> b \<noteq> 13) (b64_encode bs) = b64_encode bs" by simp
  then show ?thesis using b64_quads_encode [OF a] by (simp add: b64_decode_def)
qed

subsection \<open>Writing\<close>

fun json_members :: "(string \<times> nat list) list \<Rightarrow> nat list" where
  "json_members [] = []"
| "json_members [f] = json_quote (fst f) @ 58 # snd f"
| "json_members (f # g # fs) = json_quote (fst f) @ 58 # snd f @ 44 # json_members (g # fs)"

definition json_object :: "(string \<times> nat list) list \<Rightarrow> nat list" where
  "json_object fs = 123 # json_members fs @ [125]"

definition json_null :: "nat list" where
  "json_null = [110, 117, 108, 108]"

definition json_int :: "int \<Rightarrow> nat list" where
  "json_int i = bytes (Itoa i)"

text \<open>A byte slice; the nil slice, which the model does not tell from the empty one, is \<open>null\<close>.\<close>

definition json_bytes :: "string \<Rightarrow> nat list" where
  "json_bytes p = (if p = [] then json_null else 34 # b64_encode (bytes p) @ [34])"

text \<open>A map, with its keys sorted; \<open>keys\<close> lists them in some order.\<close>

definition json_map :: "string list \<Rightarrow> (string \<rightharpoonup> string) \<Rightarrow> nat list" where
  "json_map keys m = json_object (map (\<lambda>k. (k, json_quote (the (m k)))) (sort_Slice string_less keys))"

text \<open>\<open>Time.MarshalJSON\<close> refuses a year outside of four digits.\<close>

definition json_time :: "gotime \<Rightarrow> nat list result" where
  "json_time t =
    (if year_in_range t then Inr (34 # bytes (Format_RFC3339Nano t) @ [34])
     else Inl (ErrorString ''json: error calling MarshalJSON for type time.Time: Time.MarshalJSON: year outside of range [0,9999]''))"

subsection \<open>Reading into a field\<close>

text \<open>
  A reader gives the new value of the field and whether the JSON value had the wrong type, which is
  reported after the whole struct has been read. \<open>null\<close> leaves a field alone or makes it nil.
\<close>

definition read_string :: "json \<Rightarrow> string \<Rightarrow> string \<times> bool" where
  "read_string x old =
    (case x of JStr _ rs \<Rightarrow> (of_bytes (encode_runes rs), False) | JNull \<Rightarrow> (old, False) | _ \<Rightarrow> (old, True))"

definition read_int :: "json \<Rightarrow> int \<Rightarrow> int \<times> bool" where
  "read_int x old =
    (case x of
      JNum ds \<Rightarrow> (case Atoi (of_bytes ds) of (n, None) \<Rightarrow> (n, False) | _ \<Rightarrow> (old, True))
    | JNull \<Rightarrow> (old, False)
    | _ \<Rightarrow> (old, True))"

definition read_byte :: "json \<Rightarrow> nat \<Rightarrow> nat \<times> bool" where
  "read_byte x old =
    (case read_int x (int old) of (n, bad) \<Rightarrow> if 0 \<le> n \<and> n < 256 then (nat n, bad) else (old, True))"

fun read_elems :: "json list \<Rightarrow> nat list \<Rightarrow> nat list \<times> bool" where
  "read_elems [] old = ([], False)"
| "read_elems (x # xs) old =
    (let (b, bad) = read_byte x (case old of [] \<Rightarrow> 0 | o1 # _ \<Rightarrow> o1); (bs, bads) = read_elems xs (tl old)
     in (b # bs, bad \<or> bads))"

definition read_bytes :: "json \<Rightarrow> string \<Rightarrow> string \<times> bool" where
  "read_bytes x old =
    (case x of
      JStr _ rs \<Rightarrow> (case b64_decode (encode_runes rs) of Some bs \<Rightarrow> (of_bytes bs, False) | None \<Rightarrow> (old, True))
    | JArr xs \<Rightarrow> apfst of_bytes (read_elems xs (bytes old))
    | JNull \<Rightarrow> ([], False)
    | _ \<Rightarrow> (old, True))"

fun read_entries :: "(nat list \<times> json) list \<Rightarrow> (string \<rightharpoonup> string) \<Rightarrow> (string \<rightharpoonup> string) \<times> bool" where
  "read_entries [] m = (m, False)"
| "read_entries ((k, x) # ms) m =
    (let (v, bad) = read_string x []; (m', bads) = read_entries ms (m(of_bytes (encode_runes k) \<mapsto> v))
     in (m', bad \<or> bads))"

definition read_map :: "json \<Rightarrow> (string \<rightharpoonup> string) \<Rightarrow> (string \<rightharpoonup> string) \<times> bool" where
  "read_map x old =
    (case x of JObj ms \<Rightarrow> read_entries ms old | JNull \<Rightarrow> (Map.empty, False) | _ \<Rightarrow> (old, True))"

text \<open>\<open>Time.UnmarshalJSON\<close> reads the literal as it is written, and its error ends the decoding.\<close>

definition read_time :: "json \<Rightarrow> gotime \<Rightarrow> gotime result" where
  "read_time x old =
    (case x of
      JStr raw _ \<Rightarrow>
        (case Parse_RFC3339Nano (of_bytes raw) of
          Some t \<Rightarrow> Inr t
        | None \<Rightarrow> Inl (ErrorString ''parsing time: cannot parse''))
    | JNull \<Rightarrow> Inr old
    | _ \<Rightarrow> Inl (ErrorString ''Time.UnmarshalJSON: input is not a JSON string''))"


subsection \<open>What is written is read back\<close>

text \<open>
  A text stands for a value where a value is expected inside an array or an object: the parser
  reads it, with fuel twice its length, up to the comma or the bracket that follows.
\<close>

definition writes :: "nat \<Rightarrow> nat list \<Rightarrow> json \<Rightarrow> bool" where
  "writes d raw v \<longleftrightarrow>
    (\<forall>f b u. 2 * length raw < f \<longrightarrow> (b = 44 \<or> b = 125) \<longrightarrow> parse_value f d (raw @ b # u) = Some (v, b # u))"

lemma writesI:
  "(\<And>f b u. b = 44 \<or> b = 125 \<Longrightarrow> parse_value (Suc f) d (raw @ b # u) = Some (v, b # u)) \<Longrightarrow> writes d raw v"
proof -
  assume a: "\<And>f b u. b = 44 \<or> b = 125 \<Longrightarrow> parse_value (Suc f) d (raw @ b # u) = Some (v, b # u)"
  show ?thesis
    unfolding writes_def
  proof (intro allI impI)
    fix f u and b :: nat assume "2 * length raw < f" and b: "b = 44 \<or> b = 125"
    then show "parse_value f d (raw @ b # u) = Some (v, b # u)" using a [OF b] by (cases f) simp_all
  qed
qed

lemma writes_quote: "writes d (json_quote s) (JStr (quote_bytes (bytes s)) (runes (bytes s)))"
  by (rule writesI) (rule parse_quoted)

lemma writes_null: "writes d json_null JNull"
  by (rule writesI) (simp add: json_null_def scan_word_def bytes_def is_ws_def)

definition plain :: "nat \<Rightarrow> bool" where
  "plain b \<longleftrightarrow> 32 \<le> b \<and> b < 128 \<and> b \<noteq> 34 \<and> b \<noteq> 92"

lemma scan_plains: "\<forall>b \<in> set bs. plain b \<Longrightarrow> scan_string (bs @ 34 # t) = Some (bs, t)"
proof (induction bs)
  case (Cons b bs)
  then have "scan_string (b # bs @ 34 # t) = map_option (apfst (Cons b)) (scan_string (bs @ 34 # t))"
    by (intro scan_plain) (simp_all add: plain_def)
  then show ?case using Cons by simp
qed simp

lemma writes_plain:
  assumes "\<forall>b \<in> set bs. plain b"
  shows "writes d (34 # bs @ [34]) (JStr bs bs)"
proof (rule writesI)
  fix f and b :: nat and u
  show "parse_value (Suc f) d ((34 # bs @ [34]) @ b # u) = Some (JStr bs bs, b # u)"
    using scan_plains [OF assms, of "b # u"] by (simp add: string_value_def del: scan_string.simps)
qed

lemma nat_digits_zero: "nat_digits n = c # cs \<Longrightarrow> c = CHR ''0'' \<Longrightarrow> n = 0 \<and> cs = []"
proof (induction n arbitrary: c cs rule: nat_digits.induct)
  case (1 n)
  have d0: "d < 10 \<Longrightarrow> digit_char d = CHR ''0'' \<Longrightarrow> d = 0" for d
    using digit_char_val [of d] by (simp add: digit_val_def)
  show ?case
  proof (cases "n < 10")
    case True
    then show ?thesis using 1(2,3) d0 [of n] by (simp add: nat_digits.simps [of n])
  next
    case False
    then obtain x xs where x: "nat_digits (n div 10) = x # xs"
      using nat_digits_val [of "n div 10"] by (cases "nat_digits (n div 10)") auto
    then have "x = CHR ''0''" using 1(2,3) False by (simp add: nat_digits.simps [of n])
    then have "n div 10 = 0" using 1(1) [OF False x] by simp
    then show ?thesis using False by simp
  qed
qed

lemma is_digit_dig: "is_digit c \<Longrightarrow> is_dig (of_char c)"
  by (simp add: is_digit_def is_dig_def)

lemma scan_int_digits:
  assumes nb: "\<not> is_dig b"
  shows "scan_int (bytes (nat_digits n) @ b # u) = Some (bytes (nat_digits n), b # u)"
proof -
  have d: "\<forall>x \<in> set (bytes (nat_digits n)). is_dig x"
    using nat_digits_val [of n] by (auto simp: bytes_def list_all_iff is_digit_dig)
  obtain c cs where c: "nat_digits n = c # cs" using nat_digits_val [of n] by (cases "nat_digits n") auto
  show ?thesis
  proof (cases "c = CHR ''0''")
    case True
    then have "cs = []" using nat_digits_zero [OF c] by simp
    then show ?thesis using c True by (simp add: scan_int_def bytes_def)
  next
    case False
    have "of_char c \<noteq> (48 :: nat)"
    proof
      assume "of_char c = (48 :: nat)"
      then have "(of_char c :: nat) = of_char CHR ''0''" by simp
      then show False using False by (simp only: of_char_eq_iff)
    qed
    moreover have "takeWhile is_dig (bytes (nat_digits n) @ b # u) = bytes (nat_digits n)"
      "dropWhile is_dig (bytes (nat_digits n) @ b # u) = b # u"
      using d nb by (simp_all add: takeWhile_append dropWhile_append)
    ultimately show ?thesis using c by (simp add: scan_int_def scan_digits_def bytes_def)
  qed
qed

lemma parse_int:
  assumes b: "\<not> is_dig b" "b \<notin> {46, 69, 101}"
  shows "parse_value (Suc f) d (json_int i @ b # u) = Some (JNum (json_int i), b # u)"
proof -
  have tl: "scan_frac (b # u) = Some ([], b # u)" "scan_exp (b # u) = Some ([], b # u)"
    using b by (auto simp: scan_frac_def scan_exp_def)
  define ds where "ds = bytes (nat_digits (nat \<bar>i\<bar>))"
  have ji: "json_int i = (if i < 0 then 45 # ds else ds)"
    by (simp add: json_int_def Itoa_def ds_def bytes_def)
  obtain x xs where x: "ds = x # xs" "is_dig x"
    using nat_digits_val [of "nat \<bar>i\<bar>"] unfolding ds_def
    by (cases "nat_digits (nat \<bar>i\<bar>)") (auto simp: bytes_def is_digit_dig)
  have n45: "x \<noteq> 45" using x(2) by (auto simp: is_dig_def)
  have s: "scan_int (ds @ b # u) = Some (ds, b # u)" unfolding ds_def by (rule scan_int_digits [OF b(1)])
  have num: "scan_number (json_int i @ b # u) = Some (json_int i, b # u)"
    using s tl n45 x(1) unfolding ji scan_number_def by (cases "i < 0") simp_all
  obtain y ys where y: "json_int i = y # ys" "y = 45 \<or> is_dig y" using ji x by (cases "i < 0") auto
  then have "\<not> is_ws y" "y \<notin> {34, 123, 91, 116, 102, 110}" by (auto simp: is_ws_def is_dig_def)
  then show "parse_value (Suc f) d (json_int i @ b # u) = Some (JNum (json_int i), b # u)"
    using num y by simp
qed

lemma writes_int: "writes d (json_int i) (JNum (json_int i))"
  by (rule writesI) (rule parse_int, auto simp: is_dig_def)

subsection \<open>Objects\<close>

text \<open>A member as it is written: its key, the text of its value, and the value that is read from it.\<close>

type_synonym wire_member = "string \<times> nat list \<times> json"

definition wm_text :: "wire_member \<Rightarrow> string \<times> nat list" where
  "wm_text m = (fst m, fst (snd m))"

definition wm_json :: "wire_member \<Rightarrow> nat list \<times> json" where
  "wm_json m = (runes (bytes (fst m)), snd (snd m))"

lemma wm_text_sel [simp]: "fst (wm_text m) = fst m" "snd (wm_text m) = fst (snd m)"
  by (simp_all add: wm_text_def)

lemma length_json_quote: "2 \<le> length (json_quote s)"
  by (simp add: json_quote_def)

lemma parse_one_member:
  assumes "writes d (fst (snd m)) (snd (snd m))" "2 * length (fst (snd m)) < f" "b = 44 \<or> b = 125"
  shows "parse_members (Suc f) d (json_quote (fst m) @ 58 # fst (snd m) @ b # t) =
    (if b = 44 then map_option (apfst (Cons (wm_json m))) (parse_members f d t) else Some ([wm_json m], t))"
proof -
  obtain u where u: "json_quote (fst m) @ 58 # fst (snd m) @ b # t = 34 # u"
    "scan_string u = Some (runes (bytes (fst m)), 58 # fst (snd m) @ b # t)"
    using json_quote_front by metis
  have p: "parse_value f d (fst (snd m) @ b # t) = Some (snd (snd m), b # t)"
    using assms unfolding writes_def by blast
  show ?thesis
    unfolding u(1)
    using assms(3)
    by (subst parse_members.simps(2))
       (auto simp add: u(2) p wm_json_def simp del: parse_value.simps parse_members.simps scan_string.simps)
qed

lemma parse_wire_members:
  "ms \<noteq> [] \<Longrightarrow> \<forall>m \<in> set ms. writes d (fst (snd m)) (snd (snd m)) \<Longrightarrow> 2 * length (json_members (map wm_text ms)) < f \<Longrightarrow>
    parse_members f d (json_members (map wm_text ms) @ 125 # t) = Some (map wm_json ms, t)"
proof (induction ms arbitrary: f)
  case (Cons m ms)
  obtain g where g: "f = Suc g" using Cons.prems(3) by (cases f) simp_all
  note q = length_json_quote [of "fst m"]
  show ?case
  proof (cases ms)
    case Nil
    then show ?thesis
      using parse_one_member [of d m g 125 t] Cons.prems q g by simp
  next
    case (Cons n ns)
    have "2 * length (json_members (map wm_text ms)) < g" "2 * length (fst (snd m)) < g"
      using Cons.prems(3) q g Cons by simp_all
    then show ?thesis
      using parse_one_member [of d m g 44 "json_members (map wm_text ms) @ 125 # t"] Cons.IH [of g] Cons.prems(2) g Cons
      by (simp del: parse_members.simps)
  qed
qed simp

lemma json_members_front: "ms \<noteq> [] \<Longrightarrow> \<exists>u. json_members ms @ t = 34 # u"
  by (induction ms rule: json_members.induct) (simp_all add: json_quote_def)

lemma parse_object:
  assumes "\<forall>m \<in> set ms. writes (d - 1) (fst (snd m)) (snd (snd m))" "d \<noteq> 0" "2 * length (json_object (map wm_text ms)) \<le> f"
  shows "parse_value f d (json_object (map wm_text ms) @ t) = Some (JObj (map wm_json ms), t)"
proof -
  obtain g where g: "f = Suc g" using assms(3) by (cases f) (simp_all add: json_object_def)
  show ?thesis
  proof (cases "ms = []")
    case True
    then show ?thesis using assms(2) by (simp add: g json_object_def is_ws_def)
  next
    case False
    have m: "parse_members g (d - 1) (json_members (map wm_text ms) @ 125 # t) = Some (map wm_json ms, t)"
      using parse_wire_members [OF False assms(1)] assms(3) by (simp add: g json_object_def)
    obtain u where u: "json_members (map wm_text ms) @ 125 # t = 34 # u"
      using json_members_front [of "map wm_text ms"] False by auto
    have e: "json_object (map wm_text ms) @ t = 123 # json_members (map wm_text ms) @ 125 # t"
      by (simp add: json_object_def)
    show ?thesis
      using m assms(2) unfolding e u g
      by (subst parse_value.simps(2)) (simp add: is_ws_def del: parse_members.simps)
  qed
qed

lemma writes_object:
  assumes "\<forall>m \<in> set ms. writes (d - 1) (fst (snd m)) (snd (snd m))" "d \<noteq> 0"
  shows "writes d (json_object (map wm_text ms)) (JObj (map wm_json ms))"
  using parse_object [OF assms] by (simp add: writes_def)

lemma json_parse_object:
  assumes "\<forall>m \<in> set ms. writes (max_depth - 1) (fst (snd m)) (snd (snd m))"
  shows "json_parse (json_object (map wm_text ms)) = Some (JObj (map wm_json ms))"
proof -
  have "parse_value (Suc (2 * length (json_object (map wm_text ms)))) max_depth (json_object (map wm_text ms) @ []) =
      Some (JObj (map wm_json ms), [])"
    using assms by (intro parse_object) (simp_all add: max_depth_def)
  then show ?thesis by (simp add: json_parse_def skip_ws_def del: parse_value.simps)
qed

subsection \<open>Bytes of what is written\<close>

definition byte_list :: "nat list \<Rightarrow> bool" where
  "byte_list bs \<longleftrightarrow> (\<forall>b \<in> set bs. b < 256)"

lemma byte_list_simps [simp]:
  "byte_list []" "byte_list (b # bs) \<longleftrightarrow> b < 256 \<and> byte_list bs" "byte_list (bs @ cs) \<longleftrightarrow> byte_list bs \<and> byte_list cs"
  "byte_list (bytes s)"
  using bytes_bound by (auto simp: byte_list_def)

lemma byte_list_quote [simp]: "byte_list (json_quote s)"
  using json_fields_bound [of "[(s, s)]"] by (simp add: byte_list_def)

lemma byte_list_members: "\<forall>m \<in> set ms. byte_list (snd m) \<Longrightarrow> byte_list (json_members ms)"
  by (induction ms rule: json_members.induct) simp_all

lemma byte_list_object: "\<forall>m \<in> set ms. byte_list (snd m) \<Longrightarrow> byte_list (json_object ms)"
  using byte_list_members by (simp add: json_object_def)

lemma byte_list_plain: "\<forall>b \<in> set bs. plain b \<Longrightarrow> byte_list bs"
  by (auto simp: byte_list_def plain_def)

lemma byte_list_values [simp]: "byte_list (json_int i)" "byte_list json_null"
  by (simp_all add: json_int_def json_null_def)

lemma bytes_of_byte_list: "byte_list bs \<Longrightarrow> bytes (of_bytes bs) = bs"
  using bytes_of_bytes by (simp add: byte_list_def)

subsection \<open>Each field read back\<close>

lemma read_string_quote: "valid_utf8 s \<Longrightarrow> read_string (JStr r (runes (bytes s))) old = (s, False)"
  by (simp add: read_string_def valid_utf8_def)

lemma read_int_json: "int64_range i \<Longrightarrow> read_int (JNum (json_int i)) old = (i, False)"
  by (simp add: read_int_def json_int_def Atoi_Itoa)

lemma b64_plain_utf8: "\<forall>b \<in> set bs. b64_byte b \<Longrightarrow> encode_runes bs = bs \<and> (\<forall>b \<in> set bs. plain b)"
  using b64_byte_plain encode_runes_ascii by (fastforce simp: plain_def)

definition bytes_json :: "string \<Rightarrow> json" where
  "bytes_json p = (if p = [] then JNull else JStr (b64_encode (bytes p)) (b64_encode (bytes p)))"

lemma writes_bytes: "writes d (json_bytes p) (bytes_json p)"
  using writes_plain [of "b64_encode (bytes p)"] b64_plain_utf8 [OF b64_encode_bytes [OF bytes_bound]]
  by (simp add: json_bytes_def bytes_json_def writes_null)

lemma read_bytes_json: "read_bytes (bytes_json p) old = (p, False)"
  using b64_plain_utf8 [OF b64_encode_bytes [OF bytes_bound [of p]]] b64_round_trip [OF bytes_bound [of p]]
  by (simp add: read_bytes_def bytes_json_def)

lemma digit_plain: "is_digit c \<Longrightarrow> plain (of_char c)"
  by (auto simp: is_digit_def plain_def)

lemma pad_digits: "list_all is_digit (pad w n)"
  using nat_digits_val [of n] by (simp add: pad_def list_all_append) (simp add: list_all_iff)

lemma strip_digits: "list_all is_digit s \<Longrightarrow> list_all is_digit (strip_zeros s)"
  by (auto simp: strip_zeros_def list_all_iff dest!: set_dropWhileD)

definition text_plain :: "string \<Rightarrow> bool" where
  "text_plain s \<longleftrightarrow> list_all (\<lambda>c. plain (of_char c)) s"

lemma text_plain_simps [simp]:
  "text_plain []" "text_plain (c # s) \<longleftrightarrow> plain (of_char c) \<and> text_plain s" "text_plain (s @ t) \<longleftrightarrow> text_plain s \<and> text_plain t"
  "list_all is_digit s \<Longrightarrow> text_plain s"
  by (auto simp: text_plain_def list_all_append list_all_iff digit_plain)

lemma Format_plain: "text_plain (Format_RFC3339Nano t)"
proof -
  have c: "plain 45" "plain 84" "plain 58" "plain 46" "plain 90" by (simp_all add: plain_def)
  have f: "text_plain (if strip_zeros (pad 9 n) = [] then [] else CHR ''.'' # strip_zeros (pad 9 n))" for n
    using c by (simp add: strip_digits pad_digits)
  have y: "text_plain (format_year y)" for y using c by (simp add: format_year_def pad_digits)
  show ?thesis
    unfolding Format_RFC3339Nano_def Let_def
    by (auto simp: c y pad_digits strip_digits split: prod.splits)
qed

definition time_json :: "gotime \<Rightarrow> json" where
  "time_json t = JStr (bytes (Format_RFC3339Nano t)) (bytes (Format_RFC3339Nano t))"

lemma json_time_writes:
  assumes "year_in_range t"
  shows "\<exists>raw. json_time t = Inr raw \<and> writes d raw (time_json t) \<and> byte_list raw"
proof -
  have "\<forall>b \<in> set (bytes (Format_RFC3339Nano t)). plain b"
    using Format_plain [of t] by (auto simp: text_plain_def bytes_def list_all_iff)
  from writes_plain [OF this] show ?thesis
    using assms by (auto simp: json_time_def time_json_def)
qed

lemma read_time_json: "year_in_range t \<Longrightarrow> read_time (time_json t) old = Inr t"
  by (simp add: read_time_def time_json_def Parse_Format)

definition map_members :: "string list \<Rightarrow> (string \<rightharpoonup> string) \<Rightarrow> wire_member list" where
  "map_members ks m =
    map (\<lambda>k. (k, json_quote (the (m k)), JStr (quote_bytes (bytes (the (m k)))) (runes (bytes (the (m k)))))) ks"

lemma json_map_members: "json_map keys m = json_object (map wm_text (map_members (sort_Slice string_less keys) m))"
  by (simp add: json_map_def map_members_def wm_text_def o_def)

lemma map_members_write: "x \<in> set (map_members ks m) \<Longrightarrow> writes d (fst (snd x)) (snd (snd x))"
  by (auto simp: map_members_def writes_quote)

lemma read_map_members:
  assumes "\<forall>k v. m k = Some v \<longrightarrow> valid_utf8 k \<and> valid_utf8 v" "set ks \<subseteq> dom m"
  shows "read_entries (map wm_json (map_members ks m)) m0 = ((\<lambda>k. if k \<in> set ks then m k else m0 k), False)"
  using assms(2)
proof (induction ks arbitrary: m0)
  case Nil
  then show ?case by (simp add: map_members_def)
next
  case (Cons k ks)
  then obtain v where v: "m k = Some v" by auto
  then have "of_bytes (encode_runes (runes (bytes k))) = k" "valid_utf8 v"
    using assms(1) by (auto simp: valid_utf8_def)
  then show ?case
    using Cons v by (auto simp: map_members_def wm_json_def read_string_quote fun_eq_iff)
qed

lemma read_map_json:
  assumes "enumerates keys m" "\<forall>k v. m k = Some v \<longrightarrow> valid_utf8 k \<and> valid_utf8 v"
  shows "read_map (JObj (map wm_json (map_members (sort_Slice string_less keys) m))) Map.empty = (m, False)"
proof -
  have "set keys = dom m" using assms(1) by (simp add: enumerates_def)
  then show ?thesis using read_map_members [OF assms(2), of "sort_Slice string_less keys"]
    by (auto simp: read_map_def fun_eq_iff)
qed

end
