(* ===== verification/CustomerDomain.thy ===== *)
theory CustomerDomain
  imports SharedKernel
begin

text \<open>
  The customer aggregate (\<open>internal/customer/domain\<close>): the value objects \<open>CustomerID\<close>,
  \<open>Email\<close> and \<open>Status\<close>, the domain events, the aggregate root with its behaviour methods,
  and the snapshot repositories store. A method with a pointer receiver takes the aggregate and
  returns it changed. \<open>ul\<close> is the Unicode lower-case table (theory GoText).
\<close>

subsection \<open>Value objects\<close>

datatype CustomerID = CustomerID (CustomerID_String: string)

definition NewCustomerID :: "string \<Rightarrow> CustomerID result" where
  "NewCustomerID v =
     (if v = '''' then Inl (Invalid ''customer id must not be empty'') else Inr (CustomerID v))"

definition MustCustomerID :: "string \<Rightarrow> CustomerID outcome" where
  "MustCustomerID v =
     (case NewCustomerID v of Inl err \<Rightarrow> Panic (error_text err) | Inr cid \<Rightarrow> Return cid)"

definition CustomerID_IsZero :: "CustomerID \<Rightarrow> bool" where
  "CustomerID_IsZero i \<longleftrightarrow> CustomerID_String i = ''''"

definition CustomerID_Equals :: "CustomerID \<Rightarrow> CustomerID \<Rightarrow> bool" where
  "CustomerID_Equals i other \<longleftrightarrow> CustomerID_String i = CustomerID_String other"

datatype Email = Email (Email_String: string)

definition NewEmail :: "(nat \<Rightarrow> nat) \<Rightarrow> string \<Rightarrow> Email result" where
  "NewEmail ul raw =
     (let v = ToLower ul (TrimSpace raw);
          at = IndexByte v CHR ''@'' in
      if v = '''' then Inl (Invalid ''email must not be empty'')
      else if at \<le> 0 \<or> at = int (length v) - 1 then Inl (Invalid ''email is not a valid address'')
      else if CountByte v CHR ''@'' \<noteq> 1 then Inl (Invalid ''email is not a valid address'')
      else if \<not> Contains (drop (nat (at + 1)) v) ''.'' then Inl (Invalid ''email domain is not valid'')
      else Inr (Email v))"

definition Email_Equals :: "Email \<Rightarrow> Email \<Rightarrow> bool" where
  "Email_Equals e other \<longleftrightarrow> Email_String e = Email_String other"

type_synonym Status = string

definition StatusActive :: Status where "StatusActive = ''active''"
definition StatusDeactivated :: Status where "StatusDeactivated = ''deactivated''"

definition ParseStatus :: "string \<Rightarrow> Status result" where
  "ParseStatus v =
     (if v = StatusActive then Inr StatusActive
      else if v = StatusDeactivated then Inr StatusDeactivated
      else Inl (Invalid (''unknown customer status: '' @ v)))"

subsection \<open>Domain events\<close>

datatype customer_event =
    CustomerCreated string string string gotime
  | CustomerEmailChanged string string string gotime
  | CustomerDeactivated string string gotime

fun customer_EventName :: "customer_event \<Rightarrow> string" where
  "customer_EventName (CustomerCreated i n e t) = ''customer.created''"
| "customer_EventName (CustomerEmailChanged i old new t) = ''customer.email_changed''"
| "customer_EventName (CustomerDeactivated i r t) = ''customer.deactivated''"

fun customer_OccurredAt :: "customer_event \<Rightarrow> gotime" where
  "customer_OccurredAt (CustomerCreated i n e t) = t"
| "customer_OccurredAt (CustomerEmailChanged i old new t) = t"
| "customer_OccurredAt (CustomerDeactivated i r t) = t"

fun customer_AggregateID :: "customer_event \<Rightarrow> string" where
  "customer_AggregateID (CustomerCreated i n e t) = i"
| "customer_AggregateID (CustomerEmailChanged i old new t) = i"
| "customer_AggregateID (CustomerDeactivated i r t) = i"

subsection \<open>The aggregate\<close>

record Customer = "customer_event AggregateRoot" +
  c_id :: CustomerID
  c_name :: string
  c_email :: Email
  c_status :: Status
  c_createdAt :: gotime
  c_version :: int

definition validateName :: "string \<Rightarrow> gerr option" where
  "validateName name =
     (if name = '''' then Some (Invalid ''customer name is required'')
      else if length name > 200 then Some (Invalid ''customer name must be 200 characters or fewer'')
      else None)"

definition NewCustomer :: "CustomerID \<Rightarrow> string \<Rightarrow> Email \<Rightarrow> gotime \<Rightarrow> Customer result" where
  "NewCustomer i name email occurredAt =
     (if CustomerID_IsZero i then Inl (Invalid ''customer id is required'')
      else case validateName name of
        Some err \<Rightarrow> Inl err
      | None \<Rightarrow>
          let c = \<lparr>root_events = [], c_id = i, c_name = name, c_email = email,
                   c_status = StatusActive, c_createdAt = occurredAt, c_version = 1\<rparr>
          in Inr (RecordEvent
               (CustomerCreated (CustomerID_String i) name (Email_String email) occurredAt) c))"

definition ChangeEmail :: "Email \<Rightarrow> gotime \<Rightarrow> Customer \<Rightarrow> gerr option \<times> Customer" where
  "ChangeEmail newEmail occurredAt c =
     (if c_status c = StatusDeactivated then (Some ErrConflict, c)
      else if Email_Equals (c_email c) newEmail then (None, c)
      else
        let old = c_email c;
            c1 = c\<lparr>c_email := newEmail, c_version := wrap64 (c_version c + 1)\<rparr>
        in (None, RecordEvent
              (CustomerEmailChanged (CustomerID_String (c_id c1)) (Email_String old)
                 (Email_String newEmail) occurredAt) c1))"

definition Deactivate :: "string \<Rightarrow> gotime \<Rightarrow> Customer \<Rightarrow> gerr option \<times> Customer" where
  "Deactivate reason occurredAt c =
     (if c_status c = StatusDeactivated then (None, c)
      else
        let c1 = c\<lparr>c_status := StatusDeactivated, c_version := wrap64 (c_version c + 1)\<rparr>
        in (None, RecordEvent
              (CustomerDeactivated (CustomerID_String (c_id c1)) reason occurredAt) c1))"

subsection \<open>Snapshots\<close>

record Snapshot =
  snap_ID :: string
  snap_Name :: string
  snap_Email :: string
  snap_Status :: string
  snap_CreatedAt :: gotime
  snap_Version :: int

definition ToSnapshot :: "Customer \<Rightarrow> Snapshot" where
  "ToSnapshot c =
     \<lparr>snap_ID = CustomerID_String (c_id c), snap_Name = c_name c,
      snap_Email = Email_String (c_email c), snap_Status = c_status c,
      snap_CreatedAt = c_createdAt c, snap_Version = c_version c\<rparr>"

definition FromSnapshot :: "(nat \<Rightarrow> nat) \<Rightarrow> Snapshot \<Rightarrow> Customer result" where
  "FromSnapshot ul s =
     (case NewCustomerID (snap_ID s) of
        Inl err \<Rightarrow> Inl err
      | Inr i \<Rightarrow>
     (case NewEmail ul (snap_Email s) of
        Inl err \<Rightarrow> Inl err
      | Inr email \<Rightarrow>
     (case ParseStatus (snap_Status s) of
        Inl err \<Rightarrow> Inl err
      | Inr status \<Rightarrow>
          Inr \<lparr>root_events = [], c_id = i, c_name = snap_Name s, c_email = email,
               c_status = status, c_createdAt = snap_CreatedAt s, c_version = snap_Version s\<rparr>)))"

subsection \<open>E-mail addresses\<close>

definition email_shape :: "string \<Rightarrow> bool" where
  "email_shape v \<longleftrightarrow>
     (\<exists>local dom. v = local @ CHR ''@'' # dom \<and> local \<noteq> [] \<and> CHR ''@'' \<notin> set local \<and>
        CHR ''@'' \<notin> set dom \<and> CHR ''.'' \<in> set dom)"

lemma IndexByte_append: "c \<notin> set l \<Longrightarrow> IndexByte (l @ c # d) c = int (length l)"
  by (induction l) auto

lemma email_shape_index:
  "email_shape v \<longleftrightarrow>
     0 < IndexByte v CHR ''@'' \<and> CountByte v CHR ''@'' = 1 \<and>
     Contains (drop (nat (IndexByte v CHR ''@'' + 1)) v) ''.''"
proof
  assume "email_shape v"
  then obtain l d where v: "v = l @ CHR ''@'' # d" "l \<noteq> []" "CHR ''@'' \<notin> set l" "CHR ''@'' \<notin> set d"
    "CHR ''.'' \<in> set d" by (auto simp: email_shape_def)
  then show "0 < IndexByte v CHR ''@'' \<and> CountByte v CHR ''@'' = 1 \<and>
     Contains (drop (nat (IndexByte v CHR ''@'' + 1)) v) ''.''"
    by (simp add: IndexByte_append CountByte_def Contains_byte nat_add_distrib)
next
  let ?i = "IndexByte v CHR ''@''"
  assume h: "0 < ?i \<and> CountByte v CHR ''@'' = 1 \<and> Contains (drop (nat (?i + 1)) v) ''.''"
  define l d where "l = take (nat ?i) v" and "d = drop (nat (?i + 1)) v"
  with h have v: "v = l @ CHR ''@'' # d" and l: "CHR ''@'' \<notin> set l" and d: "CHR ''.'' \<in> set d"
    using IndexByte_split [of v "CHR ''@''"] by (auto simp: Contains_byte)
  have "count_list (l @ CHR ''@'' # d) CHR ''@'' = 1" using h v by (simp add: CountByte_def)
  with l have "CHR ''@'' \<notin> set d" by (simp add: count_list_0_iff)
  moreover have "l \<noteq> []" using h IndexByte_range [of v "CHR ''@''"] by (auto simp: l_def)
  ultimately show "email_shape v" using v l d unfolding email_shape_def by blast
qed

lemma email_shape_not_last: "email_shape v \<Longrightarrow> IndexByte v CHR ''@'' \<noteq> int (length v) - 1"
  by (auto simp: email_shape_def IndexByte_append)

lemma NewEmail_iff:
  "NewEmail ul raw = Inr e \<longleftrightarrow>
     email_shape (ToLower ul (TrimSpace raw)) \<and> e = Email (ToLower ul (TrimSpace raw))"
  using email_shape_not_last [of "ToLower ul (TrimSpace raw)"]
  by (auto simp: NewEmail_def Let_def email_shape_index)

lemma NewEmail_error: "NewEmail ul raw = Inl err \<Longrightarrow> errors_Is err ErrValidation"
  by (auto simp: NewEmail_def Let_def split: if_splits)

lemma NewEmail_fix:
  "lower_table ul \<Longrightarrow> NewEmail ul raw = Inr e \<Longrightarrow> NewEmail ul (Email_String e) = Inr e"
  by (auto simp: NewEmail_iff TrimSpace_normal ToLower_idem)

lemma NewEmail_utf8: "lower_table ul \<Longrightarrow> NewEmail ul raw = Inr e \<Longrightarrow> valid_utf8 (Email_String e)"
  by (auto simp: NewEmail_iff valid_utf8_ToLower)

text \<open>\<open>NewEmail\<close> accepts exactly the strings whose trimmed, lower-cased form is one
  at sign between a non-empty local part and a domain with a dot, and it keeps that form. An
  address it returns is a fixed point: validating it again returns the same address.\<close>

theorem NewEmail_normal_form:
  assumes "lower_table ul"
  shows "(\<forall>e. NewEmail ul raw = Inr e \<longleftrightarrow>
            email_shape (ToLower ul (TrimSpace raw)) \<and> Email_String e = ToLower ul (TrimSpace raw)) \<and>
         (\<forall>e. NewEmail ul raw = Inr e \<longrightarrow> NewEmail ul (Email_String e) = Inr e)"
  using NewEmail_fix [OF assms] by (auto simp: NewEmail_iff) (metis Email.collapse)+

theorem NewEmail_normal_form_witness:
  "lower_table (\<lambda>r. r) \<and> NewEmail (\<lambda>r. r) ''  Ada@Example.COM '' = Inr (Email ''ada@example.com'') \<and>
   NewEmail (\<lambda>r. r) ''ada@example.com'' = Inr (Email ''ada@example.com'')"
proof -
  have e: "NewEmail (\<lambda>r. r) ''  Ada@Example.COM '' = Inr (Email ''ada@example.com'')"
    by (simp add: NewEmail_def text_eval CountByte_def)
  then show ?thesis using NewEmail_normal_form [OF lower_table_id, of "''  Ada@Example.COM ''"] by auto
qed

subsection \<open>Well-formed customers\<close>

text \<open>
  What every aggregate built and driven through its methods satisfies: a non-empty id, a name
  of 1 to 200 bytes, a normalised address, one of the two statuses.
\<close>

definition customer_ok :: "(nat \<Rightarrow> nat) \<Rightarrow> Customer \<Rightarrow> bool" where
  "customer_ok ul c \<longleftrightarrow>
     \<not> CustomerID_IsZero (c_id c) \<and> validateName (c_name c) = None \<and>
     NewEmail ul (Email_String (c_email c)) = Inr (c_email c) \<and>
     (c_status c = StatusActive \<or> c_status c = StatusDeactivated)"

lemma status_distinct [simp]: "StatusActive \<noteq> StatusDeactivated" "StatusDeactivated \<noteq> StatusActive"
  by (simp_all add: StatusActive_def StatusDeactivated_def)

lemma ParseStatus_known:
  "ParseStatus v = Inr v \<longleftrightarrow> v = StatusActive \<or> v = StatusDeactivated"
  "ParseStatus v = Inr w \<Longrightarrow> w = v"
  by (auto simp: ParseStatus_def split: if_splits)

lemma NewCustomer_Inr:
  assumes "NewCustomer i name e t = Inr c"
  shows "c_id c = i" "c_name c = name" "c_email c = e" "c_status c = StatusActive"
    "c_createdAt c = t" "c_version c = 1"
    "root_events c = [CustomerCreated (CustomerID_String i) name (Email_String e) t]"
    "\<not> CustomerID_IsZero i" "validateName name = None"
  using assms by (auto simp: NewCustomer_def Let_def RecordEvent_def split: if_splits option.splits)

lemma NewCustomer_error: "NewCustomer i name e t = Inl err \<Longrightarrow> errors_Is err ErrValidation"
  by (auto simp: NewCustomer_def validateName_def Let_def split: if_splits)

lemma NewCustomer_ok:
  "NewEmail ul (Email_String e) = Inr e \<Longrightarrow> NewCustomer i name e t = Inr c \<Longrightarrow> customer_ok ul c"
  using NewCustomer_Inr [of i name e t c] by (simp add: customer_ok_def)

lemma ChangeEmail_fields [simp]:
  "c_id (snd (ChangeEmail e t c)) = c_id c" "c_name (snd (ChangeEmail e t c)) = c_name c"
  "c_status (snd (ChangeEmail e t c)) = c_status c"
  "c_createdAt (snd (ChangeEmail e t c)) = c_createdAt c"
  by (simp_all add: ChangeEmail_def Let_def RecordEvent_def)

lemma ChangeEmail_changed:
  assumes "c_status c \<noteq> StatusDeactivated" "e \<noteq> c_email c"
  shows "fst (ChangeEmail e t c) = None" "c_email (snd (ChangeEmail e t c)) = e"
    "c_version (snd (ChangeEmail e t c)) = wrap64 (c_version c + 1)"
    "root_events (snd (ChangeEmail e t c)) = root_events c @
       [CustomerEmailChanged (CustomerID_String (c_id c)) (Email_String (c_email c)) (Email_String e) t]"
proof -
  have "\<not> Email_Equals (c_email c) e" using assms by (metis Email_Equals_def Email.expand)
  with assms show "fst (ChangeEmail e t c) = None" "c_email (snd (ChangeEmail e t c)) = e"
    "c_version (snd (ChangeEmail e t c)) = wrap64 (c_version c + 1)"
    "root_events (snd (ChangeEmail e t c)) = root_events c @
       [CustomerEmailChanged (CustomerID_String (c_id c)) (Email_String (c_email c)) (Email_String e) t]"
    by (simp_all add: ChangeEmail_def Let_def RecordEvent_def)
qed

lemma Deactivate_fields [simp]:
  "c_id (snd (Deactivate r t c)) = c_id c" "c_name (snd (Deactivate r t c)) = c_name c"
  "c_email (snd (Deactivate r t c)) = c_email c"
  "c_createdAt (snd (Deactivate r t c)) = c_createdAt c"
  by (simp_all add: Deactivate_def Let_def RecordEvent_def)

text \<open>The method calls an aggregate receives after it is built or loaded.\<close>

datatype ccall = CallChangeEmail Email gotime | CallDeactivate string gotime

fun customer_call :: "Customer \<Rightarrow> ccall \<Rightarrow> Customer" where
  "customer_call c (CallChangeEmail e t) = snd (ChangeEmail e t c)"
| "customer_call c (CallDeactivate r t) = snd (Deactivate r t c)"

definition call_ok :: "(nat \<Rightarrow> nat) \<Rightarrow> ccall \<Rightarrow> bool" where
  "call_ok ul x \<longleftrightarrow>
     (case x of CallChangeEmail e t \<Rightarrow> NewEmail ul (Email_String e) = Inr e | CallDeactivate r t \<Rightarrow> True)"

lemma customer_call_ok: "customer_ok ul c \<Longrightarrow> call_ok ul x \<Longrightarrow> customer_ok ul (customer_call c x)"
  by (cases x) (auto simp: customer_ok_def call_ok_def ChangeEmail_def Deactivate_def Let_def RecordEvent_def)

lemma customer_calls_ok:
  "customer_ok ul c \<Longrightarrow> \<forall>x \<in> set xs. call_ok ul x \<Longrightarrow> customer_ok ul (foldl customer_call c xs)"
  by (induction xs arbitrary: c) (auto intro: customer_call_ok)


text \<open>A concrete customer, its address and its calls, shared by the witnesses below.\<close>

definition ada_email :: Email where "ada_email = Email ''ada@example.com''"
definition ada_new :: Email where "ada_new = Email ''ada@new.com''"

definition ada :: Customer where
  "ada = \<lparr>root_events = [CustomerCreated ''c-1'' ''Ada'' ''ada@example.com'' 5],
          c_id = CustomerID ''c-1'', c_name = ''Ada'', c_email = ada_email,
          c_status = StatusActive, c_createdAt = 5, c_version = 1\<rparr>"

definition ada_calls :: "ccall list" where
  "ada_calls = [CallChangeEmail ada_new 6, CallDeactivate ''bye'' 7]"

lemma ada_email_ok: "NewEmail ul ''ada@example.com'' = Inr ada_email"
  and ada_new_ok: "NewEmail ul ''ada@new.com'' = Inr ada_new"
  by (simp_all add: NewEmail_def text_eval CountByte_def ada_email_def ada_new_def)

lemma ada_built: "NewCustomer (CustomerID ''c-1'') ''Ada'' ada_email 5 = Inr ada"
  by (simp add: NewCustomer_def CustomerID_IsZero_def validateName_def RecordEvent_def ada_def ada_email_def)

lemma ada_calls_ok: "\<forall>x \<in> set ada_calls. call_ok ul x"
  using ada_new_ok [of ul] by (simp add: ada_calls_def call_ok_def ada_new_def)


subsection \<open>Snapshots lose nothing but the event buffer\<close>

lemma FromSnapshot_Inr_iff:
  "FromSnapshot ul s = Inr c \<longleftrightarrow>
     snap_ID s \<noteq> '''' \<and> NewEmail ul (snap_Email s) = Inr (c_email c) \<and>
     (snap_Status s = StatusActive \<or> snap_Status s = StatusDeactivated) \<and>
     c = \<lparr>root_events = [], c_id = CustomerID (snap_ID s), c_name = snap_Name s, c_email = c_email c,
          c_status = snap_Status s, c_createdAt = snap_CreatedAt s, c_version = snap_Version s\<rparr>"
  by (auto simp: FromSnapshot_def NewCustomerID_def ParseStatus_def split: sum.splits if_splits)

lemma FromSnapshot_fields:
  assumes "FromSnapshot ul s = Inr c"
  shows "c_id c = CustomerID (snap_ID s)" "c_name c = snap_Name s" "c_status c = snap_Status s"
    "c_createdAt c = snap_CreatedAt s" "c_version c = snap_Version s" "root_events c = []"
  using assms by (auto simp: FromSnapshot_def NewCustomerID_def ParseStatus_def split: sum.splits if_splits)

lemma FromSnapshot_ToSnapshot:
  "customer_ok ul c \<Longrightarrow> FromSnapshot ul (ToSnapshot c) = Inr (c\<lparr>root_events := []\<rparr>)"
  by (simp add: FromSnapshot_Inr_iff) (simp add: customer_ok_def ToSnapshot_def CustomerID_IsZero_def)

lemma ToSnapshot_FromSnapshot:
  "FromSnapshot ul s = Inr c \<Longrightarrow> ToSnapshot c = s\<lparr>snap_Email := Email_String (c_email c)\<rparr>"
  unfolding FromSnapshot_Inr_iff by (elim conjE) (erule ssubst, simp add: ToSnapshot_def)

lemma ToSnapshot_simps [simp]:
  "snap_ID (ToSnapshot c) = CustomerID_String (c_id c)" "snap_Name (ToSnapshot c) = c_name c"
  "snap_Email (ToSnapshot c) = Email_String (c_email c)" "snap_Status (ToSnapshot c) = c_status c"
  "snap_CreatedAt (ToSnapshot c) = c_createdAt c" "snap_Version (ToSnapshot c) = c_version c"
  by (simp_all add: ToSnapshot_def)

lemma ToSnapshot_clear [simp]: "ToSnapshot (c\<lparr>root_events := evs\<rparr>) = ToSnapshot c"
  by (simp add: ToSnapshot_def)

text \<open>A well-formed customer survives persistence: rebuilding it from its snapshot gives
  back the same aggregate, with only the buffer of unpublished events emptied. Conversely, a row
  is accepted exactly when its id is not empty, its address validates and its status is known, so
  a corrupt row is refused with an error and never becomes an aggregate.\<close>

theorem snapshot_round_trip:
  assumes "customer_ok ul c"
  shows "FromSnapshot ul (ToSnapshot c) = Inr (c\<lparr>root_events := []\<rparr>) \<and>
         (\<forall>s. (\<exists>c'. FromSnapshot ul s = Inr c') \<longleftrightarrow>
              snap_ID s \<noteq> '''' \<and> (\<exists>e. NewEmail ul (snap_Email s) = Inr e) \<and>
              (snap_Status s = StatusActive \<or> snap_Status s = StatusDeactivated))"
proof (intro conjI allI)
  show "FromSnapshot ul (ToSnapshot c) = Inr (c\<lparr>root_events := []\<rparr>)"
    using assms by (rule FromSnapshot_ToSnapshot)
  show "(\<exists>c'. FromSnapshot ul s = Inr c') \<longleftrightarrow>
      snap_ID s \<noteq> '''' \<and> (\<exists>e. NewEmail ul (snap_Email s) = Inr e) \<and>
      (snap_Status s = StatusActive \<or> snap_Status s = StatusDeactivated)" for s
    by (auto simp: FromSnapshot_def NewCustomerID_def ParseStatus_def split: sum.splits if_splits)
qed

lemma ada_ok: "customer_ok ul ada"
  using ada_email_ok [of ul]
  by (simp add: customer_ok_def ada_def ada_email_def CustomerID_IsZero_def validateName_def)

theorem snapshot_round_trip_witness:
  "FromSnapshot (\<lambda>r. r) (ToSnapshot ada) = Inr (ada\<lparr>root_events := []\<rparr>)"
  using snapshot_round_trip [OF ada_ok] by blast

subsection \<open>Deactivation is final\<close>

lemma deactivated_call: "c_status c = StatusDeactivated \<Longrightarrow> customer_call c x = c"
  by (cases x) (simp_all add: ChangeEmail_def Deactivate_def)

lemma deactivated_calls: "c_status c = StatusDeactivated \<Longrightarrow> foldl customer_call c xs = c"
  by (induction xs) (simp_all add: deactivated_call)

text \<open>Deactivation is final and idempotent. After \<open>Deactivate\<close> the status is
  deactivated, a change of address is refused with \<open>ErrConflict\<close> and changes nothing, and no
  further sequence of calls changes the aggregate or records another event.\<close>

theorem deactivation_is_final:
  "fst (Deactivate r t c) = None \<and> c_status (snd (Deactivate r t c)) = StatusDeactivated \<and>
   ChangeEmail e t' (snd (Deactivate r t c)) = (Some ErrConflict, snd (Deactivate r t c)) \<and>
   foldl customer_call (snd (Deactivate r t c)) xs = snd (Deactivate r t c)"
proof -
  have st: "c_status (snd (Deactivate r t c)) = StatusDeactivated"
    by (simp add: Deactivate_def Let_def RecordEvent_def)
  then show ?thesis
    by (simp add: deactivated_calls ChangeEmail_def) (simp add: Deactivate_def Let_def)
qed

subsection \<open>The event log tells the whole story\<close>

text \<open>Rebuilding a customer from its events alone; \<open>None\<close> when the history makes no sense.\<close>

fun replay1 :: "Snapshot option \<Rightarrow> customer_event \<Rightarrow> Snapshot option" where
  "replay1 None (CustomerCreated i n e t) =
     Some \<lparr>snap_ID = i, snap_Name = n, snap_Email = e, snap_Status = StatusActive,
           snap_CreatedAt = t, snap_Version = 1\<rparr>"
| "replay1 (Some s) (CustomerEmailChanged i old new t) =
     (if i = snap_ID s \<and> old = snap_Email s \<and> new \<noteq> old \<and> snap_Status s = StatusActive
      then Some (s\<lparr>snap_Email := new, snap_Version := wrap64 (snap_Version s + 1)\<rparr>) else None)"
| "replay1 (Some s) (CustomerDeactivated i r t) =
     (if i = snap_ID s \<and> snap_Status s = StatusActive
      then Some (s\<lparr>snap_Status := StatusDeactivated, snap_Version := wrap64 (snap_Version s + 1)\<rparr>)
      else None)"
| "replay1 _ _ = None"

definition replay :: "customer_event list \<Rightarrow> Snapshot option" where
  "replay evs = foldl replay1 None evs"

lemma replay_snoc: "replay (evs @ [ev]) = replay1 (replay evs) ev"
  by (simp add: replay_def)

lemma replay_call:
  assumes "replay (root_events c) = Some (ToSnapshot c)"
    and "c_status c = StatusActive \<or> c_status c = StatusDeactivated"
  shows "replay (root_events (customer_call c x)) = Some (ToSnapshot (customer_call c x))"
  using assms
  by (cases x)
    (auto simp: ChangeEmail_def Deactivate_def Let_def RecordEvent_def replay_snoc ToSnapshot_def
      Email_Equals_def)

lemma replay_calls:
  "replay (root_events c) = Some (ToSnapshot c) \<Longrightarrow> customer_ok ul c \<Longrightarrow> \<forall>x \<in> set xs. call_ok ul x \<Longrightarrow>
   replay (root_events (foldl customer_call c xs)) = Some (ToSnapshot (foldl customer_call c xs))"
proof (induction xs arbitrary: c)
  case Nil
  then show ?case by simp
next
  case (Cons x xs)
  then have "replay (root_events (customer_call c x)) = Some (ToSnapshot (customer_call c x))"
    by (intro replay_call) (auto simp: customer_ok_def)
  with Cons show ?case by (simp add: customer_call_ok)
qed

text \<open>Property C14: the events an aggregate buffers record every transition and nothing else:
  replaying them from nothing, with each event checked against the state it claims to start from,
  rebuilds exactly the current snapshot, version included, after any sequence of calls.\<close>

theorem events_record_every_transition:
  assumes "NewEmail ul (Email_String e) = Inr e" and "NewCustomer i name e t = Inr c"
    and "\<forall>x \<in> set xs. call_ok ul x"
  shows "replay (root_events (foldl customer_call c xs)) = Some (ToSnapshot (foldl customer_call c xs))"
proof (rule replay_calls)
  show "customer_ok ul c" using assms(1,2) by (rule NewCustomer_ok)
  show "replay (root_events c) = Some (ToSnapshot c)"
    using NewCustomer_Inr [OF assms(2)] by (simp add: replay_def ToSnapshot_def)
qed (rule assms(3))

theorem events_record_every_transition_witness:
  "replay (root_events (foldl customer_call ada ada_calls))
     = Some (ToSnapshot (foldl customer_call ada ada_calls))"
  using events_record_every_transition [OF _ ada_built ada_calls_ok] ada_email_ok
  by (simp add: ada_email_def)

end
