(* ===== verification/CustomerRepository.thy ===== *)
theory CustomerRepository
  imports CustomerDomain
begin

text \<open>
  The customer repository port (\<open>customer_repository.go\<close>) as a locale, the e-mail uniqueness
  service that reads it (\<open>services/email_uniqueness.go\<close>) and the in-memory adapter
  (\<open>infrastructure/persistence/memory/repository.go\<close>) with its interpretation. The mutex of
  the adapter makes each method atomic, so a method is one function on the store.
\<close>

subsection \<open>The email-uniqueness policy\<close>

text \<open>\<open>EnsureAvailable\<close> with the repository's \<open>ExistsByEmail\<close> as an argument.\<close>

definition EnsureAvailable :: "(Email \<Rightarrow> 'w \<Rightarrow> bool result) \<Rightarrow> Email \<Rightarrow> 'w \<Rightarrow> gerr option" where
  "EnsureAvailable existsByEmail email w =
     (case existsByEmail email w of
        Inl err \<Rightarrow> Some err
      | Inr taken \<Rightarrow> if taken then Some ErrConflict else None)"

subsection \<open>What a repository promises\<close>

type_synonym rows = "string \<rightharpoonup> Snapshot"

definition email_taken :: "rows \<Rightarrow> string \<Rightarrow> bool" where
  "email_taken m e \<longleftrightarrow> (\<exists>i s. m i = Some s \<and> snap_Email s = e)"

definition email_free_for :: "rows \<Rightarrow> string \<Rightarrow> string \<Rightarrow> bool" where
  "email_free_for m i e \<longleftrightarrow> (\<forall>j s. m j = Some s \<longrightarrow> snap_Email s = e \<longrightarrow> j = i)"

definition unique_emails :: "rows \<Rightarrow> bool" where
  "unique_emails m \<longleftrightarrow>
     (\<forall>i j s t. m i = Some s \<longrightarrow> m j = Some t \<longrightarrow> snap_Email s = snap_Email t \<longrightarrow> i = j)"

lemma unique_emails_upd:
  "unique_emails m \<Longrightarrow> email_free_for m i (snap_Email s) \<Longrightarrow> unique_emails (m(i \<mapsto> s))"
  unfolding unique_emails_def email_free_for_def by (auto split: if_splits)

text \<open>
  The port: rows keyed by id are the abstract state. \<open>find\<close> rebuilds an aggregate from its row,
  \<open>save\<close> writes the snapshot or fails and changes nothing, \<open>existsByEmail\<close> answers from the
  rows, and the store's invariant (which includes that an address identifies one row) survives a
  save of an address no other row holds.
\<close>

locale customer_repository =
  fixes find :: "CustomerID \<Rightarrow> 'w \<Rightarrow> Customer result"
    and save :: "Customer \<Rightarrow> 'w \<Rightarrow> gerr option \<times> 'w"
    and existsByEmail :: "Email \<Rightarrow> 'w \<Rightarrow> bool result"
    and row :: "'w \<Rightarrow> rows"
    and inv :: "'w \<Rightarrow> bool"
    and ul :: "nat \<Rightarrow> nat"
  assumes find_row: "find i w =
      (case row w (CustomerID_String i) of None \<Rightarrow> Inl ErrNotFound | Some s \<Rightarrow> FromSnapshot ul s)"
    and save_row: "save c w = (None, w') \<Longrightarrow>
      row w' = (row w)(CustomerID_String (c_id c) \<mapsto> ToSnapshot c)"
    and save_error: "save c w = (Some err, w') \<Longrightarrow> w' = w"
    and save_stale: "row w (CustomerID_String (c_id c)) = Some s \<Longrightarrow> c_version c < snap_Version s \<Longrightarrow>
      fst (save c w) = Some ErrConflict"
    and save_new: "inv w \<Longrightarrow> row w (CustomerID_String (c_id c)) = None \<Longrightarrow>
      \<not> email_taken (row w) (Email_String (c_email c)) \<Longrightarrow> fst (save c w) = None"
    and save_inv: "inv w \<Longrightarrow> email_free_for (row w) (CustomerID_String (c_id c)) (Email_String (c_email c)) \<Longrightarrow>
      inv (snd (save c w))"
    and inv_unique: "inv w \<Longrightarrow> unique_emails (row w)"
    and exists_row: "inv w \<Longrightarrow> existsByEmail e w = Inr b \<Longrightarrow> b \<longleftrightarrow> email_taken (row w) (Email_String e)"
begin

lemma EnsureAvailable_None:
  "inv w \<Longrightarrow> EnsureAvailable existsByEmail e w = None \<Longrightarrow> \<not> email_taken (row w) (Email_String e)"
  using exists_row [of w e] by (auto simp: EnsureAvailable_def split: sum.splits if_splits)

lemma EnsureAvailable_Conflict:
  "inv w \<Longrightarrow> existsByEmail e w = Inr b \<Longrightarrow> email_taken (row w) (Email_String e) \<Longrightarrow>
   EnsureAvailable existsByEmail e w = Some ErrConflict"
  using exists_row [of w e b] by (simp add: EnsureAvailable_def)

text \<open>Saving an address the policy just found available keeps every address unique.\<close>

lemma checked_save:
  assumes "inv w" "EnsureAvailable existsByEmail (c_email c) w = None"
  shows "inv (snd (save c w))" and "unique_emails (row (snd (save c w)))"
proof -
  have "email_free_for (row w) (CustomerID_String (c_id c)) (Email_String (c_email c))"
    using EnsureAvailable_None [OF assms] by (auto simp: email_free_for_def email_taken_def)
  with assms(1) show "inv (snd (save c w))" by (rule save_inv)
  then show "unique_emails (row (snd (save c w)))" by (rule inv_unique)
qed

lemma find_Inr:
  "find i w = Inr c \<Longrightarrow> \<exists>s. row w (CustomerID_String i) = Some s \<and> FromSnapshot ul s = Inr c"
  by (auto simp: find_row split: option.splits)

lemma find_saved:
  assumes "save c w = (None, w')" "customer_ok ul c"
  shows "find (c_id c) w' = Inr (c\<lparr>root_events := []\<rparr>)"
  using assms by (simp add: find_row save_row FromSnapshot_ToSnapshot)

end

subsection \<open>The in-memory adapter\<close>

record MemRepository =
  byID :: "string \<rightharpoonup> Snapshot"
  byEmail :: "string \<rightharpoonup> string"

definition mem_New :: MemRepository where
  "mem_New = \<lparr>byID = Map.empty, byEmail = Map.empty\<rparr>"

definition mem_FindByID :: "(nat \<Rightarrow> nat) \<Rightarrow> CustomerID \<Rightarrow> MemRepository \<Rightarrow> Customer result" where
  "mem_FindByID ul i r =
     (case byID r (CustomerID_String i) of
        None \<Rightarrow> Inl ErrNotFound
      | Some snap \<Rightarrow> FromSnapshot ul snap)"

definition mem_Save :: "Customer \<Rightarrow> MemRepository \<Rightarrow> gerr option \<times> MemRepository" where
  "mem_Save customer r =
     (let snap = ToSnapshot customer in
      if (case byID r (snap_ID snap) of None \<Rightarrow> False | Some existing \<Rightarrow> snap_Version existing > snap_Version snap)
      then (Some ErrConflict, r)
      else
        let byEmail1 =
              (case byID r (snap_ID snap) of
                 None \<Rightarrow> byEmail r
               | Some existing \<Rightarrow>
                   if snap_Email existing \<noteq> snap_Email snap
                   then (byEmail r)(snap_Email existing := None) else byEmail r)
        in (None, r\<lparr>byID := (byID r)(snap_ID snap \<mapsto> snap),
                    byEmail := byEmail1(snap_Email snap \<mapsto> snap_ID snap)\<rparr>))"

definition mem_ExistsByEmail :: "Email \<Rightarrow> MemRepository \<Rightarrow> bool result" where
  "mem_ExistsByEmail email r = Inr (byEmail r (Email_String email) \<noteq> None)"

text \<open>The store's invariant: rows sit under their own id and the index is exactly their inverse.\<close>

definition mem_inv :: "MemRepository \<Rightarrow> bool" where
  "mem_inv r \<longleftrightarrow>
     (\<forall>i s. byID r i = Some s \<longrightarrow> snap_ID s = i) \<and>
     (\<forall>e i. byEmail r e = Some i \<longleftrightarrow> (\<exists>s. byID r i = Some s \<and> snap_Email s = e))"

lemma mem_New_inv: "mem_inv mem_New"
  by (simp add: mem_inv_def mem_New_def)

lemma mem_inv_unique: "mem_inv r \<Longrightarrow> unique_emails (byID r)"
  unfolding mem_inv_def unique_emails_def by (metis option.inject)

lemma mem_Save_byID: "mem_Save c r = (None, r') \<Longrightarrow> byID r' = (byID r)(CustomerID_String (c_id c) \<mapsto> ToSnapshot c)"
  by (auto simp: mem_Save_def Let_def split: if_splits)

lemma mem_Save_result:
  "fst (mem_Save c r) = None \<longleftrightarrow>
     (\<forall>s. byID r (CustomerID_String (c_id c)) = Some s \<longrightarrow> snap_Version s \<le> c_version c)"
  by (auto simp: mem_Save_def Let_def split: option.splits)

lemma mem_Save_inv:
  assumes inv: "mem_inv r" and free: "email_free_for (byID r) (CustomerID_String (c_id c)) (Email_String (c_email c))"
  shows "mem_inv (snd (mem_Save c r))"
proof (cases "fst (mem_Save c r)")
  case (Some err)
  then have "snd (mem_Save c r) = r" by (auto simp: mem_Save_def Let_def split: if_splits)
  with inv show ?thesis by simp
next
  case None
  let ?i = "CustomerID_String (c_id c)" and ?e = "Email_String (c_email c)"
  let ?r = "snd (mem_Save c r)"
  have rows: "byID ?r = (byID r)(?i \<mapsto> ToSnapshot c)"
    using None by (intro mem_Save_byID) (simp add: prod_eq_iff)
  have idx: "byEmail ?r = (case byID r ?i of None \<Rightarrow> byEmail r
      | Some s \<Rightarrow> if snap_Email s \<noteq> ?e then (byEmail r)(snap_Email s := None) else byEmail r)(?e \<mapsto> ?i)"
    using None by (auto simp: mem_Save_def Let_def split: if_splits option.splits)
  have ix: "byEmail r e = Some i \<longleftrightarrow> (\<exists>s. byID r i = Some s \<and> snap_Email s = e)" for e i
    using inv by (auto simp: mem_inv_def)
  have "byEmail ?r e = Some i \<longleftrightarrow> (\<exists>s. byID ?r i = Some s \<and> snap_Email s = e)" for e i
  proof (cases "e = ?e")
    case True
    with free show ?thesis by (auto simp: rows idx email_free_for_def)
  next
    case False
    then show ?thesis
      using ix [of e i] ix [of e ?i] by (cases "byID r ?i") (auto simp: rows idx)
  qed
  moreover have "byID ?r i = Some s \<Longrightarrow> snap_ID s = i" for i s
    using inv by (auto simp: rows mem_inv_def split: if_splits)
  ultimately show ?thesis by (auto simp: mem_inv_def)
qed

interpretation mem: customer_repository "mem_FindByID ul" mem_Save mem_ExistsByEmail byID mem_inv ul
proof unfold_locales
  fix c :: Customer and w w' :: MemRepository and err i e b s
  show "mem_FindByID ul i w = (case byID w (CustomerID_String i) of
      None \<Rightarrow> Inl ErrNotFound | Some s \<Rightarrow> FromSnapshot ul s)"
    by (simp add: mem_FindByID_def)
  show "mem_Save c w = (None, w') \<Longrightarrow> byID w' = (byID w)(CustomerID_String (c_id c) \<mapsto> ToSnapshot c)"
    by (rule mem_Save_byID)
  show "mem_Save c w = (Some err, w') \<Longrightarrow> w' = w"
    by (auto simp: mem_Save_def Let_def split: if_splits)
  show "byID w (CustomerID_String (c_id c)) = Some s \<Longrightarrow> c_version c < snap_Version s \<Longrightarrow>
      fst (mem_Save c w) = Some ErrConflict"
    by (simp add: mem_Save_def Let_def)
  show "byID w (CustomerID_String (c_id c)) = None \<Longrightarrow> fst (mem_Save c w) = None"
    by (simp add: mem_Save_result)
  show "mem_inv w \<Longrightarrow> email_free_for (byID w) (CustomerID_String (c_id c)) (Email_String (c_email c)) \<Longrightarrow>
      mem_inv (snd (mem_Save c w))"
    by (rule mem_Save_inv)
  show "mem_inv w \<Longrightarrow> unique_emails (byID w)"
    by (rule mem_inv_unique)
  show "mem_inv w \<Longrightarrow> mem_ExistsByEmail e w = Inr b \<Longrightarrow> b = email_taken (byID w) (Email_String e)"
    by (auto simp: mem_ExistsByEmail_def mem_inv_def email_taken_def)
qed
subsection \<open>Properties of the adapter\<close>

text \<open>Saving then loading gives the aggregate back. When \<open>Save\<close> reports success the
  row of that id, and no other, is the aggregate's snapshot, and \<open>FindByID\<close> returns the aggregate
  with its event buffer emptied; when it reports an error nothing was written.\<close>

theorem mem_save_then_find:
  assumes "customer_ok ul c"
  shows "case mem_Save c r of
           (None, r') \<Rightarrow> mem_FindByID ul (c_id c) r' = Inr (c\<lparr>root_events := []\<rparr>) \<and>
                         byID r' = (byID r)(CustomerID_String (c_id c) \<mapsto> ToSnapshot c)
         | (Some err, r') \<Rightarrow> err = ErrConflict \<and> r' = r"
proof (cases "mem_Save c r")
  case (Pair res r')
  show ?thesis
  proof (cases res)
    case None
    with Pair assms show ?thesis by (simp add: mem.find_saved mem_Save_byID)
  next
    case (Some err)
    with Pair show ?thesis by (auto simp: mem_Save_def Let_def split: if_splits)
  qed
qed

theorem mem_save_then_find_witness:
  "case mem_Save ada mem_New of
     (None, r') \<Rightarrow> mem_FindByID (\<lambda>r. r) (c_id ada) r' = Inr (ada\<lparr>root_events := []\<rparr>) \<and>
                   byID r' = (byID mem_New)(CustomerID_String (c_id ada) \<mapsto> ToSnapshot ada)
   | (Some err, r') \<Rightarrow> err = ErrConflict \<and> r' = mem_New"
  by (rule mem_save_then_find [OF ada_ok])

text \<open>The email index stays exactly the inverse of the rows, so an address identifies at
  most one customer, across every sequence of saves each of which writes an address that no other
  row holds (what \<open>EmailUniqueness\<close> checks); this includes the removal of a customer's old
  address when it changes.\<close>

theorem mem_index_consistent:
  assumes "mem_inv r" and "email_free_for (byID r) (CustomerID_String (c_id c)) (Email_String (c_email c))"
  shows "mem_inv (snd (mem_Save c r)) \<and> unique_emails (byID (snd (mem_Save c r))) \<and>
         (\<forall>e b. mem_ExistsByEmail e (snd (mem_Save c r)) = Inr b \<longrightarrow>
                b = email_taken (byID (snd (mem_Save c r))) (Email_String e))"
  using assms mem.save_inv mem.inv_unique mem.exists_row by metis

theorem mem_index_consistent_witness:
  "mem_inv (snd (mem_Save ada mem_New)) \<and> unique_emails (byID (snd (mem_Save ada mem_New))) \<and>
   mem_ExistsByEmail ada_email (snd (mem_Save ada mem_New)) = Inr (email_taken (byID (snd (mem_Save ada mem_New))) ''ada@example.com'')"
proof -
  have "email_free_for (byID mem_New) (CustomerID_String (c_id ada)) (Email_String (c_email ada))"
    by (simp add: mem_New_def email_free_for_def)
  note c = mem_index_consistent [OF mem_New_inv this]
  moreover have "mem_ExistsByEmail ada_email (snd (mem_Save ada mem_New)) =
      Inr (email_taken (byID (snd (mem_Save ada mem_New))) (Email_String ada_email))"
    using c by (simp add: mem_ExistsByEmail_def)
  ultimately show ?thesis by (simp add: ada_email_def)
qed

text \<open>The optimistic-concurrency check of the in-memory \<open>Save\<close> refuses an aggregate older
  than the stored row, but not one of the same version. So two writers that loaded the same row
  and each changed the address once both succeed, and the second silently overwrites the first,
  although the port asks for \<open>ErrConflict\<close> on a version mismatch.\<close>

theorem mem_save_lost_update:
  assumes "mem_inv r" and "mem_FindByID ul i r = Inr c"
    and "c_status c = StatusActive" "e1 \<noteq> c_email c" "e2 \<noteq> c_email c"
    and "- (2 ^ 63) \<le> c_version c" "c_version c < 2 ^ 63 - 1"
  shows "let c1 = snd (ChangeEmail e1 t1 c); c2 = snd (ChangeEmail e2 t2 c);
             r1 = snd (mem_Save c1 r); r2 = snd (mem_Save c2 r1) in
         fst (mem_Save c1 r) = None \<and> fst (mem_Save c2 r1) = None \<and>
         byID r2 (CustomerID_String i) = Some (ToSnapshot c2) \<and> snap_Version (ToSnapshot c1) = snap_Version (ToSnapshot c2)"
proof -
  define c1 c2 where "c1 = snd (ChangeEmail e1 t1 c)" and "c2 = snd (ChangeEmail e2 t2 c)"
  obtain s where s: "byID r (CustomerID_String i) = Some s" "FromSnapshot ul s = Inr c"
    using mem.find_Inr [OF assms(2)] by blast
  then have "snap_ID s = CustomerID_String i" using assms(1) by (simp add: mem_inv_def)
  with s have c: "c_id c = i" "snap_Version s = c_version c"
    using FromSnapshot_fields [OF s(2)] by simp_all
  have v: "c_version c1 = c_version c + 1" "c_version c2 = c_version c + 1"
    and i: "c_id c1 = i" "c_id c2 = i"
    using ChangeEmail_changed [of c e1 t1] ChangeEmail_changed [of c e2 t2] assms(3-7) c
    by (simp_all add: c1_def c2_def wrap64_id)
  let ?r1 = "snd (mem_Save c1 r)" and ?r2 = "snd (mem_Save c2 (snd (mem_Save c1 r)))"
  have s1: "fst (mem_Save c1 r) = None" using s c v i by (simp add: mem_Save_result)
  then have "byID ?r1 = (byID r)(CustomerID_String i \<mapsto> ToSnapshot c1)"
    using mem_Save_byID [of c1 r ?r1] i by (simp add: prod_eq_iff)
  then have s2: "fst (mem_Save c2 ?r1) = None" using v i by (simp add: mem_Save_result)
  then have "byID ?r2 (CustomerID_String i) = Some (ToSnapshot c2)"
    using mem_Save_byID [of c2 ?r1 ?r2] i by (simp add: prod_eq_iff)
  with s1 s2 v show ?thesis by (simp add: Let_def c1_def c2_def)
qed

definition ada_repo :: MemRepository where
  "ada_repo = \<lparr>byID = [''c-1'' \<mapsto> ToSnapshot ada], byEmail = [''ada@example.com'' \<mapsto> ''c-1'']\<rparr>"

lemma ada_repo_saved: "ada_repo = snd (mem_Save ada mem_New)"
  by (simp add: mem_Save_def mem_New_def ada_repo_def ada_def ada_email_def Let_def)

lemma ada_repo_inv: "mem_inv ada_repo"
  unfolding ada_repo_saved by (rule mem_Save_inv [OF mem_New_inv]) (simp add: mem_New_def email_free_for_def)

lemma ada_repo_find: "mem_FindByID ul (CustomerID ''c-1'') ada_repo = Inr (ada\<lparr>root_events := []\<rparr>)"
  using FromSnapshot_ToSnapshot [OF ada_ok] by (simp add: mem_FindByID_def ada_repo_def)

theorem mem_save_lost_update_witness:
  "let c = ada\<lparr>root_events := []\<rparr>; c1 = snd (ChangeEmail (Email ''a@b.c'') 8 c); c2 = snd (ChangeEmail ada_new 9 c);
       r1 = snd (mem_Save c1 ada_repo); r2 = snd (mem_Save c2 r1) in
   fst (mem_Save c1 ada_repo) = None \<and> fst (mem_Save c2 r1) = None \<and>
   byID r2 ''c-1'' = Some (ToSnapshot c2) \<and> snap_Version (ToSnapshot c1) = snap_Version (ToSnapshot c2)"
  using mem_save_lost_update [OF ada_repo_inv ada_repo_find, of "Email ''a@b.c''" ada_new 8 9]
  by (simp add: ada_def ada_email_def ada_new_def)

end
