(* ===== verification/EventBus.thy ===== *)
theory EventBus
  imports CustomerRepository
begin

text \<open>
  The transport-agnostic bus of \<open>internal/eventbus\<close> and its in-process implementation
  \<open>internal/eventbus/local\<close>: the event envelope, handlers and the middleware that decorates
  them, publishers, and the bus that fans an event out to the handlers of its name.

  Effects are explicit: \<open>'w\<close> is the state that handlers, the clock and the logger act on, and a
  handler is a function from an event and that state to its outcome (the error it returns, or a
  panic) and the next state. The clock and the logger a component is built with are an \<open>env\<close>.
\<close>

record Event =
  ev_ID :: string
  ev_Name :: string
  ev_Source :: string
  ev_AggregateID :: string
  ev_OccurredAt :: gotime
  ev_Version :: int
  ev_CorrelationID :: string
  ev_CausationID :: string
  ev_Payload :: string
  ev_Metadata :: "string \<rightharpoonup> string"

datatype log_level = LevelDebug | LevelInfo | LevelWarn | LevelError

text \<open>An attribute of a log record; a duration stands for the text that \<open>Duration.String\<close> makes of it.\<close>

datatype log_attr = AttrText string | AttrTexts "string list" | AttrInt int | AttrError gerr | AttrDuration int

record log_record =
  log_level :: log_level
  log_msg :: string
  log_attrs :: "(string \<times> log_attr) list"

definition log_rec :: "log_level \<Rightarrow> string \<Rightarrow> (string \<times> log_attr) list \<Rightarrow> log_record" where
  "log_rec l m as = \<lparr>log_level = l, log_msg = m, log_attrs = as\<rparr>"

record 'w env =
  clock_now :: "'w \<Rightarrow> gotime \<times> 'w"
  log_write :: "log_record \<Rightarrow> 'w \<Rightarrow> 'w"

type_synonym ('a, 'w) action = "'w \<Rightarrow> 'a outcome \<times> 'w"
type_synonym 'w handler = "Event \<Rightarrow> (gerr option, 'w) action"
type_synonym 'w middleware = "'w handler \<Rightarrow> 'w handler"
type_synonym 'w publisher = "Event list \<Rightarrow> (gerr option, 'w) action"

fun returns :: "'a outcome \<Rightarrow> bool" where
  "returns (Return a) = True"
| "returns (Panic p) = False"

lemma returnsE: "returns r \<Longrightarrow> (\<And>a. r = Return a \<Longrightarrow> P) \<Longrightarrow> P"
  by (cases r) simp_all

text \<open>The result of a Go duration's \<open>Milliseconds\<close>: the quotient rounded towards zero.\<close>

definition Milliseconds :: "int \<Rightarrow> int" where
  "Milliseconds d = (if 0 \<le> d then d div 1000000 else - (- d div 1000000))"

subsection \<open>Middleware\<close>

text \<open>The loop of \<open>Chain\<close> runs from the last decorator to the first.\<close>

fun Chain :: "'w handler \<Rightarrow> 'w middleware list \<Rightarrow> 'w handler" where
  "Chain h [] = h"
| "Chain h (m # mw) = m (Chain h mw)"

definition Recover :: "'w env \<Rightarrow> 'w middleware" where
  "Recover env next e w =
    (case next e w of
      (Return err, w') \<Rightarrow> (Return err, w')
    | (Panic p, w') \<Rightarrow>
        (Return (Some (ErrorString (''handler panic: '' @ p))),
         log_write env (log_rec LevelError ''event handler panicked''
           [(''event'', AttrText (ev_Name e)), (''panic'', AttrText p)]) w'))"

definition Logging :: "'w env \<Rightarrow> 'w middleware" where
  "Logging env next e w =
    (let (start, w1) = clock_now env w in
     case next e w1 of
       (Panic p, w2) \<Rightarrow> (Panic p, w2)
     | (Return err, w2) \<Rightarrow>
         let (stop, w3) = clock_now env w2;
             attrs = [(''event'', AttrText (ev_Name e)), (''event_id'', AttrText (ev_ID e)),
                      (''aggregate_id'', AttrText (ev_AggregateID e)),
                      (''duration_ms'', AttrInt (Milliseconds (stop - start)))]
         in (Return err,
             case err of
               Some x \<Rightarrow> log_write env (log_rec LevelError ''event handler failed'' (attrs @ [(''error'', AttrError x)])) w3
             | None \<Rightarrow> log_write env (log_rec LevelDebug ''event handled'' attrs) w3))"

subsection \<open>Publishers\<close>

text \<open>\<open>PublisherFunc\<close> is the identity on functions; \<open>Nop\<close> discards everything.\<close>

definition PublisherFunc_Publish :: "'w publisher \<Rightarrow> 'w publisher" where
  "PublisherFunc_Publish f events = f events"

definition Nop_Publish :: "'w publisher" where
  "Nop_Publish events w = (Return None, w)"

subsection \<open>The local bus\<close>

record 'w Bus =
  bus_handlers :: "string \<rightharpoonup> 'w handler list"
  bus_mw :: "'w middleware list"
  bus_env :: "'w env"

definition Bus_New :: "'w env \<Rightarrow> 'w middleware list \<Rightarrow> 'w Bus" where
  "Bus_New env mw = \<lparr>bus_handlers = Map.empty, bus_mw = mw, bus_env = env\<rparr>"

text \<open>Looking up an absent key of the map of handlers gives the nil slice.\<close>

definition handlers_of :: "'w Bus \<Rightarrow> string \<Rightarrow> 'w handler list" where
  "handlers_of b n = (case bus_handlers b n of None \<Rightarrow> [] | Some hs \<Rightarrow> hs)"

text \<open>\<open>Subscribe\<close>; a nil handler is \<open>None\<close>. It changes the bus, and logs to the state.\<close>

definition Subscribe ::
  "string \<Rightarrow> 'w handler option \<Rightarrow> 'w Bus \<Rightarrow> 'w \<Rightarrow> gerr option \<times> 'w Bus \<times> 'w" where
  "Subscribe eventName handler b w =
    (if eventName = [] \<or> Option.is_none handler
     then (Some (ErrorString ''local: eventName and handler are required''), b, w)
     else (None,
           b\<lparr>bus_handlers := (bus_handlers b)(eventName \<mapsto>
               handlers_of b eventName @ [Chain (the handler) (bus_mw b)])\<rparr>,
           log_write (bus_env b) (log_rec LevelDebug ''event subscription registered''
             [(''event'', AttrText eventName)]) w))"

text \<open>The inner loop of \<open>Publish\<close>: every handler runs; errors are collected.\<close>

fun deliver :: "'w handler list \<Rightarrow> Event \<Rightarrow> gerr list \<Rightarrow> (gerr list, 'w) action" where
  "deliver [] e errs w = (Return errs, w)"
| "deliver (h # hs) e errs w =
    (case h e w of
      (Panic p, w') \<Rightarrow> (Panic p, w')
    | (Return None, w') \<Rightarrow> deliver hs e errs w'
    | (Return (Some err), w') \<Rightarrow> deliver hs e (errs @ [err]) w')"

fun publish_loop :: "'w Bus \<Rightarrow> Event list \<Rightarrow> gerr list \<Rightarrow> (gerr list, 'w) action" where
  "publish_loop b [] errs w = (Return errs, w)"
| "publish_loop b (e # es) errs w =
    (if handlers_of b (ev_Name e) = []
     then publish_loop b es errs
            (log_write (bus_env b) (log_rec LevelDebug ''no subscribers for event''
               [(''event'', AttrText (ev_Name e))]) w)
     else case deliver (handlers_of b (ev_Name e)) e errs w of
            (Panic p, w') \<Rightarrow> (Panic p, w')
          | (Return errs', w') \<Rightarrow> publish_loop b es errs' w')"

definition Bus_Publish :: "'w Bus \<Rightarrow> 'w publisher" where
  "Bus_Publish b events w =
    (case publish_loop b events [] w of
      (Panic p, w') \<Rightarrow> (Panic p, w')
    | (Return errs, w') \<Rightarrow> (Return (errors_Join errs), w'))"


subsection \<open>What the middleware guarantees\<close>

lemma Chain_append: "Chain h (ms @ ns) = Chain (Chain h ns) ms"
  by (induction ms) simp_all

lemma Recover_returns: "returns (fst (Recover env next e w))"
  by (simp add: Recover_def split: prod.split outcome.split)

lemma Recover_Return: "next e w = (Return r, w') \<Longrightarrow> Recover env next e w = (Return r, w')"
  by (simp add: Recover_def)

lemma Recover_Panic: "next e w = (Panic p, w') \<Longrightarrow>
    fst (Recover env next e w) = Return (Some (ErrorString (''handler panic: '' @ p)))"
  by (simp add: Recover_def)

lemma Logging_fst: "fst (Logging env next e w) = fst (next e (snd (clock_now env w)))"
  by (simp add: Logging_def Let_def split: prod.split outcome.split)

text \<open>
  The contract of a middleware stack the dispatch loop relies on: whatever the handler does, the
  decorated one returns.
\<close>

locale guarded =
  fixes mw :: "'w middleware list"
  assumes chain_returns: "returns (fst (Chain h mw e w))"
begin

definition bus_ok :: "'w Bus \<Rightarrow> bool" where
  "bus_ok b \<longleftrightarrow> bus_mw b = mw \<and> (\<forall>n. \<forall>h \<in> set (handlers_of b n). \<exists>h0. h = Chain h0 mw)"

lemma New_ok: "bus_ok (Bus_New env mw)"
  by (simp add: bus_ok_def Bus_New_def handlers_of_def)

lemma Subscribe_ok: "bus_ok b \<Longrightarrow> bus_ok (fst (snd (Subscribe n h b w)))"
  by (auto simp: bus_ok_def Subscribe_def handlers_of_def split: option.splits)

lemma handler_returns: "bus_ok b \<Longrightarrow> h \<in> set (handlers_of b n) \<Longrightarrow> returns (fst (h e w))"
  using chain_returns by (fastforce simp: bus_ok_def)

end

interpretation recovering: guarded "Recover env # mws" for env mws
  by unfold_locales (simp add: Recover_returns)

subsection \<open>Delivery\<close>

text \<open>
  What a delivery ought to be: every handler of the event runs once, in the order of
  subscription, and the errors they return are collected in that order.
\<close>

definition run_handlers :: "'w handler list \<Rightarrow> Event \<Rightarrow> 'w \<Rightarrow> 'w" where
  "run_handlers hs e w = fold (\<lambda>h w. snd (h e w)) hs w"

fun handler_errors :: "'w handler list \<Rightarrow> Event \<Rightarrow> 'w \<Rightarrow> gerr list" where
  "handler_errors [] e w = []"
| "handler_errors (h # hs) e w =
    (case fst (h e w) of Return (Some x) \<Rightarrow> [x] | _ \<Rightarrow> []) @ handler_errors hs e (snd (h e w))"

definition event_effect :: "'w Bus \<Rightarrow> Event \<Rightarrow> 'w \<Rightarrow> 'w" where
  "event_effect b e w =
    (if handlers_of b (ev_Name e) = []
     then log_write (bus_env b) (log_rec LevelDebug ''no subscribers for event'' [(''event'', AttrText (ev_Name e))]) w
     else run_handlers (handlers_of b (ev_Name e)) e w)"

fun bus_errors :: "'w Bus \<Rightarrow> Event list \<Rightarrow> 'w \<Rightarrow> gerr list" where
  "bus_errors b [] w = []"
| "bus_errors b (e # es) w =
    handler_errors (handlers_of b (ev_Name e)) e w @ bus_errors b es (event_effect b e w)"

lemma deliver_spec:
  assumes "\<And>h w. h \<in> set hs \<Longrightarrow> returns (fst (h e w))"
  shows "deliver hs e errs w = (Return (errs @ handler_errors hs e w), run_handlers hs e w)"
  using assms
proof (induction hs arbitrary: errs w)
  case Nil
  then show ?case by (simp add: run_handlers_def)
next
  case (Cons h hs)
  obtain r w' where r: "h e w = (Return r, w')"
    using Cons.prems [of h w] by (cases "h e w") (auto elim: returnsE)
  have IH: "deliver hs e errs' w' = (Return (errs' @ handler_errors hs e w'), run_handlers hs e w')" for errs'
    using Cons by simp
  show ?case by (cases r) (simp_all add: r IH run_handlers_def)
qed

lemma publish_loop_spec:
  assumes "\<And>n h e w. h \<in> set (handlers_of b n) \<Longrightarrow> returns (fst (h e w))"
  shows "publish_loop b es errs w = (Return (errs @ bus_errors b es w), fold (event_effect b) es w)"
proof (induction es arbitrary: errs w)
  case (Cons e es)
  then show ?case
    using deliver_spec [of "handlers_of b (ev_Name e)" e errs w] assms
    by (simp add: event_effect_def)
qed simp

text \<open>Subscribing a list of handlers, as the composition roots do, ignoring the errors.\<close>

fun subscribe_all :: "(string \<times> 'w handler) list \<Rightarrow> 'w Bus \<Rightarrow> 'w \<Rightarrow> 'w Bus \<times> 'w" where
  "subscribe_all [] b w = (b, w)"
| "subscribe_all (s # subs) b w =
    (let r = snd (Subscribe (fst s) (Some (snd s)) b w) in subscribe_all subs (fst r) (snd r))"

lemma Subscribe_handlers:
  "handlers_of (fst (snd (Subscribe n (Some h) b w))) m =
    (if m = n \<and> n \<noteq> [] then handlers_of b m @ [Chain h (bus_mw b)] else handlers_of b m)"
  by (simp add: Subscribe_def handlers_of_def)

lemma Subscribe_mw [simp]: "bus_mw (fst (snd (Subscribe n h b w))) = bus_mw b"
  and Subscribe_env [simp]: "bus_env (fst (snd (Subscribe n h b w))) = bus_env b"
  by (simp_all add: Subscribe_def)

lemma subscribe_all_mw [simp]: "bus_mw (fst (subscribe_all subs b w)) = bus_mw b"
  and subscribe_all_env [simp]: "bus_env (fst (subscribe_all subs b w)) = bus_env b"
  by (induction subs arbitrary: b w) (simp_all add: Let_def)

lemma subscribe_all_handlers:
  "m \<noteq> [] \<Longrightarrow> handlers_of (fst (subscribe_all subs b w)) m =
     handlers_of b m @ map (\<lambda>s. Chain (snd s) (bus_mw b)) (filter (\<lambda>s. fst s = m) subs)"
  by (induction subs arbitrary: b w) (auto simp: Let_def Subscribe_handlers)

context guarded
begin

lemma publish_total:
  "bus_ok b \<Longrightarrow> Bus_Publish b es w = (Return (errors_Join (bus_errors b es w)), fold (event_effect b) es w)"
  using publish_loop_spec [of b es "[]" w] handler_returns [of b] by (simp add: Bus_Publish_def)

lemma subscribe_all_ok: "bus_ok b \<Longrightarrow> bus_ok (fst (subscribe_all subs b w))"
  by (induction subs arbitrary: b w) (simp_all add: Let_def Subscribe_ok)

end

text \<open>Property C9: a bus whose middleware starts with \<open>Recover\<close> never panics and never stops early:
  after any subscriptions, \<open>Publish\<close> runs, for each event in order, every handler subscribed to
  its name once and in the order of subscription, whatever the others return or panic with, and
  returns the join of all their errors in that order (nil when there is none).\<close>

theorem publish_delivers_everything:
  "let b = fst (subscribe_all subs (Bus_New env (Recover env # mws)) w0) in
   Bus_Publish b es w = (Return (errors_Join (bus_errors b es w)), fold (event_effect b) es w) \<and>
   (m \<noteq> [] \<longrightarrow> handlers_of b m = map (\<lambda>s. Recover env (Chain (snd s) mws)) (filter (\<lambda>s. fst s = m) subs))"
proof -
  have "recovering.bus_ok env mws (fst (subscribe_all subs (Bus_New env (Recover env # mws)) w0))"
    by (intro recovering.subscribe_all_ok recovering.New_ok)
  from recovering.publish_total [OF this] show ?thesis
    by (simp add: Let_def subscribe_all_handlers) (simp add: Bus_New_def handlers_of_def)
qed

text \<open>
  What a module asks of a bus it registers its handlers with: a subscription with a name is accepted, and from then on
  an event of that name is also dispatched to the handler, decorated, after the ones there were; other names keep
  theirs. \<open>register_all\<close> is a module's registration: one subscription after the other, up to the first error.
\<close>

type_synonym ('b, 'w) subscribe_fn = "string \<Rightarrow> 'w handler option \<Rightarrow> 'b \<Rightarrow> 'w \<Rightarrow> gerr option \<times> 'b \<times> 'w"

fun register_all :: "('b, 'w) subscribe_fn \<Rightarrow> (string \<times> 'w handler) list \<Rightarrow> 'b \<Rightarrow> 'w \<Rightarrow> gerr option \<times> 'b \<times> 'w" where
  "register_all sub [] b w = (None, b, w)"
| "register_all sub (s # subs) b w =
    (case sub (fst s) (Some (snd s)) b w of
      (Some err, bw) \<Rightarrow> (Some err, bw)
    | (None, b', w') \<Rightarrow> register_all sub subs b' w')"

lemma register_all_append: "register_all sub (xs @ ys) b w =
    (case register_all sub xs b w of (Some err, bw) \<Rightarrow> (Some err, bw) | (None, b', w') \<Rightarrow> register_all sub ys b' w')"
  by (induction xs arbitrary: b w) (auto split: prod.split option.split)

locale subscriber =
  fixes sub :: "('b, 'w) subscribe_fn" and dispatch :: "'b \<Rightarrow> string \<Rightarrow> 'w handler list" and mw :: "'b \<Rightarrow> 'w middleware list"
  assumes accepts: "n \<noteq> [] \<Longrightarrow> fst (sub n (Some h) b w) = None"
    and dispatches: "n \<noteq> [] \<Longrightarrow> m \<noteq> [] \<Longrightarrow>
      dispatch (fst (snd (sub n (Some h) b w))) m = (if m = n then dispatch b m @ [Chain h (mw b)] else dispatch b m)"
    and same_mw: "mw (fst (snd (sub n (Some h) b w))) = mw b"
begin

lemma register_all_ok:
  assumes "list_all (\<lambda>s. fst s \<noteq> []) subs"
  shows "\<exists>b' w'. register_all sub subs b w = (None, b', w') \<and> mw b' = mw b \<and>
    (\<forall>m. m \<noteq> [] \<longrightarrow> dispatch b' m = dispatch b m @ map (\<lambda>s. Chain (snd s) (mw b)) (filter (\<lambda>s. fst s = m) subs))"
  using assms
proof (induction subs arbitrary: b w)
  case (Cons s subs)
  obtain b1 w1 where s: "sub (fst s) (Some (snd s)) b w = (None, b1, w1)"
    using accepts [of "fst s" "snd s" b w] Cons.prems by (cases "sub (fst s) (Some (snd s)) b w") auto
  have b1: "mw b1 = mw b" using same_mw [of "fst s" "snd s" b w] s by simp
  have d: "m \<noteq> [] \<Longrightarrow> dispatch b1 m = (if m = fst s then dispatch b m @ [Chain (snd s) (mw b)] else dispatch b m)" for m
    using dispatches [of "fst s" m "snd s" b w] s Cons.prems by simp
  from Cons.IH [of b1 w1] Cons.prems obtain b' w' where "register_all sub subs b1 w1 = (None, b', w')" "mw b' = mw b1"
    "\<forall>m. m \<noteq> [] \<longrightarrow> dispatch b' m = dispatch b1 m @ map (\<lambda>s. Chain (snd s) (mw b1)) (filter (\<lambda>s. fst s = m) subs)" by auto
  then show ?case using s b1 d by (intro exI [of _ b'] exI [of _ w']) auto
qed simp

end

interpretation local_subscriber: subscriber Subscribe handlers_of bus_mw
  by unfold_locales (simp_all add: Subscribe_handlers, simp add: Subscribe_def)

text \<open>A bus over a list of names, with a handler that fails and one that panics before a third.\<close>

definition demo_env :: "string list env" where
  "demo_env = \<lparr>clock_now = \<lambda>w. (0, w), log_write = \<lambda>r w. w @ [log_msg r]\<rparr>"

definition demo_event :: Event where
  "demo_event = \<lparr>ev_ID = ''e-1'', ev_Name = ''customer.v1.created'', ev_Source = ''customer'',
     ev_AggregateID = ''c-1'', ev_OccurredAt = 7, ev_Version = 1, ev_CorrelationID = ''c-1'',
     ev_CausationID = [], ev_Payload = [], ev_Metadata = Map.empty\<rparr>"

definition demo_subs :: "(string \<times> string list handler) list" where
  "demo_subs =
    [(''customer.v1.created'', \<lambda>e w. (Return (Some (ErrorString ''no'')), w @ [''first''])),
     (''customer.v1.created'', \<lambda>e w. (Panic ''boom'', w @ [''second''])),
     (''customer.v1.created'', \<lambda>e w. (Return None, w @ [''third'']))]"

theorem publish_delivers_everything_witness:
  "let b = fst (subscribe_all demo_subs (Bus_New demo_env [Recover demo_env]) []) in
   Bus_Publish b [demo_event] [] =
     (Return (Some (JoinError [ErrorString ''no'', ErrorString ''handler panic: boom''])),
      [''first'', ''second'', ''event handler panicked'', ''third'']) \<and>
   length (handlers_of b ''customer.v1.created'') = 3"
  using publish_delivers_everything [of demo_subs demo_env "[]" "[]" "[demo_event]" "[]" "''customer.v1.created''"]
  by (simp add: Let_def event_effect_def run_handlers_def demo_event_def)
     (simp add: demo_subs_def Recover_def demo_env_def log_rec_def errors_Join_def)

end
