(* ===== verification/KafkaCodec.thy ===== *)
theory KafkaCodec
  imports JsonValues EventBus
begin

text \<open>
  The wire format of the Kafka bus, \<open>internal/eventbus/kafka/wire.go\<close>: the whole event envelope as one
  JSON object, which \<open>wireEvent\<close> describes. An event without metadata omits them; the list of keys that an
  encoder takes is the order in which it ranges over the map.
\<close>

subsection \<open>The codec\<close>

record Codec =
  codec_Encode :: "Event \<Rightarrow> string result"
  codec_Decode :: "string \<Rightarrow> Event result"

text \<open>\<open>json.Marshal\<close> of \<open>wireEvent\<close>, and the fields that \<open>json.Unmarshal\<close> knows.\<close>

definition wireEvent :: "string list \<Rightarrow> Event \<Rightarrow> string result" where
  "wireEvent keys e =
    (case json_time (ev_OccurredAt e) of
      Inl err \<Rightarrow> Inl err
    | Inr at \<Rightarrow>
        Inr (of_bytes (json_object
          ([(''id'', json_quote (ev_ID e)), (''name'', json_quote (ev_Name e)), (''source'', json_quote (ev_Source e)),
            (''aggregate_id'', json_quote (ev_AggregateID e)), (''occurred_at'', at), (''version'', json_int (ev_Version e)),
            (''correlation_id'', json_quote (ev_CorrelationID e)), (''causation_id'', json_quote (ev_CausationID e)),
            (''payload'', json_bytes (ev_Payload e))] @
           (if keys = [] then [] else [(''metadata'', json_map keys (ev_Metadata e))])))))"

definition wire_fields :: "string list" where
  "wire_fields = [''id'', ''name'', ''source'', ''aggregate_id'', ''occurred_at'', ''version'', ''correlation_id'',
    ''causation_id'', ''payload'', ''metadata'']"

definition zero_event :: Event where
  "zero_event = \<lparr>ev_ID = [], ev_Name = [], ev_Source = [], ev_AggregateID = [], ev_OccurredAt = zero_time, ev_Version = 0,
     ev_CorrelationID = [], ev_CausationID = [], ev_Payload = [], ev_Metadata = Map.empty\<rparr>"

text \<open>One member of the object into the event; only the reader of times ends the decoding.\<close>

definition read_field :: "string \<Rightarrow> json \<Rightarrow> Event \<Rightarrow> (Event \<times> bool) result" where
  "read_field n x e =
    (if n = ''id'' then Inr (apfst (\<lambda>v. e\<lparr>ev_ID := v\<rparr>) (read_string x (ev_ID e)))
     else if n = ''name'' then Inr (apfst (\<lambda>v. e\<lparr>ev_Name := v\<rparr>) (read_string x (ev_Name e)))
     else if n = ''source'' then Inr (apfst (\<lambda>v. e\<lparr>ev_Source := v\<rparr>) (read_string x (ev_Source e)))
     else if n = ''aggregate_id'' then Inr (apfst (\<lambda>v. e\<lparr>ev_AggregateID := v\<rparr>) (read_string x (ev_AggregateID e)))
     else if n = ''occurred_at'' then
       (case read_time x (ev_OccurredAt e) of Inl err \<Rightarrow> Inl err | Inr t \<Rightarrow> Inr (e\<lparr>ev_OccurredAt := t\<rparr>, False))
     else if n = ''version'' then Inr (apfst (\<lambda>v. e\<lparr>ev_Version := v\<rparr>) (read_int x (ev_Version e)))
     else if n = ''correlation_id'' then Inr (apfst (\<lambda>v. e\<lparr>ev_CorrelationID := v\<rparr>) (read_string x (ev_CorrelationID e)))
     else if n = ''causation_id'' then Inr (apfst (\<lambda>v. e\<lparr>ev_CausationID := v\<rparr>) (read_string x (ev_CausationID e)))
     else if n = ''payload'' then Inr (apfst (\<lambda>v. e\<lparr>ev_Payload := v\<rparr>) (read_bytes x (ev_Payload e)))
     else Inr (apfst (\<lambda>v. e\<lparr>ev_Metadata := v\<rparr>) (read_map x (ev_Metadata e))))"

fun read_fields :: "(nat list \<times> json) list \<Rightarrow> Event \<Rightarrow> bool \<Rightarrow> (Event \<times> bool) result" where
  "read_fields [] e bad = Inr (e, bad)"
| "read_fields ((k, x) # ms) e bad =
    (case field_for wire_fields k of
      None \<Rightarrow> read_fields ms e bad
    | Some n \<Rightarrow> (case read_field n x e of Inl err \<Rightarrow> Inl err | Inr (e', b) \<Rightarrow> read_fields ms e' (bad \<or> b)))"

definition read_event_json :: "string \<Rightarrow> Event result" where
  "read_event_json s =
    (case json_parse (bytes s) of
      None \<Rightarrow> Inl json_syntax_error
    | Some JNull \<Rightarrow> Inr zero_event
    | Some (JObj ms) \<Rightarrow>
        (case read_fields ms zero_event False of
          Inl err \<Rightarrow> Inl err
        | Inr (e, bad) \<Rightarrow> if bad then Inl json_type_error else Inr e)
    | Some _ \<Rightarrow> Inl json_type_error)"

definition JSONCodec_Encode :: "((string \<rightharpoonup> string) \<Rightarrow> string list) \<Rightarrow> Event \<Rightarrow> string result" where
  "JSONCodec_Encode ord e =
    (case wireEvent (ord (ev_Metadata e)) e of
      Inl err \<Rightarrow> Inl (WrapError (''kafka: encode event '' @ ev_Name e @ '': '') err)
    | Inr b \<Rightarrow> Inr b)"

definition JSONCodec_Decode :: "string \<Rightarrow> Event result" where
  "JSONCodec_Decode b =
    (case read_event_json b of
      Inl err \<Rightarrow> Inl (WrapError ''kafka: decode event: '' err)
    | Inr e \<Rightarrow> Inr e)"

definition JSONCodec :: "((string \<rightharpoonup> string) \<Rightarrow> string list) \<Rightarrow> Codec" where
  "JSONCodec ord = \<lparr>codec_Encode = JSONCodec_Encode ord, codec_Decode = JSONCodec_Decode\<rparr>"

subsection \<open>Round trip\<close>

text \<open>An event that JSON can carry unchanged: its texts are UTF-8 and its version is a 64-bit integer.\<close>

definition event_text_ok :: "Event \<Rightarrow> bool" where
  "event_text_ok e \<longleftrightarrow>
    list_all valid_utf8 [ev_ID e, ev_Name e, ev_Source e, ev_AggregateID e, ev_CorrelationID e, ev_CausationID e] \<and>
    int64_range (ev_Version e) \<and> (\<forall>k v. ev_Metadata e k = Some v \<longrightarrow> valid_utf8 k \<and> valid_utf8 v)"

definition quoted :: "string \<Rightarrow> nat list \<times> json" where
  "quoted s = (json_quote s, JStr (quote_bytes (bytes s)) (runes (bytes s)))"

definition event_members :: "string list \<Rightarrow> nat list \<Rightarrow> Event \<Rightarrow> wire_member list" where
  "event_members keys at e =
    [(''id'', quoted (ev_ID e)), (''name'', quoted (ev_Name e)), (''source'', quoted (ev_Source e)),
     (''aggregate_id'', quoted (ev_AggregateID e)), (''occurred_at'', at, time_json (ev_OccurredAt e)),
     (''version'', json_int (ev_Version e), JNum (json_int (ev_Version e))),
     (''correlation_id'', quoted (ev_CorrelationID e)), (''causation_id'', quoted (ev_CausationID e)),
     (''payload'', json_bytes (ev_Payload e), bytes_json (ev_Payload e))] @
    (if keys = [] then []
     else [(''metadata'', json_map keys (ev_Metadata e),
            JObj (map wm_json (map_members (sort_Slice string_less keys) (ev_Metadata e))))])"

lemma wire_fields_ascii: "\<forall>n \<in> set wire_fields. valid_utf8 n"
  by (simp add: wire_fields_def valid_utf8_def bytes_def runes_ascii encode_runes_ascii)

lemma wire_field_found: "n \<in> set wire_fields \<Longrightarrow> field_for wire_fields (runes (bytes n)) = Some n"
  by (rule find_own_field [OF _ wire_fields_ascii])

lemma read_fields_member:
  "n \<in> set wire_fields \<Longrightarrow> read_fields (wm_json (n, rv) # ms) e bad =
    (case read_field n (snd rv) e of Inl err \<Rightarrow> Inl err | Inr (e', b) \<Rightarrow> read_fields ms e' (bad \<or> b))"
  by (simp add: wm_json_def wire_field_found)

lemma wireEvent_members:
  "json_time (ev_OccurredAt e) = Inr at \<Longrightarrow> wireEvent keys e = Inr (of_bytes (json_object (map wm_text (event_members keys at e))))"
  by (simp add: wireEvent_def event_members_def quoted_def wm_text_def)

lemma event_members_write:
  assumes "writes (max_depth - 1) at (time_json (ev_OccurredAt e))"
  shows "\<forall>m \<in> set (event_members keys at e). writes (max_depth - 1) (fst (snd m)) (snd (snd m))"
proof -
  have "writes (max_depth - 1) (json_map keys (ev_Metadata e))
      (JObj (map wm_json (map_members (sort_Slice string_less keys) (ev_Metadata e))))"
    unfolding json_map_members by (rule writes_object) (auto simp: map_members_write max_depth_def)
  then show ?thesis
    using assms by (auto simp: event_members_def quoted_def writes_quote writes_int writes_bytes)
qed

lemma event_members_bytes:
  assumes "byte_list at"
  shows "\<forall>m \<in> set (map wm_text (event_members keys at e)). byte_list (snd m)"
proof -
  have "byte_list (json_map keys m)" for m
    unfolding json_map_def by (rule byte_list_object) auto
  moreover have "byte_list (json_bytes p)" for p
    using b64_plain_utf8 [OF b64_encode_bytes [OF bytes_bound [of p]]] byte_list_plain by (auto simp: json_bytes_def)
  ultimately show ?thesis using assms by (auto simp: event_members_def quoted_def)
qed

lemma read_event_members:
  assumes "event_text_ok e" "year_in_range (ev_OccurredAt e)" "enumerates keys (ev_Metadata e)"
  shows "read_fields (map wm_json (event_members keys at e)) zero_event False = Inr (e, False)"
proof -
  have m: "keys = [] \<Longrightarrow> ev_Metadata e = Map.empty" using assms(3) by (metis dom_eq_empty_conv empty_set enumerates_def)
  have r: "read_map (JObj (map wm_json (map_members (sort_Slice string_less keys) (ev_Metadata e)))) Map.empty = (ev_Metadata e, False)"
    using read_map_json assms(1,3) by (auto simp: event_text_ok_def)
  show ?thesis
    using assms(1,2) m r unfolding event_text_ok_def event_members_def
    by (cases "keys = []")
       (simp_all add: read_fields_member wire_fields_def quoted_def read_field_def read_string_quote read_int_json read_bytes_json read_time_json
         zero_event_def)
qed

text \<open>Property C25: the wire format loses nothing. An event whose texts are UTF-8, whose version is a
  64-bit integer and whose time has a year of four digits is encoded, and decoding what was encoded gives back
  exactly that event, metadata included, whatever order the map of metadata was ranged over; a year
  outside of four digits makes \<open>Encode\<close> return an error.\<close>

theorem codec_round_trip:
  assumes "event_text_ok e" "enumerates (ord (ev_Metadata e)) (ev_Metadata e)"
  shows "if year_in_range (ev_OccurredAt e)
     then \<exists>b. codec_Encode (JSONCodec ord) e = Inr b \<and> codec_Decode (JSONCodec ord) b = Inr e
     else \<exists>err. codec_Encode (JSONCodec ord) e = Inl err"
proof (cases "year_in_range (ev_OccurredAt e)")
  case True
  let ?ks = "ord (ev_Metadata e)"
  obtain at where at: "json_time (ev_OccurredAt e) = Inr at" "writes (max_depth - 1) at (time_json (ev_OccurredAt e))" "byte_list at"
    using json_time_writes [OF True] by blast
  let ?s = "json_object (map wm_text (event_members ?ks at e))"
  have b: "bytes (of_bytes ?s) = ?s"
    by (intro bytes_of_byte_list byte_list_object event_members_bytes at)
  have "read_event_json (of_bytes ?s) = Inr e"
    unfolding read_event_json_def b json_parse_object [OF event_members_write [OF at(2)]]
    using read_event_members [OF assms(1) True assms(2), of at] by simp
  then show ?thesis
    using True wireEvent_members [OF at(1), of ?ks] by (simp add: JSONCodec_def JSONCodec_Encode_def JSONCodec_Decode_def)
next
  case False
  then show ?thesis by (simp add: JSONCodec_def JSONCodec_Encode_def wireEvent_def json_time_def)
qed

theorem codec_round_trip_witness:
  "\<exists>b. codec_Encode (JSONCodec (\<lambda>_. [''k''])) (demo_event\<lparr>ev_Metadata := [''k'' \<mapsto> ''v''], ev_Payload := ''{}''\<rparr>) = Inr b \<and>
     codec_Decode (JSONCodec (\<lambda>_. [''k''])) b = Inr (demo_event\<lparr>ev_Metadata := [''k'' \<mapsto> ''v''], ev_Payload := ''{}''\<rparr>)"
proof -
  have "event_text_ok (demo_event\<lparr>ev_Metadata := [''k'' \<mapsto> ''v''], ev_Payload := ''{}''\<rparr>)"
    by (simp add: event_text_ok_def demo_event_def valid_utf8_def bytes_def runes_ascii encode_runes_ascii int64_range_def)
  moreover have "year_in_range 7" by code_simp
  ultimately show ?thesis
    using codec_round_trip [of "demo_event\<lparr>ev_Metadata := [''k'' \<mapsto> ''v''], ev_Payload := ''{}''\<rparr>" "\<lambda>_. [''k'']"]
    by (simp add: demo_event_def enumerates_def)
qed

end
