(* ===== verification/KafkaRetry.thy ===== *)
theory KafkaRetry
  imports KafkaCodec
begin

text \<open>
  The retry policy of the Kafka bus, \<open>internal/eventbus/kafka/retry.go\<close>, and the naming of topics in
  \<open>bus.go\<close>: the backoff curve, the decision between another hop and the dead-letter topic, and the headers that
  carry the number of attempts and the time before which a hop is not due.
\<close>

subsection \<open>Definitions\<close>

record KafkaMessage =
  km_Topic :: string
  km_Partition :: int
  km_Offset :: int
  km_Key :: string
  km_Value :: string
  km_Headers :: "(string \<times> string) list"

definition headerAttempt :: string where "headerAttempt = ''x-retry-attempt''"
definition headerNotBefore :: string where "headerNotBefore = ''x-retry-not-before''"
definition headerOriginalTopic :: string where "headerOriginalTopic = ''x-original-topic''"
definition headerLastError :: string where "headerLastError = ''x-last-error''"

lemmas header_defs = headerAttempt_def headerNotBefore_def headerOriginalTopic_def headerLastError_def

type_synonym BackoffFunc = "int \<Rightarrow> int"

text \<open>The loop of \<open>ExponentialBackoff\<close>, with the number of rounds left; durations wrap at 64 bits.\<close>

fun backoff_loop :: "int \<Rightarrow> nat \<Rightarrow> int \<Rightarrow> int" where
  "backoff_loop maxDelay 0 d = (if d > maxDelay then maxDelay else d)"
| "backoff_loop maxDelay (Suc n) d =
    (let d' = wrap64 (d * 2) in if d' \<ge> maxDelay then maxDelay else backoff_loop maxDelay n d')"

definition ExponentialBackoff :: "int \<Rightarrow> int \<Rightarrow> BackoffFunc" where
  "ExponentialBackoff base maxDelay attempt =
    (let attempt = (if attempt < 1 then 1 else attempt) in backoff_loop maxDelay (nat (attempt - 1)) base)"

datatype kafka_outcome = outcomeRetry | outcomeDeadLetter

definition decideOutcome :: "int \<Rightarrow> int \<Rightarrow> kafka_outcome" where
  "decideOutcome attempt maxRetries = (if attempt > maxRetries then outcomeDeadLetter else outcomeRetry)"

definition defaultRetryTopicFor :: "string \<Rightarrow> int \<Rightarrow> string" where
  "defaultRetryTopicFor topic attempt = topic @ ''.retry.'' @ Itoa attempt"

definition defaultDLQTopicFor :: "string \<Rightarrow> string" where
  "defaultDLQTopicFor topic = topic @ ''.dlq''"

definition retryHeaders :: "int \<Rightarrow> gotime \<Rightarrow> string \<Rightarrow> gerr option \<Rightarrow> (string \<times> string) list" where
  "retryHeaders attempt notBefore originalTopic lastErr =
    [(headerAttempt, Itoa attempt), (headerNotBefore, Format_RFC3339Nano notBefore), (headerOriginalTopic, originalTopic)] @
    (case lastErr of None \<Rightarrow> [] | Some e \<Rightarrow> [(headerLastError, error_text e)])"

fun headerValue :: "(string \<times> string) list \<Rightarrow> string \<Rightarrow> string" where
  "headerValue [] key = []"
| "headerValue (h # hs) key = (if fst h = key then snd h else headerValue hs key)"

definition attemptFrom :: "(string \<times> string) list \<Rightarrow> int" where
  "attemptFrom hs = (case Atoi (headerValue hs headerAttempt) of (n, None) \<Rightarrow> n | (_, Some _) \<Rightarrow> 0)"

definition notBeforeFrom :: "(string \<times> string) list \<Rightarrow> gotime" where
  "notBeforeFrom hs =
    (let v = headerValue hs headerNotBefore in
     if v = [] then zero_time
     else case Parse_RFC3339Nano v of Some t \<Rightarrow> t | None \<Rightarrow> zero_time)"

text \<open>The two nested loops over the bytes of an event name.\<close>

function topic_inner :: "string \<Rightarrow> nat \<Rightarrow> string option" where
  "topic_inner name j =
    (if j < length name then if name ! j = CHR ''.'' then Some (take j name @ ''.events'') else topic_inner name (j + 1)
     else None)"
  by pat_completeness auto
termination
  by (relation "measure (\<lambda>(name, j). length name - j)") auto

function topic_outer :: "string \<Rightarrow> nat \<Rightarrow> string" where
  "topic_outer name i =
    (if i < length name then
       (case (if name ! i = CHR ''.'' then topic_inner name (i + 1) else None) of
         Some t \<Rightarrow> t
       | None \<Rightarrow> topic_outer name (i + 1))
     else name)"
  by pat_completeness auto
termination
  by (relation "measure (\<lambda>(name, i). length name - i)") auto

declare topic_inner.simps [simp del] topic_outer.simps [simp del]

definition defaultTopicFor :: "string \<Rightarrow> string" where
  "defaultTopicFor eventName = topic_outer eventName 0"

definition DefaultTopicFor :: "string \<Rightarrow> string" where
  "DefaultTopicFor eventName = defaultTopicFor eventName"

subsection \<open>The backoff curve\<close>

lemma backoff_loop_spec:
  assumes "0 < base" "base < 2 ^ 62" "0 < maxDelay" "maxDelay \<le> 2 ^ 62"
  shows "backoff_loop maxDelay n base = min maxDelay (base * 2 ^ n)"
  using assms(1,2)
proof (induction n arbitrary: base)
  case (Suc n)
  have w: "wrap64 (base * 2) = base * 2" using Suc.prems by (simp add: wrap64_id)
  show ?case
  proof (cases "base * 2 \<ge> maxDelay")
    case True
    have "base * 2 * 1 \<le> base * 2 * 2 ^ n" using Suc.prems(1) by (intro mult_left_mono) simp_all
    then show ?thesis using True by (simp add: w min_def mult.assoc)
  next
    case False
    then show ?thesis using Suc.IH [of "base * 2"] Suc.prems assms(4) by (simp add: w mult.assoc)
  qed
qed (auto simp: min_def)

text \<open>The backoff is the capped doubling it promises. For a positive base below 146 years and a positive
  cap up to it, the delay before attempt \<open>n\<close> is the smaller of the cap and the base doubled \<open>n - 1\<close> times, for any
  64-bit attempt number (below 1 it is taken as 1): it is positive, never above the cap, never decreases from one
  attempt to the next, and no intermediate product wraps around.\<close>

theorem backoff_is_capped_doubling:
  assumes "0 < base" "base < 2 ^ 62" "0 < maxDelay" "maxDelay \<le> 2 ^ 62"
  shows "ExponentialBackoff base maxDelay n = min maxDelay (base * 2 ^ nat (n - 1)) \<and>
    0 < ExponentialBackoff base maxDelay n \<and> ExponentialBackoff base maxDelay n \<le> maxDelay \<and>
    ExponentialBackoff base maxDelay n \<le> ExponentialBackoff base maxDelay (n + 1)"
proof -
  have e: "ExponentialBackoff base maxDelay k = min maxDelay (base * 2 ^ nat (k - 1))" for k
    using backoff_loop_spec [OF assms] by (simp add: ExponentialBackoff_def)
  have "base * 2 ^ nat (n - 1) \<le> base * 2 ^ nat (n + 1 - 1)"
    using assms(1) by (intro mult_left_mono power_increasing) simp_all
  from min.mono [OF order_refl this] have "ExponentialBackoff base maxDelay n \<le> ExponentialBackoff base maxDelay (n + 1)"
    unfolding e .
  then show ?thesis using assms(1,3) by (simp add: e)
qed

theorem backoff_is_capped_doubling_witness:
  "map (ExponentialBackoff Second (30 * Second)) [0, 1, 2, 3, 4, 5, 6, 20] =
    map ((*) Second) [1, 1, 2, 4, 8, 16, 30, 30]"
  using backoff_is_capped_doubling [of Second "30 * Second"] by (simp add: Second_def)

subsection \<open>Headers\<close>

text \<open>The bookkeeping of a hop survives the trip. From the headers written for an attempt, a deadline
  with a year of four digits, a topic and an error, the consumer reads back that attempt number, that deadline to the nanosecond,
  the original topic and the text of the error; a message without headers counts as never retried and due at once, and
  an attempt header that is not a decimal number counts as none.\<close>

theorem retry_headers_round_trip:
  assumes "int64_range attempt" "year_in_range t"
  shows "attemptFrom (retryHeaders attempt t topic (Some e)) = attempt \<and>
    notBeforeFrom (retryHeaders attempt t topic (Some e)) = t \<and>
    headerValue (retryHeaders attempt t topic (Some e)) headerOriginalTopic = topic \<and>
    headerValue (retryHeaders attempt t topic (Some e)) headerLastError = error_text e \<and>
    attemptFrom [] = 0 \<and> notBeforeFrom [] = zero_time \<and> attemptFrom [(headerAttempt, ''two'')] = 0"
proof -
  have "Format_RFC3339Nano t \<noteq> []" by (simp add: Format_RFC3339Nano_def Let_def split: prod.splits)
  moreover have "Atoi [] = (0, Some ErrSyntax)" "Atoi ''two'' = (0, Some ErrSyntax)"
    by (simp_all add: Atoi_def is_digit_def)
  ultimately show ?thesis
    using assms
    by (simp add: retryHeaders_def attemptFrom_def notBeforeFrom_def header_defs Atoi_Itoa Parse_Format Let_def)
qed

theorem retry_headers_round_trip_witness:
  "attemptFrom (retryHeaders 2 1500000000 ''customer.v1.events'' (Some (ErrorString ''db unavailable''))) = 2 \<and>
   notBeforeFrom (retryHeaders 2 1500000000 ''customer.v1.events'' (Some (ErrorString ''db unavailable''))) = 1500000000"
proof -
  have "year_in_range 1500000000" by code_simp
  then show ?thesis
    using retry_headers_round_trip [of 2 1500000000 "''customer.v1.events''" "ErrorString ''db unavailable''"]
    by (simp add: int64_range_def)
qed

lemma attempt_of_retry: "int64_range a \<Longrightarrow> attemptFrom (retryHeaders a t topic e) = a"
  by (simp add: retryHeaders_def attemptFrom_def Atoi_Itoa)

subsection \<open>Topics\<close>

lemma topic_inner_none: "CHR ''.'' \<notin> set (drop j name) \<Longrightarrow> topic_inner name j = None"
proof (induction name j rule: topic_inner.induct)
  case (1 name j)
  show ?case
  proof (cases "j < length name")
    case True
    then have "drop j name = name ! j # drop (j + 1) name" by (simp add: Cons_nth_drop_Suc)
    then show ?thesis using 1 True by (auto simp: topic_inner.simps [of name j])
  qed (simp add: topic_inner.simps [of name j])
qed

lemma topic_inner_some:
  "drop j name = v @ CHR ''.'' # n \<Longrightarrow> CHR ''.'' \<notin> set v \<Longrightarrow> topic_inner name j = Some (take j name @ v @ ''.events'')"
proof (induction v arbitrary: j)
  case Nil
  then have "j < length name" "name ! j = CHR ''.''" by (metis append_Nil drop_eq_Nil list.discI not_le, metis append_Nil nth_via_drop)
  then show ?case by (simp add: topic_inner.simps [of name j])
next
  case (Cons c v)
  have j: "j < length name" using Cons.prems(1) by (metis append_Cons drop_eq_Nil list.discI not_le)
  have c: "name ! j = c" using Cons.prems(1) by (metis append_Cons nth_via_drop)
  have "drop (j + 1) name = v @ CHR ''.'' # n" using Cons.prems(1) by (metis append_Cons drop_Suc list.sel(3) tl_drop Suc_eq_plus1)
  moreover have "take (j + 1) name = take j name @ [c]" using j c by (simp add: take_Suc_conv_app_nth)
  ultimately show ?case using Cons j c by (auto simp: topic_inner.simps [of name j])
qed

lemma topic_outer_skip:
  "drop i name = c @ r \<Longrightarrow> CHR ''.'' \<notin> set c \<Longrightarrow> topic_outer name i = topic_outer name (i + length c)"
proof (induction c arbitrary: i)
  case (Cons x c)
  have i: "i < length name" using Cons.prems(1) by (metis append_Cons drop_eq_Nil list.discI not_le)
  have x: "name ! i = x" using Cons.prems(1) by (metis append_Cons nth_via_drop)
  have "drop (i + 1) name = c @ r" using Cons.prems(1) by (metis append_Cons drop_Suc list.sel(3) tl_drop Suc_eq_plus1)
  then show ?case using Cons i x by (auto simp: topic_outer.simps [of name i])
qed simp

lemma topic_outer_none: "CHR ''.'' \<notin> set (drop i name) \<Longrightarrow> topic_outer name i = name"
  using topic_outer_skip [of i name "drop i name" "[]"] by (cases "i \<le> length name") (simp_all add: topic_outer.simps)

text \<open>All events of one version of one context share a topic, so those of one aggregate, which carry its
  identifier as their key, share a partition. A name \<open>context.version.rest\<close> goes to \<open>context.version.events\<close>, whatever the
  rest; a name with fewer than two dots is its own topic; and the retry and dead-letter topics of a topic
  differ from each other for different attempts.\<close>

theorem topics_group_by_context_and_version:
  assumes "CHR ''.'' \<notin> set c" "CHR ''.'' \<notin> set v"
  shows "DefaultTopicFor (c @ ''.'' @ v @ ''.'' @ rest) = c @ ''.'' @ v @ ''.events'' \<and>
    DefaultTopicFor c = c \<and> DefaultTopicFor (c @ ''.'' @ v) = c @ ''.'' @ v \<and>
    (int64_range i \<and> int64_range j \<and> i \<noteq> j \<longrightarrow> defaultRetryTopicFor t i \<noteq> defaultRetryTopicFor t j)"
proof -
  let ?n = "c @ ''.'' @ v @ ''.'' @ rest"
  have o: "topic_outer ?n 0 = topic_outer ?n (length c)"
    using topic_outer_skip [of 0 ?n c "''.'' @ v @ ''.'' @ rest"] assms(1) by simp
  have "topic_inner ?n (length c + 1) = Some (c @ ''.'' @ v @ ''.events'')"
    using topic_inner_some [of "length c + 1" ?n v rest] assms(2) by simp
  then have "topic_outer ?n (length c) = c @ ''.'' @ v @ ''.events''"
    by (subst topic_outer.simps) simp
  with o have a: "DefaultTopicFor ?n = c @ ''.'' @ v @ ''.events''"
    by (simp only: DefaultTopicFor_def defaultTopicFor_def)
  let ?m = "c @ ''.'' @ v"
  have o: "topic_outer ?m 0 = topic_outer ?m (length c)"
    using topic_outer_skip [of 0 ?m c "''.'' @ v"] assms(1) by simp
  have "topic_inner ?m (length c + 1) = None" using topic_inner_none [of "length c + 1" ?m] assms(2) by simp
  moreover have "topic_outer ?m (length c + 1) = ?m" using topic_outer_none [of "length c + 1" ?m] assms(2) by simp
  ultimately have "topic_outer ?m (length c) = ?m" by (subst topic_outer.simps) simp
  with o have b: "DefaultTopicFor ?m = ?m" by (simp only: DefaultTopicFor_def defaultTopicFor_def)
  have "DefaultTopicFor c = c" using topic_outer_none [of 0 c] assms(1) by (simp add: DefaultTopicFor_def defaultTopicFor_def)
  then show ?thesis using a b by (auto simp: defaultRetryTopicFor_def Itoa_inject)
qed

theorem topics_group_by_context_and_version_witness:
  "DefaultTopicFor ''customer.v1.created'' = ''customer.v1.events'' \<and> DefaultTopicFor ''customer.v1.email_changed.now'' = ''customer.v1.events'' \<and>
   DefaultTopicFor ''customer'' = ''customer''"
  using topics_group_by_context_and_version [of "''customer''" "''v1''" "''created''" 0 0 "[]"]
    topics_group_by_context_and_version [of "''customer''" "''v1''" "''email_changed.now''" 0 0 "[]"] by simp

end
