(* ===== verification/KafkaBus.thy ===== *)
theory KafkaBus
  imports KafkaRetry
begin

text \<open>
  The Kafka bus, \<open>internal/eventbus/kafka/bus.go\<close>: its configuration and defaults, subscriptions by topic, the
  producer, the readers that \<open>Run\<close> starts and the end of a run. The client library kafka-go is outside the
  repository: what the bus asks of it is the record \<open>KafkaIO\<close> of functions on the state, a parameter of every definition.
\<close>

subsection \<open>Configuration\<close>

text \<open>A nil function or codec is \<open>None\<close>.\<close>

record KafkaConfig =
  cfg_Brokers :: "string list"
  cfg_GroupID :: string
  cfg_TopicFor :: "(string \<Rightarrow> string) option"
  cfg_MaxRetries :: int
  cfg_Backoff :: "BackoffFunc option"
  cfg_RetryTopicFor :: "(string \<Rightarrow> int \<Rightarrow> string) option"
  cfg_DLQTopicFor :: "(string \<Rightarrow> string) option"
  cfg_Codec :: "Codec option"

definition or_default :: "'a option \<Rightarrow> 'a \<Rightarrow> 'a option" where
  "or_default x d = (case x of None \<Rightarrow> Some d | Some y \<Rightarrow> Some y)"

lemma or_default_sel [simp]: "or_default x d \<noteq> None" "the (or_default None d) = d" "the (or_default (Some y) d) = y"
  by (simp_all add: or_default_def split: option.split)

definition setDefaults :: "((string \<rightharpoonup> string) \<Rightarrow> string list) \<Rightarrow> KafkaConfig \<Rightarrow> KafkaConfig" where
  "setDefaults ord c =
    c\<lparr>cfg_TopicFor := or_default (cfg_TopicFor c) defaultTopicFor,
      cfg_MaxRetries := (if cfg_MaxRetries c \<le> 0 then 3 else cfg_MaxRetries c),
      cfg_Backoff := or_default (cfg_Backoff c) (ExponentialBackoff Second (30 * Second)),
      cfg_RetryTopicFor := or_default (cfg_RetryTopicFor c) defaultRetryTopicFor,
      cfg_DLQTopicFor := or_default (cfg_DLQTopicFor c) defaultDLQTopicFor,
      cfg_Codec := or_default (cfg_Codec c) (JSONCodec ord),
      cfg_GroupID := (if cfg_GroupID c = [] then ''myapp'' else cfg_GroupID c)\<rparr>"

subsection \<open>The bus\<close>

text \<open>
  The client library, with a reader named by its topic: a fetch gives a message or an error, a commit and a write
  give an error or nil. \<open>io_ctx_Err\<close> is the error of the run's context once it is cancelled, and \<open>io_wait\<close> waits
  for a duration: it tells whether the timer fired before the context was cancelled.
\<close>

record 'w KafkaIO =
  io_WriteMessages :: "KafkaMessage list \<Rightarrow> 'w \<Rightarrow> gerr option \<times> 'w"
  io_FetchMessage :: "string \<Rightarrow> 'w \<Rightarrow> KafkaMessage result \<times> 'w"
  io_CommitMessages :: "string \<Rightarrow> KafkaMessage \<Rightarrow> 'w \<Rightarrow> gerr option \<times> 'w"
  io_CloseReader :: "string \<Rightarrow> 'w \<Rightarrow> gerr option \<times> 'w"
  io_CloseWriter :: "'w \<Rightarrow> gerr option \<times> 'w"
  io_ctx_Err :: "'w \<Rightarrow> gerr option"
  io_ctx_Done :: "'w \<Rightarrow> 'w"
  io_wait :: "int \<Rightarrow> 'w \<Rightarrow> bool \<times> 'w"
  io_ErrGroupClosed :: gerr

record 'w binding =
  bd_eventName :: string
  bd_handler :: "'w handler"

record 'w KBus =
  kb_cfg :: KafkaConfig
  kb_env :: "'w env"
  kb_mw :: "'w middleware list"
  kb_io :: "'w KafkaIO"
  kb_bindings :: "string \<rightharpoonup> 'w binding list"
  kb_started :: bool
  kb_readers :: "string list"

definition TopicFor :: "'w KBus \<Rightarrow> string \<Rightarrow> string" where
  "TopicFor b = the (cfg_TopicFor (kb_cfg b))"

definition MaxRetries :: "'w KBus \<Rightarrow> int" where
  "MaxRetries b = cfg_MaxRetries (kb_cfg b)"

definition Backoff :: "'w KBus \<Rightarrow> BackoffFunc" where
  "Backoff b = the (cfg_Backoff (kb_cfg b))"

definition RetryTopicFor :: "'w KBus \<Rightarrow> string \<Rightarrow> int \<Rightarrow> string" where
  "RetryTopicFor b = the (cfg_RetryTopicFor (kb_cfg b))"

definition DLQTopicFor :: "'w KBus \<Rightarrow> string \<Rightarrow> string" where
  "DLQTopicFor b = the (cfg_DLQTopicFor (kb_cfg b))"

definition bus_Codec :: "'w KBus \<Rightarrow> Codec" where
  "bus_Codec b = the (cfg_Codec (kb_cfg b))"

definition KBus_New ::
  "((string \<rightharpoonup> string) \<Rightarrow> string list) \<Rightarrow> KafkaConfig \<Rightarrow> 'w env \<Rightarrow> 'w KafkaIO \<Rightarrow> 'w middleware list \<Rightarrow> 'w KBus" where
  "KBus_New ord cfg env io mw =
    \<lparr>kb_cfg = setDefaults ord cfg, kb_env = env, kb_mw = mw, kb_io = io, kb_bindings = Map.empty,
     kb_started = False, kb_readers = []\<rparr>"

definition bindings_of :: "'w KBus \<Rightarrow> string \<Rightarrow> 'w binding list" where
  "bindings_of b topic = (case kb_bindings b topic of None \<Rightarrow> [] | Some bds \<Rightarrow> bds)"

definition KBus_Subscribe ::
  "string \<Rightarrow> 'w handler option \<Rightarrow> 'w KBus \<Rightarrow> 'w \<Rightarrow> gerr option \<times> 'w KBus \<times> 'w" where
  "KBus_Subscribe eventName handler b w =
    (if eventName = [] \<or> Option.is_none handler
     then (Some (ErrorString ''kafka: eventName and handler are required''), b, w)
     else (let topic = TopicFor b eventName; wrapped = Chain (the handler) (kb_mw b)
       in (None,
           b\<lparr>kb_bindings := (kb_bindings b)(topic \<mapsto> bindings_of b topic @ [\<lparr>bd_eventName = eventName, bd_handler = wrapped\<rparr>])\<rparr>,
           log_write (kb_env b) (log_rec LevelDebug ''event subscription registered''
             [(''event'', AttrText eventName), (''topic'', AttrText topic)]) w)))"

text \<open>The loop of \<open>Publish\<close> that encodes: the first failure ends it, and nothing has been written by then.\<close>

fun encode_loop :: "'w KBus \<Rightarrow> Event list \<Rightarrow> KafkaMessage list \<Rightarrow> KafkaMessage list result" where
  "encode_loop b [] msgs = Inr msgs"
| "encode_loop b (e # es) msgs =
    (case codec_Encode (bus_Codec b) e of
      Inl err \<Rightarrow> Inl err
    | Inr payload \<Rightarrow>
        encode_loop b es (msgs @ [\<lparr>km_Topic = TopicFor b (ev_Name e), km_Partition = 0, km_Offset = 0,
          km_Key = ev_AggregateID e, km_Value = payload, km_Headers = [(''x-event-name'', ev_Name e)]\<rparr>]))"

definition KBus_Publish :: "'w KBus \<Rightarrow> 'w publisher" where
  "KBus_Publish b events w =
    (if length events = 0 then (Return None, w)
     else case encode_loop b events [] of
       Inl err \<Rightarrow> (Return (Some err), w)
     | Inr msgs \<Rightarrow>
         (case io_WriteMessages (kb_io b) msgs w of
           (Some err, w') \<Rightarrow> (Return (Some (WrapError ''kafka: publish: '' err)), w')
         | (None, w') \<Rightarrow> (Return None, w')))"

definition handlersFor :: "'w KBus \<Rightarrow> string \<Rightarrow> string \<Rightarrow> 'w handler list" where
  "handlersFor b businessTopic eventName =
    map bd_handler (filter (\<lambda>bd. bd_eventName bd = eventName) (bindings_of b businessTopic))"

subsection \<open>Running and closing\<close>

text \<open>A consumer is the topic its reader reads and the topic its handlers are registered for.\<close>

record consumer =
  co_physicalTopic :: string
  co_businessTopic :: string

definition startConsumer :: "string \<Rightarrow> string \<Rightarrow> 'w KBus \<times> consumer list \<Rightarrow> 'w KBus \<times> consumer list" where
  "startConsumer physicalTopic businessTopic bc =
    ((fst bc)\<lparr>kb_readers := kb_readers (fst bc) @ [physicalTopic]\<rparr>,
     snd bc @ [\<lparr>co_physicalTopic = physicalTopic, co_businessTopic = businessTopic\<rparr>])"

lemma cfg_readers [simp]:
  "RetryTopicFor (b\<lparr>kb_readers := rs\<rparr>) = RetryTopicFor b" "MaxRetries (b\<lparr>kb_readers := rs\<rparr>) = MaxRetries b"
  "RetryTopicFor (b\<lparr>kb_started := x\<rparr>) = RetryTopicFor b" "MaxRetries (b\<lparr>kb_started := x\<rparr>) = MaxRetries b"
  by (simp_all add: RetryTopicFor_def MaxRetries_def)

text \<open>The inner loop of \<open>Run\<close> over the attempts, and the outer one over the topics.\<close>

function start_hops :: "string \<Rightarrow> int \<Rightarrow> 'w KBus \<times> consumer list \<Rightarrow> 'w KBus \<times> consumer list" where
  "start_hops topic attempt bc =
    (if attempt \<le> MaxRetries (fst bc)
     then start_hops topic (attempt + 1) (startConsumer (RetryTopicFor (fst bc) topic attempt) topic bc)
     else bc)"
  by pat_completeness auto

lemma startConsumer_cfg [simp]: "kb_cfg (fst (startConsumer p t bc)) = kb_cfg (fst bc)"
  by (simp add: startConsumer_def)

termination start_hops
  by (relation "measure (\<lambda>(topic, attempt, bc). nat (MaxRetries (fst bc) + 1 - attempt))") (auto simp: MaxRetries_def)

declare start_hops.simps [simp del]

fun start_topics :: "string list \<Rightarrow> 'w KBus \<times> consumer list \<Rightarrow> 'w KBus \<times> consumer list" where
  "start_topics [] bc = bc"
| "start_topics (t # ts) bc = start_topics ts (start_hops t 1 (startConsumer t t bc))"

fun close_readers :: "'w KafkaIO \<Rightarrow> string list \<Rightarrow> 'w \<Rightarrow> gerr list \<times> 'w" where
  "close_readers io [] w = ([], w)"
| "close_readers io (r # rs) w =
    (let (err, w1) = io_CloseReader io r w; (errs, w2) = close_readers io rs w1
     in ((case err of None \<Rightarrow> errs | Some e \<Rightarrow> e # errs), w2))"

text \<open>
  \<open>Run\<close> takes the order in which it ranges over the map of bindings. It gives the error it returns, the bus with its
  readers, and the consumers that were started; \<open>io_ctx_Done\<close> is the wait for the end of the context, during which
  the consumers run. The readers are closed concurrently; no reader's result depends on another's.
\<close>

definition KBus_Run :: "string list \<Rightarrow> 'w KBus \<Rightarrow> 'w \<Rightarrow> gerr option \<times> 'w KBus \<times> consumer list \<times> 'w" where
  "KBus_Run topics b w =
    (if kb_started b then (Some (ErrorString ''kafka: Run already called''), b, [], w)
     else
       (let b1 = b\<lparr>kb_started := True\<rparr>;
            w1 = (if topics = [] then log_write (kb_env b) (log_rec LevelInfo ''kafka bus: no subscriptions, nothing to consume'' []) w
                  else w);
            (b2, cs) = start_topics topics (b1, []);
            w2 = io_ctx_Done (kb_io b) w1;
            w3 = log_write (kb_env b) (log_rec LevelInfo ''kafka bus: stopping'' []) w2;
            (_, w4) = close_readers (kb_io b) (kb_readers b2) w3
        in (io_ctx_Err (kb_io b) w4, b2, cs, w4)))"

definition KBus_Close :: "'w KBus \<Rightarrow> 'w \<Rightarrow> gerr option \<times> 'w" where
  "KBus_Close b w =
    (let (err, w1) = io_CloseWriter (kb_io b) w; (errs, w2) = close_readers (kb_io b) (kb_readers b) w1
     in (errors_Join ((case err of None \<Rightarrow> [] | Some e \<Rightarrow> [e]) @ errs), w2))"

subsection \<open>Subscriptions\<close>

text \<open>Subscribing a list of handlers, ignoring the errors, as for the local bus.\<close>

fun ksubscribe_all :: "(string \<times> 'w handler) list \<Rightarrow> 'w KBus \<Rightarrow> 'w \<Rightarrow> 'w KBus \<times> 'w" where
  "ksubscribe_all [] b w = (b, w)"
| "ksubscribe_all (s # subs) b w =
    (let r = snd (KBus_Subscribe (fst s) (Some (snd s)) b w) in ksubscribe_all subs (fst r) (snd r))"

lemma KSubscribe_keeps [simp]:
  "kb_cfg (fst (snd (KBus_Subscribe n h b w))) = kb_cfg b" "kb_mw (fst (snd (KBus_Subscribe n h b w))) = kb_mw b"
  "kb_started (fst (snd (KBus_Subscribe n h b w))) = kb_started b" "kb_io (fst (snd (KBus_Subscribe n h b w))) = kb_io b"
  "kb_env (fst (snd (KBus_Subscribe n h b w))) = kb_env b" "kb_readers (fst (snd (KBus_Subscribe n h b w))) = kb_readers b"
  by (simp_all add: KBus_Subscribe_def Let_def)

lemma KSubscribe_handlers:
  "handlersFor (fst (snd (KBus_Subscribe n (Some h) b w))) t m =
    (if m = n \<and> n \<noteq> [] \<and> t = TopicFor b n then handlersFor b t m @ [Chain h (kb_mw b)] else handlersFor b t m)"
  by (simp add: KBus_Subscribe_def Let_def handlersFor_def bindings_of_def)

lemma ksubscribe_all_keeps [simp]:
  "kb_cfg (fst (ksubscribe_all subs b w)) = kb_cfg b" "kb_mw (fst (ksubscribe_all subs b w)) = kb_mw b"
  "kb_started (fst (ksubscribe_all subs b w)) = kb_started b" "kb_io (fst (ksubscribe_all subs b w)) = kb_io b"
  by (induction subs arbitrary: b w) (simp_all add: Let_def)

lemma ksubscribe_all_handlers:
  "m \<noteq> [] \<Longrightarrow> handlersFor (fst (ksubscribe_all subs b w)) (TopicFor b m) m =
     handlersFor b (TopicFor b m) m @ map (\<lambda>s. Chain (snd s) (kb_mw b)) (filter (\<lambda>s. fst s = m) subs)"
proof (induction subs arbitrary: b w)
  case (Cons s subs)
  have t: "TopicFor (fst (snd (KBus_Subscribe (fst s) (Some (snd s)) b w))) = TopicFor b" by (simp add: TopicFor_def)
  show ?case using Cons.IH [OF Cons.prems, of "fst (snd (KBus_Subscribe (fst s) (Some (snd s)) b w))" ] Cons.prems
    by (auto simp: Let_def t KSubscribe_handlers)
qed simp

interpretation kafka_subscriber: subscriber KBus_Subscribe "\<lambda>b n. handlersFor b (TopicFor b n) n" kb_mw
proof unfold_locales
  fix n m :: string and h :: "'a handler" and b w
  assume "n \<noteq> []" "m \<noteq> []"
  moreover have "TopicFor (fst (snd (KBus_Subscribe n (Some h) b w))) = TopicFor b" by (simp add: TopicFor_def)
  ultimately show "handlersFor (fst (snd (KBus_Subscribe n (Some h) b w))) (TopicFor (fst (snd (KBus_Subscribe n (Some h) b w))) m) m =
      (if m = n then handlersFor b (TopicFor b m) m @ [Chain h (kb_mw b)] else handlersFor b (TopicFor b m) m)"
    by (simp add: KSubscribe_handlers)
qed (simp_all, simp add: KBus_Subscribe_def Let_def)

text \<open>Property C26: the two buses dispatch alike. After the same subscriptions with the same middleware, the handlers
  the Kafka bus finds for an event on the topic of its name are those the local bus finds for it: the same ones, decorated
  alike and in the same order, although the Kafka bus keeps all events of a topic together.\<close>

theorem kafka_dispatches_like_local:
  assumes "n \<noteq> []"
  shows "(let kb = fst (ksubscribe_all subs (KBus_New ord cfg env io mw) w); lb = fst (subscribe_all subs (Bus_New env mw) w)
    in handlersFor kb (TopicFor kb n) n = handlers_of lb n)"
proof -
  have t: "TopicFor (fst (ksubscribe_all subs (KBus_New ord cfg env io mw) w)) = TopicFor (KBus_New ord cfg env io mw)"
    by (simp add: TopicFor_def)
  show ?thesis
    using ksubscribe_all_handlers [OF assms, of subs "KBus_New ord cfg env io mw" w]
      subscribe_all_handlers [OF assms, of subs "Bus_New env mw" w]
    by (simp add: Let_def t) (simp add: KBus_New_def Bus_New_def handlersFor_def handlers_of_def bindings_of_def)
qed


text \<open>
  A broker kept in memory, to run the bus on: what was written and committed, what is left to fetch from the
  reader, the time, and how many more writes fail. An empty reader reports that the group is closed.
\<close>

record Broker =
  br_log :: "KafkaMessage list"
  br_committed :: "KafkaMessage list"
  br_queue :: "KafkaMessage list"
  br_now :: gotime
  br_failing :: nat

definition demo_io :: "Broker KafkaIO" where
  "demo_io = \<lparr>
     io_WriteMessages = \<lambda>ms w. if 0 < br_failing w then (Some (ErrorString ''broker down''), w\<lparr>br_failing := br_failing w - 1\<rparr>)
       else (None, w\<lparr>br_log := br_log w @ ms\<rparr>),
     io_FetchMessage = \<lambda>t w. (case br_queue w of [] \<Rightarrow> (Inl (ErrorString ''group closed''), w) | m # q \<Rightarrow> (Inr m, w\<lparr>br_queue := q\<rparr>)),
     io_CommitMessages = \<lambda>t m w. (None, w\<lparr>br_committed := br_committed w @ [m]\<rparr>),
     io_CloseReader = \<lambda>t w. (None, w), io_CloseWriter = \<lambda>w. (None, w), io_ctx_Err = \<lambda>w. None, io_ctx_Done = \<lambda>w. w,
     io_wait = \<lambda>d w. (True, w\<lparr>br_now := br_now w + d\<rparr>), io_ErrGroupClosed = ErrorString ''group closed''\<rparr>"

definition demo_broker :: Broker where
  "demo_broker = \<lparr>br_log = [], br_committed = [], br_queue = [], br_now = 0, br_failing = 0\<rparr>"

definition broker_env :: "Broker env" where
  "broker_env = \<lparr>clock_now = \<lambda>w. (br_now w, w), log_write = \<lambda>r w. w\<rparr>"

definition demo_config :: KafkaConfig where
  "demo_config = \<lparr>cfg_Brokers = [''localhost:9092''], cfg_GroupID = [], cfg_TopicFor = None, cfg_MaxRetries = 2, cfg_Backoff = None,
     cfg_RetryTopicFor = None, cfg_DLQTopicFor = None, cfg_Codec = None\<rparr>"

definition demo_kafka :: "(string \<times> Broker handler) list \<Rightarrow> Broker KBus" where
  "demo_kafka subs = fst (ksubscribe_all subs (KBus_New (\<lambda>_. []) demo_config broker_env demo_io [Recover broker_env]) demo_broker)"

theorem kafka_dispatches_like_local_witness:
  "length (handlersFor (demo_kafka [(''a.v1.b'', \<lambda>e w. (Return None, w)), (''a.v1.c'', \<lambda>e w. (Panic [], w))]) ''a.v1.events'' ''a.v1.c'') = 1"
proof -
  let ?subs = "[(''a.v1.b'', \<lambda>e w. (Return None, w)), (''a.v1.c'', \<lambda>e w. (Panic [], w))] :: (string \<times> Broker handler) list"
  have "TopicFor (demo_kafka ?subs) ''a.v1.c'' = ''a.v1.events''"
    by (simp add: demo_kafka_def TopicFor_def KBus_New_def setDefaults_def demo_config_def) code_simp
  moreover have "length (handlers_of (fst (subscribe_all ?subs (Bus_New broker_env [Recover broker_env]) demo_broker)) ''a.v1.c'') = 1"
    by (simp add: Bus_New_def handlers_of_def Let_def Subscribe_def)
  ultimately show ?thesis
    using kafka_dispatches_like_local
        [of "''a.v1.c''" ?subs "\<lambda>_. []" demo_config broker_env demo_io "[Recover broker_env]" demo_broker]
    unfolding demo_kafka_def Let_def by simp
qed

subsection \<open>The readers of a run\<close>

lemma start_hops_spec:
  "start_hops t a bc =
    (let ps = map (\<lambda>k. RetryTopicFor (fst bc) t (a + int k)) [0..<nat (MaxRetries (fst bc) + 1 - a)]
     in ((fst bc)\<lparr>kb_readers := kb_readers (fst bc) @ ps\<rparr>,
         snd bc @ map (\<lambda>p. \<lparr>co_physicalTopic = p, co_businessTopic = t\<rparr>) ps))"
proof (induction t a bc rule: start_hops.induct)
  case (1 t a bc)
  show ?case
  proof (cases "a \<le> MaxRetries (fst bc)")
    case True
    then have n: "nat (MaxRetries (fst bc) + 1 - a) = Suc (nat (MaxRetries (fst bc) + 1 - (a + 1)))" by linarith
    have r: "RetryTopicFor (fst (startConsumer p t bc)) = RetryTopicFor (fst bc)"
      "MaxRetries (fst (startConsumer p t bc)) = MaxRetries (fst bc)" for p
      by (simp_all add: RetryTopicFor_def MaxRetries_def)
    show ?thesis
      unfolding n upt_conv_Cons [OF zero_less_Suc] using 1 [OF True] True
      by (subst start_hops.simps)
         (simp add: Let_def r startConsumer_def map_Suc_upt [symmetric] o_def add.assoc del: upt_Suc)
  qed (simp add: start_hops.simps [of t a bc] Let_def)
qed

definition consumers_of :: "'w KBus \<Rightarrow> string \<Rightarrow> consumer list" where
  "consumers_of b t =
    \<lparr>co_physicalTopic = t, co_businessTopic = t\<rparr> #
    map (\<lambda>k. \<lparr>co_physicalTopic = RetryTopicFor b t (1 + int k), co_businessTopic = t\<rparr>) [0..<nat (MaxRetries b)]"

lemma start_topics_spec:
  "start_topics ts bc =
    ((fst bc)\<lparr>kb_readers := kb_readers (fst bc) @ map co_physicalTopic (concat (map (consumers_of (fst bc)) ts))\<rparr>,
     snd bc @ concat (map (consumers_of (fst bc)) ts))"
proof (induction ts arbitrary: bc)
  case (Cons t ts)
  have c: "kb_cfg (fst (start_hops t 1 (startConsumer t t bc))) = kb_cfg (fst bc)"
    by (simp add: start_hops_spec Let_def startConsumer_def)
  then have "consumers_of (fst (start_hops t 1 (startConsumer t t bc))) = consumers_of (fst bc)"
    by (simp add: consumers_of_def fun_eq_iff RetryTopicFor_def MaxRetries_def)
  moreover have "RetryTopicFor (fst (startConsumer t t bc)) = RetryTopicFor (fst bc)"
    "MaxRetries (fst (startConsumer t t bc)) = MaxRetries (fst bc)"
    by (simp_all add: RetryTopicFor_def MaxRetries_def)
  ultimately show ?case
    using Cons.IH [of "start_hops t 1 (startConsumer t t bc)"]
    by (simp add: start_hops_spec Let_def consumers_of_def startConsumer_def o_def)
qed simp

text \<open>A run reads every subscribed topic and every retry hop of it, and nothing else: for each topic one consumer on the
  topic itself and one on each of its retry topics from 1 to the maximum, all dispatching to the handlers of that topic. A
  second \<open>Run\<close> is refused and starts no reader.\<close>

theorem run_reads_topics_and_hops:
  assumes "KBus_Run topics b w = (err, b', cs, w')" "\<not> kb_started b"
  shows "cs = concat (map (consumers_of b) topics) \<and> kb_readers b' = kb_readers b @ map co_physicalTopic cs \<and>
    KBus_Run topics' b' w'' = (Some (ErrorString ''kafka: Run already called''), b', [], w'') \<and>
    (\<exists>c \<in> set cs. co_physicalTopic c = p) =
      (\<exists>t \<in> set topics. p = t \<or> (\<exists>a. 1 \<le> a \<and> a \<le> MaxRetries b \<and> p = RetryTopicFor b t a))"
proof -
  have s: "start_topics topics (b\<lparr>kb_started := True\<rparr>, []) = (b', cs)"
    using assms by (auto simp: KBus_Run_def Let_def split: prod.splits)
  have "consumers_of (b\<lparr>kb_started := True\<rparr>) = consumers_of b"
    by (simp add: consumers_of_def fun_eq_iff RetryTopicFor_def MaxRetries_def)
  then have cs: "cs = concat (map (consumers_of b) topics)" "kb_readers b' = kb_readers b @ map co_physicalTopic cs" "kb_started b'"
    using s by (auto simp: start_topics_spec)
  have k: "(\<exists>k < nat (MaxRetries b). p = RetryTopicFor b t (1 + int k)) \<longleftrightarrow> (\<exists>a. 1 \<le> a \<and> a \<le> MaxRetries b \<and> p = RetryTopicFor b t a)" for t
  proof
    assume "\<exists>k < nat (MaxRetries b). p = RetryTopicFor b t (1 + int k)"
    then obtain k where "k < nat (MaxRetries b)" "p = RetryTopicFor b t (1 + int k)" by blast
    then show "\<exists>a. 1 \<le> a \<and> a \<le> MaxRetries b \<and> p = RetryTopicFor b t a" by (intro exI [of _ "1 + int k"]) auto
  next
    assume "\<exists>a. 1 \<le> a \<and> a \<le> MaxRetries b \<and> p = RetryTopicFor b t a"
    then obtain a where "1 \<le> a" "a \<le> MaxRetries b" "p = RetryTopicFor b t a" by blast
    then show "\<exists>k < nat (MaxRetries b). p = RetryTopicFor b t (1 + int k)" by (intro exI [of _ "nat (a - 1)"]) auto
  qed
  have "(\<exists>c \<in> set (consumers_of b t). co_physicalTopic c = p) \<longleftrightarrow> p = t \<or> (\<exists>a. 1 \<le> a \<and> a \<le> MaxRetries b \<and> p = RetryTopicFor b t a)" for t
    unfolding k [symmetric] by (auto simp: consumers_of_def)
  then show ?thesis using cs by (auto simp: KBus_Run_def)
qed

theorem run_reads_topics_and_hops_witness:
  "\<exists>b' cs w'. KBus_Run [''a.v1.events''] (demo_kafka [(''a.v1.b'', \<lambda>e w. (Return None, w))]) demo_broker = (None, b', cs, w') \<and>
     map co_physicalTopic cs = [''a.v1.events'', ''a.v1.events.retry.1'', ''a.v1.events.retry.2'']"
proof -
  let ?b = "demo_kafka [(''a.v1.b'', \<lambda>e w. (Return None, w))]"
  have b: "MaxRetries ?b = 2" "RetryTopicFor ?b = defaultRetryTopicFor" "\<not> kb_started ?b" "kb_io ?b = demo_io"
    by (simp_all add: demo_kafka_def KBus_New_def setDefaults_def demo_config_def MaxRetries_def RetryTopicFor_def)
  obtain err b' cs w' where r: "KBus_Run [''a.v1.events''] ?b demo_broker = (err, b', cs, w')"
    by (cases "KBus_Run [''a.v1.events''] ?b demo_broker") auto
  then have "err = None" using b by (auto simp: KBus_Run_def Let_def demo_io_def split: prod.splits)
  moreover have "map co_physicalTopic cs = [''a.v1.events'', ''a.v1.events.retry.1'', ''a.v1.events.retry.2'']"
  proof -
    have "Itoa 1 = ''1''" "Itoa 2 = ''2''" by code_simp+
    then have "map co_physicalTopic (consumers_of ?b ''a.v1.events'') = [''a.v1.events'', ''a.v1.events.retry.1'', ''a.v1.events.retry.2'']"
      using b by (simp add: consumers_of_def upt_rec numeral_2_eq_2 defaultRetryTopicFor_def)
    then show ?thesis using run_reads_topics_and_hops [OF r b(3)] by simp
  qed
  ultimately show ?thesis using r by auto
qed

end
