(* ===== verification/KafkaConsumer.thy ===== *)
theory KafkaConsumer
  imports KafkaBus
begin

text \<open>
  The read loop of one Kafka reader, \<open>internal/eventbus/kafka/consumer.go\<close>: wait for the deadline of a hop, decode,
  dispatch, then commit, hop to the next retry topic or dead-letter.
\<close>

subsection \<open>Handling one message\<close>

definition klog :: "'w KBus \<Rightarrow> log_level \<Rightarrow> string \<Rightarrow> (string \<times> log_attr) list \<Rightarrow> 'w \<Rightarrow> 'w" where
  "klog b l msg attrs = log_write (kb_env b) (log_rec l msg attrs)"

definition commit :: "'w KBus \<Rightarrow> consumer \<Rightarrow> KafkaMessage \<Rightarrow> 'w \<Rightarrow> 'w" where
  "commit b c m w =
    (case io_CommitMessages (kb_io b) (co_physicalTopic c) m w of
      (None, w') \<Rightarrow> w'
    | (Some err, w') \<Rightarrow>
        if io_ctx_Err (kb_io b) w' = None
        then klog b LevelError ''kafka offset commit failed'' [(''topic'', AttrText (co_physicalTopic c)), (''error'', AttrError err)] w'
        else w')"

definition deadLetter :: "'w KBus \<Rightarrow> consumer \<Rightarrow> KafkaMessage \<Rightarrow> gerr \<Rightarrow> 'w \<Rightarrow> gerr option \<times> 'w" where
  "deadLetter b c m cause w =
    (let dlqTopic = DLQTopicFor b (co_businessTopic c);
         attempt = wrap64 (attemptFrom (km_Headers m) + 1);
         (now, w1) = clock_now (kb_env b) w;
         msg = \<lparr>km_Topic = dlqTopic, km_Partition = 0, km_Offset = 0, km_Key = km_Key m, km_Value = km_Value m,
                km_Headers = retryHeaders attempt now (co_businessTopic c) (Some cause)\<rparr>
     in case io_WriteMessages (kb_io b) [msg] w1 of
          (Some err, w2) \<Rightarrow>
            (Some err, klog b LevelError ''failed to write to dead-letter topic, leaving offset uncommitted''
               [(''topic'', AttrText (co_physicalTopic c)), (''dlq_topic'', AttrText dlqTopic), (''error'', AttrError err)] w2)
        | (None, w2) \<Rightarrow> (None, w2))"

definition fail :: "'w KBus \<Rightarrow> consumer \<Rightarrow> KafkaMessage \<Rightarrow> Event \<Rightarrow> gerr \<Rightarrow> 'w \<Rightarrow> 'w" where
  "fail b c m e handlerErr w =
    (let log = [(''topic'', AttrText (co_physicalTopic c)), (''event'', AttrText (ev_Name e)), (''event_id'', AttrText (ev_ID e))];
         attempt = wrap64 (attemptFrom (km_Headers m) + 1)
     in case decideOutcome attempt (MaxRetries b) of
          outcomeRetry \<Rightarrow>
            (let delay = Backoff b attempt;
                 nextTopic = RetryTopicFor b (co_businessTopic c) attempt;
                 (now, w1) = clock_now (kb_env b) w;
                 notBefore = now + delay;
                 msg = \<lparr>km_Topic = nextTopic, km_Partition = 0, km_Offset = 0, km_Key = km_Key m, km_Value = km_Value m,
                        km_Headers = retryHeaders attempt notBefore (co_businessTopic c) (Some handlerErr)\<rparr>
             in case io_WriteMessages (kb_io b) [msg] w1 of
                  (Some err, w2) \<Rightarrow>
                    klog b LevelError ''failed to schedule retry, leaving offset uncommitted for redelivery''
                      (log @ [(''attempt'', AttrInt attempt), (''error'', AttrError err)]) w2
                | (None, w2) \<Rightarrow>
                    commit b c m (klog b LevelWarn ''event handler failed, scheduled for retry''
                      (log @ [(''attempt'', AttrInt attempt), (''max_retries'', AttrInt (MaxRetries b)), (''delay'', AttrDuration delay),
                              (''retry_topic'', AttrText nextTopic), (''handler_error'', AttrError handlerErr)]) w2))
        | outcomeDeadLetter \<Rightarrow>
            (case deadLetter b c m handlerErr w of
              (Some err, w1) \<Rightarrow> w1
            | (None, w1) \<Rightarrow>
                commit b c m (klog b LevelError ''event handler exhausted retries, sent to dead-letter topic''
                  (log @ [(''attempts'', AttrInt attempt), (''max_retries'', AttrInt (MaxRetries b)),
                          (''handler_error'', AttrError handlerErr)]) w1)))"

text \<open>\<open>time.Until\<close> saturates at the ends of a 64-bit duration.\<close>

definition Until :: "gotime \<Rightarrow> gotime \<Rightarrow> int" where
  "Until t now = max (- (2 ^ 63)) (min (2 ^ 63 - 1) (t - now))"

text \<open>The wait for the deadline of a hop: false when the context ended it.\<close>

definition await :: "'w KBus \<Rightarrow> KafkaMessage \<Rightarrow> 'w \<Rightarrow> bool \<times> 'w" where
  "await b m w =
    (let notBefore = notBeforeFrom (km_Headers m) in
     if notBefore = zero_time then (True, w)
     else (let (now, w1) = clock_now (kb_env b) w; wait = Until notBefore now in
           if wait > 0 then io_wait (kb_io b) wait w1 else (True, w1)))"

text \<open>What follows the wait; the loop over the handlers is the one of the local bus.\<close>

definition dispatch :: "'w KBus \<Rightarrow> consumer \<Rightarrow> KafkaMessage \<Rightarrow> (unit, 'w) action" where
  "dispatch b c m w =
    (case codec_Decode (bus_Codec b) (km_Value m) of
      Inl err \<Rightarrow>
        (case deadLetter b c m err (klog b LevelError ''kafka message failed to decode, sending to dead-letter topic''
            [(''topic'', AttrText (co_physicalTopic c)), (''error'', AttrError err)] w) of
          (None, w1) \<Rightarrow> (Return (), commit b c m w1)
        | (Some _, w1) \<Rightarrow> (Return (), w1))
    | Inr e \<Rightarrow>
        (let handlers = handlersFor b (co_businessTopic c) (ev_Name e) in
         if length handlers = 0
         then (Return (), commit b c m (klog b LevelDebug ''no subscribers for event on this node''
                [(''topic'', AttrText (co_physicalTopic c)), (''event'', AttrText (ev_Name e))] w))
         else case deliver handlers e [] w of
                (Panic p, w1) \<Rightarrow> (Panic p, w1)
              | (Return errs, w1) \<Rightarrow>
                  (case errors_Join errs of
                    Some err \<Rightarrow> (Return (), fail b c m e err w1)
                  | None \<Rightarrow> (Return (), commit b c m w1))))"

definition consumer_handle :: "'w KBus \<Rightarrow> consumer \<Rightarrow> KafkaMessage \<Rightarrow> (unit, 'w) action" where
  "consumer_handle b c m w =
    (case await b m w of
      (False, w1) \<Rightarrow> (Return (), w1)
    | (True, w1) \<Rightarrow> dispatch b c m w1)"

text \<open>
  The read loop, for a number of fetches; the result tells whether it returned. A fetch error ends it when the context
  is cancelled or the group is closed, and is logged otherwise.
\<close>

fun consumer_loop :: "nat \<Rightarrow> 'w KBus \<Rightarrow> consumer \<Rightarrow> (bool, 'w) action" where
  "consumer_loop 0 b c w = (Return False, w)"
| "consumer_loop (Suc n) b c w =
    (case io_FetchMessage (kb_io b) (co_physicalTopic c) w of
      (Inl err, w1) \<Rightarrow>
        if io_ctx_Err (kb_io b) w1 \<noteq> None \<or> errors_Is err (io_ErrGroupClosed (kb_io b)) then (Return True, w1)
        else consumer_loop n b c (klog b LevelError ''kafka fetch failed''
               [(''topic'', AttrText (co_physicalTopic c)), (''group'', AttrText (cfg_GroupID (kb_cfg b))), (''error'', AttrError err)] w1)
    | (Inr m, w1) \<Rightarrow>
        (case consumer_handle b c m w1 of
          (Panic p, w2) \<Rightarrow> (Panic p, w2)
        | (Return _, w2) \<Rightarrow> consumer_loop n b c w2))"

definition consumer_run :: "nat \<Rightarrow> 'w KBus \<Rightarrow> consumer \<Rightarrow> (bool, 'w) action" where
  "consumer_run n b c w =
    (let attrs = [(''topic'', AttrText (co_physicalTopic c)), (''group'', AttrText (cfg_GroupID (kb_cfg b)))];
         (r, w1) = consumer_loop n b c (klog b LevelInfo ''kafka consumer started'' attrs w)
     in (r, if r = Return False then w1 else klog b LevelInfo ''kafka consumer stopped'' attrs w1))"

subsection \<open>Watching a bus\<close>

text \<open>
  To state what a consumer does, a bus is watched: a journal beside the state keeps the messages whose write the client
  library acknowledged and the commits that were sent, in order. Handlers, the clock, the logger and the library
  act on the rest of the state only.
\<close>

record Journal =
  jn_written :: "KafkaMessage list"
  jn_committed :: "KafkaMessage list"

definition on_snd :: "('w \<Rightarrow> 'a \<times> 'w) \<Rightarrow> 'j \<times> 'w \<Rightarrow> 'a \<times> ('j \<times> 'w)" where
  "on_snd f jw = (let (a, w') = f (snd jw) in (a, (fst jw, w')))"

definition watched_io :: "'w KafkaIO \<Rightarrow> (Journal \<times> 'w) KafkaIO" where
  "watched_io io =
    \<lparr>io_WriteMessages = \<lambda>ms jw. (let (x, w') = io_WriteMessages io ms (snd jw)
       in (x, (if x = None then (fst jw)\<lparr>jn_written := jn_written (fst jw) @ ms\<rparr> else fst jw, w'))),
     io_FetchMessage = \<lambda>t. on_snd (io_FetchMessage io t),
     io_CommitMessages = \<lambda>t m jw. (let (x, w') = io_CommitMessages io t m (snd jw)
       in (x, ((fst jw)\<lparr>jn_committed := jn_committed (fst jw) @ [m]\<rparr>, w'))),
     io_CloseReader = \<lambda>t. on_snd (io_CloseReader io t),
     io_CloseWriter = on_snd (io_CloseWriter io),
     io_ctx_Err = \<lambda>jw. io_ctx_Err io (snd jw),
     io_ctx_Done = \<lambda>jw. (fst jw, io_ctx_Done io (snd jw)),
     io_wait = \<lambda>d. on_snd (io_wait io d),
     io_ErrGroupClosed = io_ErrGroupClosed io\<rparr>"

definition watched_env :: "'w env \<Rightarrow> (Journal \<times> 'w) env" where
  "watched_env env = \<lparr>clock_now = on_snd (clock_now env), log_write = \<lambda>r jw. (fst jw, log_write env r (snd jw))\<rparr>"

definition watched_handler :: "'w handler \<Rightarrow> (Journal \<times> 'w) handler" where
  "watched_handler h e = on_snd (h e)"

definition watch :: "'w KBus \<Rightarrow> (Journal \<times> 'w) KBus" where
  "watch b =
    \<lparr>kb_cfg = kb_cfg b, kb_env = watched_env (kb_env b), kb_mw = [], kb_io = watched_io (kb_io b),
     kb_bindings = (\<lambda>t. map_option (map (\<lambda>bd. \<lparr>bd_eventName = bd_eventName bd, bd_handler = watched_handler (bd_handler bd)\<rparr>)) (kb_bindings b t)),
     kb_started = kb_started b, kb_readers = kb_readers b\<rparr>"

lemma watch_sel [simp]:
  "kb_cfg (watch b) = kb_cfg b" "kb_env (watch b) = watched_env (kb_env b)" "kb_io (watch b) = watched_io (kb_io b)"
  "TopicFor (watch b) = TopicFor b" "MaxRetries (watch b) = MaxRetries b" "Backoff (watch b) = Backoff b"
  "RetryTopicFor (watch b) = RetryTopicFor b" "DLQTopicFor (watch b) = DLQTopicFor b" "bus_Codec (watch b) = bus_Codec b"
  by (simp_all add: watch_def TopicFor_def MaxRetries_def Backoff_def RetryTopicFor_def DLQTopicFor_def bus_Codec_def)

lemma watch_handlers [simp]: "handlersFor (watch b) t n = map watched_handler (handlersFor b t n)"
  by (cases "kb_bindings b t") (simp_all add: handlersFor_def bindings_of_def watch_def filter_map o_def)

lemma watched_log [simp]: "klog (watch b) l msg attrs (j, w) = (j, klog b l msg attrs w)"
  by (simp add: klog_def watched_env_def)

lemma watched_deliver:
  "deliver (map watched_handler hs) e errs (j, w) = (fst (deliver hs e errs w), (j, snd (deliver hs e errs w)))"
  by (induction hs arbitrary: errs w)
     (auto simp: watched_handler_def on_snd_def split: prod.splits outcome.splits option.splits)

lemma watched_commit:
  "commit (watch b) c m (j, w) = (j\<lparr>jn_committed := jn_committed j @ [m]\<rparr>, commit b c m w)"
  by (auto simp: commit_def watched_io_def split: prod.splits option.splits)

lemma watched_await: "await (watch b) m (j, w) = (fst (await b m w), (j, snd (await b m w)))"
  by (simp add: await_def Let_def watched_env_def watched_io_def on_snd_def split: prod.splits)

lemma watched_deadLetter:
  "\<exists>now w1 km. clock_now (kb_env b) w = (now, w1) \<and>
     km = \<lparr>km_Topic = DLQTopicFor b (co_businessTopic c), km_Partition = 0, km_Offset = 0, km_Key = km_Key m, km_Value = km_Value m,
       km_Headers = retryHeaders (wrap64 (attemptFrom (km_Headers m) + 1)) now (co_businessTopic c) (Some err)\<rparr> \<and>
     fst (deadLetter b c m err w) = fst (io_WriteMessages (kb_io b) [km] w1) \<and>
     deadLetter (watch b) c m err (j, w) =
      (fst (deadLetter b c m err w),
       (if fst (deadLetter b c m err w) = None then j\<lparr>jn_written := jn_written j @ [km]\<rparr> else j, snd (deadLetter b c m err w)))"
  by (simp add: deadLetter_def Let_def watched_env_def watched_io_def on_snd_def klog_def split: prod.splits option.splits)


text \<open>Where a failed message goes next: its copy for a time and a cause.\<close>

definition copy_for :: "'w KBus \<Rightarrow> consumer \<Rightarrow> KafkaMessage \<Rightarrow> string \<Rightarrow> gotime \<Rightarrow> gerr \<Rightarrow> KafkaMessage" where
  "copy_for b c m topic t cause =
    \<lparr>km_Topic = topic, km_Partition = 0, km_Offset = 0, km_Key = km_Key m, km_Value = km_Value m,
     km_Headers = retryHeaders (wrap64 (attemptFrom (km_Headers m) + 1)) t (co_businessTopic c) (Some cause)\<rparr>"

definition next_topic :: "'w KBus \<Rightarrow> consumer \<Rightarrow> KafkaMessage \<Rightarrow> string" where
  "next_topic b c m =
    (let a = wrap64 (attemptFrom (km_Headers m) + 1) in
     if a > MaxRetries b then DLQTopicFor b (co_businessTopic c) else RetryTopicFor b (co_businessTopic c) a)"

definition due :: "'w KBus \<Rightarrow> KafkaMessage \<Rightarrow> gotime \<Rightarrow> gotime" where
  "due b m now =
    (let a = wrap64 (attemptFrom (km_Headers m) + 1) in if a > MaxRetries b then now else now + Backoff b a)"

definition settled :: "KafkaMessage \<Rightarrow> KafkaMessage \<Rightarrow> Journal \<Rightarrow> Journal" where
  "settled km m j = j\<lparr>jn_written := jn_written j @ [km], jn_committed := jn_committed j @ [m]\<rparr>"

definition writes_ok :: "'w KBus \<Rightarrow> bool" where
  "writes_ok b \<longleftrightarrow> (\<forall>ms w. fst (io_WriteMessages (kb_io b) ms w) = None)"

lemma fail_cases:
  "\<exists>j'. fail (watch b) c m e err (j, w) = (j', fail b c m e err w) \<and>
     (j' = j \<and> \<not> writes_ok b \<or>
      j' = settled (copy_for b c m (next_topic b c m) (due b m (fst (clock_now (kb_env b) w))) err) m j)"
proof (cases "wrap64 (attemptFrom (km_Headers m) + 1) > MaxRetries b")
  case True
  then have d: "decideOutcome (wrap64 (attemptFrom (km_Headers m) + 1)) (MaxRetries b) = outcomeDeadLetter"
    and t: "next_topic b c m = DLQTopicFor b (co_businessTopic c)"
    and u: "due b m now = now" for now
    by (simp_all add: decideOutcome_def next_topic_def due_def)
  obtain w1 km where dl: "km = copy_for b c m (next_topic b c m) (due b m (fst (clock_now (kb_env b) w))) err"
    "fst (deadLetter b c m err w) = fst (io_WriteMessages (kb_io b) [km] w1)"
    "deadLetter (watch b) c m err (j, w) = (fst (deadLetter b c m err w),
       (if fst (deadLetter b c m err w) = None then j\<lparr>jn_written := jn_written j @ [km]\<rparr> else j, snd (deadLetter b c m err w)))"
    using watched_deadLetter [of b w c m err j] unfolding t u copy_for_def by (metis fst_conv)
  show ?thesis
  proof (cases "fst (deadLetter b c m err w)")
    case None
    then show ?thesis
      using dl(1,3) by (cases "deadLetter b c m err w")
        (auto simp: fail_def Let_def d watched_commit settled_def)
  next
    case (Some x)
    then have "\<not> writes_ok b" using dl(2) by (auto simp: writes_ok_def)
    then show ?thesis using dl(3) Some by (cases "deadLetter b c m err w") (auto simp: fail_def Let_def d)
  qed
next
  case False
  then have d: "decideOutcome (wrap64 (attemptFrom (km_Headers m) + 1)) (MaxRetries b) = outcomeRetry"
    and t: "next_topic b c m = RetryTopicFor b (co_businessTopic c) (wrap64 (attemptFrom (km_Headers m) + 1))"
    and u: "due b m now = now + Backoff b (wrap64 (attemptFrom (km_Headers m) + 1))" for now
    by (simp_all add: decideOutcome_def next_topic_def due_def)
  obtain now w1 where n: "clock_now (kb_env b) w = (now, w1)" by fastforce
  define km where "km = copy_for b c m (next_topic b c m) (due b m now) err"
  obtain x w2 where wr: "io_WriteMessages (kb_io b) [km] w1 = (x, w2)" by fastforce
  have wr': "io_WriteMessages (watched_io (kb_io b)) [km] (j, w1) =
      (x, (if x = None then j\<lparr>jn_written := jn_written j @ [km]\<rparr> else j, w2))"
    using wr by (simp add: watched_io_def)
  have n': "clock_now (watched_env (kb_env b)) (j, w) = (now, (j, w1))"
    using n by (simp add: watched_env_def on_snd_def)
  show ?thesis
  proof (cases x)
    case None
    then have "fail (watch b) c m e err (j, w) = (settled km m j, fail b c m e err w)"
      using wr wr' n n' unfolding km_def copy_for_def t u
      by (simp add: fail_def Let_def d watched_commit settled_def)
    then show ?thesis unfolding km_def n fst_conv by blast
  next
    case (Some y)
    then have "\<not> writes_ok b" using wr by (metis fst_conv option.distinct(1) writes_ok_def)
    moreover have "fail (watch b) c m e err (j, w) = (j, fail b c m e err w)"
      using Some wr wr' n n' unfolding km_def copy_for_def t u by (simp add: fail_def Let_def d)
    ultimately show ?thesis by blast
  qed
qed

text \<open>Every handler that is subscribed to the event was run on it, in order, and returned nil.\<close>

definition handled :: "'w KBus \<Rightarrow> consumer \<Rightarrow> KafkaMessage \<Rightarrow> bool" where
  "handled b c m \<longleftrightarrow> (\<exists>e w w'. codec_Decode (bus_Codec b) (km_Value m) = Inr e \<and>
     deliver (handlersFor b (co_businessTopic c) (ev_Name e)) e [] w = (Return [], w'))"

lemma dispatch_cases:
  "\<exists>j'. dispatch (watch b) c m (j, w) = (fst (dispatch b c m w), (j', snd (dispatch b c m w))) \<and>
     (j' = j \<and> (\<not> writes_ok b \<or> (\<exists>p. fst (dispatch b c m w) = Panic p)) \<or>
      fst (dispatch b c m w) = Return () \<and>
      (j' = j\<lparr>jn_committed := jn_committed j @ [m]\<rparr> \<and> handled b c m \<or>
       (\<exists>t err topic. j' = settled (copy_for b c m topic t err) m j \<and>
          (topic = DLQTopicFor b (co_businessTopic c) \<or> topic = next_topic b c m))))"
proof (cases "codec_Decode (bus_Codec b) (km_Value m)")
  case (Inl err)
  let ?w = "klog b LevelError ''kafka message failed to decode, sending to dead-letter topic''
            [(''topic'', AttrText (co_physicalTopic c)), (''error'', AttrError err)] w"
  obtain now w1 km where dl: "km = copy_for b c m (DLQTopicFor b (co_businessTopic c)) now err"
    "fst (deadLetter b c m err ?w) = fst (io_WriteMessages (kb_io b) [km] w1)"
    "deadLetter (watch b) c m err (j, ?w) = (fst (deadLetter b c m err ?w),
       (if fst (deadLetter b c m err ?w) = None then j\<lparr>jn_written := jn_written j @ [km]\<rparr> else j, snd (deadLetter b c m err ?w)))"
    using watched_deadLetter [of b ?w c m err j] unfolding copy_for_def by blast
  show ?thesis
  proof (cases "fst (deadLetter b c m err ?w)")
    case None
    then have "dispatch (watch b) c m (j, w) = (fst (dispatch b c m w), (settled km m j, snd (dispatch b c m w)))"
      "fst (dispatch b c m w) = Return ()"
      using dl(3) Inl by (cases "deadLetter b c m err ?w"; auto simp: dispatch_def Let_def watched_commit settled_def)+
    then show ?thesis unfolding dl(1) by blast
  next
    case (Some x)
    then have "\<not> writes_ok b" using dl(2) by (auto simp: writes_ok_def)
    then show ?thesis using Some dl(3) Inl by (cases "deadLetter b c m err ?w") (auto simp: dispatch_def)
  qed
next
  case (Inr e)
  let ?hs = "handlersFor b (co_businessTopic c) (ev_Name e)"
  show ?thesis
  proof (cases "?hs = []")
    case True
    then have "handled b c m" using Inr by (auto simp: handled_def)
    then show ?thesis using Inr True by (auto simp: dispatch_def Let_def watched_commit)
  next
    case False
    obtain r w1 where d: "deliver ?hs e [] w = (r, w1)" by fastforce
    have d': "deliver (map watched_handler ?hs) e [] (j, w) = (r, (j, w1))" using watched_deliver [of ?hs e "[]" j w] d by simp
    show ?thesis
    proof (cases r)
      case (Panic p)
      then show ?thesis using Inr False d d' by (simp add: dispatch_def Let_def)
    next
      case (Return errs)
      show ?thesis
      proof (cases "errs = []")
        case True
        then have "handled b c m" using Inr d Return by (auto simp: handled_def)
        then show ?thesis using Inr False d d' Return True by (simp add: dispatch_def Let_def watched_commit errors_Join_def)
      next
        case ne: False
        obtain j' where f: "fail (watch b) c m e (JoinError errs) (j, w1) = (j', fail b c m e (JoinError errs) w1)"
          "j' = j \<and> \<not> writes_ok b \<or> (\<exists>t. j' = settled (copy_for b c m (next_topic b c m) t (JoinError errs)) m j)"
          using fail_cases [of b c m e "JoinError errs" j w1] by blast
        then have "dispatch (watch b) c m (j, w) = (fst (dispatch b c m w), (j', snd (dispatch b c m w)))"
          "fst (dispatch b c m w) = Return ()"
          using Inr False d d' Return ne by (simp_all add: dispatch_def Let_def errors_Join_def)
        then show ?thesis using f(2) by blast
      qed
    qed
  qed
qed

text \<open>A copy that the consumer writes goes to the dead-letter topic, or to the retry topic that its own attempt numbers.\<close>

definition hop_of :: "'w KBus \<Rightarrow> consumer \<Rightarrow> KafkaMessage \<Rightarrow> KafkaMessage \<Rightarrow> bool" where
  "hop_of b c m km \<longleftrightarrow> km_Key km = km_Key m \<and> km_Value km = km_Value m \<and>
    (km_Topic km = DLQTopicFor b (co_businessTopic c) \<or>
     km_Topic km = RetryTopicFor b (co_businessTopic c) (attemptFrom (km_Headers km)) \<and> attemptFrom (km_Headers km) \<le> MaxRetries b)"

lemma copy_is_a_hop:
  assumes "topic = DLQTopicFor b (co_businessTopic c) \<or> topic = next_topic b c m"
  shows "\<exists>km. settled (copy_for b c m topic t err) m j = j\<lparr>jn_written := jn_written j @ [km], jn_committed := jn_committed j @ [m]\<rparr> \<and>
     hop_of b c m km"
proof (intro exI [of _ "copy_for b c m topic t err"] conjI)
  have "attemptFrom (km_Headers (copy_for b c m topic t err)) = wrap64 (attemptFrom (km_Headers m) + 1)"
    using attempt_of_retry [OF wrap64_range] by (simp add: copy_for_def)
  with assms show "hop_of b c m (copy_for b c m topic t err)"
    by (auto simp: hop_of_def copy_for_def next_topic_def Let_def split: if_splits)
qed (simp add: settled_def)

lemma handle_cases:
  assumes "await b m w = (True, w1)"
  shows "\<exists>j'. consumer_handle (watch b) c m (j, w) = (fst (consumer_handle b c m w), (j', snd (consumer_handle b c m w))) \<and>
     (j' = j \<and> (\<not> writes_ok b \<or> (\<exists>p. fst (consumer_handle b c m w) = Panic p)) \<or>
      fst (consumer_handle b c m w) = Return () \<and>
      (j' = j\<lparr>jn_committed := jn_committed j @ [m]\<rparr> \<and> handled b c m \<or>
       (\<exists>km. j' = j\<lparr>jn_written := jn_written j @ [km], jn_committed := jn_committed j @ [m]\<rparr> \<and>
         hop_of b c m km)))"
proof -
  have e: "consumer_handle b c m w = dispatch b c m w1"
    "consumer_handle (watch b) c m (j, w) = dispatch (watch b) c m (j, w1)"
    using assms by (simp_all add: consumer_handle_def watched_await)
  obtain j1 where d: "dispatch (watch b) c m (j, w1) = (fst (dispatch b c m w1), (j1, snd (dispatch b c m w1)))"
    and j1: "j1 = j \<and> (\<not> writes_ok b \<or> (\<exists>p. fst (dispatch b c m w1) = Panic p)) \<or>
      fst (dispatch b c m w1) = Return () \<and>
      (j1 = j\<lparr>jn_committed := jn_committed j @ [m]\<rparr> \<and> handled b c m \<or>
       (\<exists>t err topic. j1 = settled (copy_for b c m topic t err) m j \<and>
          (topic = DLQTopicFor b (co_businessTopic c) \<or> topic = next_topic b c m)))"
    using dispatch_cases [of b c m j w1] by (elim exE conjE) (rule that; assumption)
  note hop = copy_is_a_hop [of _ b c m _ _ j]
  show ?thesis
    unfolding e by (rule exI [of _ j1], rule conjI [OF d], rule disj_forward [OF j1], assumption, erule conj_forward, assumption,
        erule disj_forward, assumption, elim exE conjE, erule ssubst, erule hop)
qed

text \<open>Property C18: an offset is committed only after its message is safe. Whatever the handlers, the client library and the
  context do, handling a message either sends no commit, or sends exactly the commit of that message once the read loop goes on, and
  then either every handler subscribed to the event had run and returned nil, or a copy with the same key and value had been
  acknowledged on the dead-letter topic or on a retry topic numbered with its attempt, at most the maximum. Watching the bus
  changes nothing of what it does.\<close>

theorem commit_only_when_safe:
  assumes "consumer_handle (watch b) c m (j, w) = (r, (j', w'))"
  shows "consumer_handle b c m w = (r, w') \<and>
    (j' = j \<or>
     r = Return () \<and>
     (j' = j\<lparr>jn_committed := jn_committed j @ [m]\<rparr> \<and> handled b c m \<or>
      (\<exists>km. j' = j\<lparr>jn_written := jn_written j @ [km], jn_committed := jn_committed j @ [m]\<rparr> \<and>
         hop_of b c m km)))"
proof -
  obtain ok w1 where aw: "await b m w = (ok, w1)" by fastforce
  show ?thesis
  proof (cases ok)
    case False
    then show ?thesis using assms(1) aw by (auto simp: consumer_handle_def watched_await)
  next
    case True
    then show ?thesis
      using handle_cases [of b m w w1 c j] aw assms(1) by (auto simp: prod_eq_iff)
  qed
qed

text \<open>A bus for the examples: its codec reads the value as the name of the event, and the events named \<open>bad\<close> are refused.\<close>

definition name_codec :: Codec where
  "name_codec = \<lparr>codec_Encode = \<lambda>e. Inr (ev_Name e), codec_Decode = \<lambda>s. Inr (demo_event\<lparr>ev_Name := s\<rparr>)\<rparr>"

definition refusing :: "Broker handler" where
  "refusing e w = (Return (Some (ErrorString ''no'')), w)"

definition accepting :: "Broker handler" where
  "accepting e w = (Return None, w)"

definition demo_bus :: "Broker KBus" where
  "demo_bus = \<lparr>kb_cfg = setDefaults (\<lambda>_. []) (demo_config\<lparr>cfg_TopicFor := Some (\<lambda>_. ''t''), cfg_Codec := Some name_codec,
       cfg_Backoff := Some (\<lambda>_. Second)\<rparr>),
     kb_env = broker_env, kb_mw = [], kb_io = demo_io,
     kb_bindings = [''t'' \<mapsto> [\<lparr>bd_eventName = ''bad'', bd_handler = refusing\<rparr>, \<lparr>bd_eventName = ''good'', bd_handler = accepting\<rparr>]],
     kb_started = False, kb_readers = []\<rparr>"

lemma demo_bus_sel [simp]:
  "kb_io demo_bus = demo_io" "kb_env demo_bus = broker_env" "MaxRetries demo_bus = 2" "bus_Codec demo_bus = name_codec"
  "RetryTopicFor demo_bus = defaultRetryTopicFor" "DLQTopicFor demo_bus = defaultDLQTopicFor"
  "handlersFor demo_bus ''t'' ''bad'' = [refusing]" "handlersFor demo_bus ''t'' ''good'' = [accepting]"
  by (simp_all add: demo_bus_def setDefaults_def demo_config_def MaxRetries_def bus_Codec_def RetryTopicFor_def DLQTopicFor_def
      handlersFor_def bindings_of_def)

definition demo_message :: "string \<Rightarrow> int \<Rightarrow> KafkaMessage" where
  "demo_message n off = \<lparr>km_Topic = ''t'', km_Partition = 0, km_Offset = off, km_Key = ''c-1'', km_Value = n, km_Headers = []\<rparr>"

definition demo_consumer :: consumer where
  "demo_consumer = \<lparr>co_physicalTopic = ''t'', co_businessTopic = ''t''\<rparr>"

lemma demo_headers [simp]: "attemptFrom (km_Headers (demo_message n off)) = 0" "notBeforeFrom (km_Headers (demo_message n off)) = zero_time"
  by (simp_all add: demo_message_def attemptFrom_def notBeforeFrom_def Atoi_def)

theorem commit_only_when_safe_witness:
  "\<exists>w'. consumer_handle (watch demo_bus) demo_consumer (demo_message ''good'' 7) (\<lparr>jn_written = [], jn_committed = []\<rparr>, demo_broker) =
    (Return (), (\<lparr>jn_written = [], jn_committed = [demo_message ''good'' 7]\<rparr>, w')) \<and>
    consumer_handle demo_bus demo_consumer (demo_message ''good'' 7) demo_broker = (Return (), w')"
proof -
  let ?m = "demo_message ''good'' 7" and ?j = "\<lparr>jn_written = [], jn_committed = []\<rparr>"
  have v: "km_Value ?m = ''good''" by (simp add: demo_message_def)
  obtain w' where h: "consumer_handle (watch demo_bus) demo_consumer ?m (?j, demo_broker) = (Return (), (\<lparr>jn_written = [], jn_committed = [?m]\<rparr>, w'))"
    by (simp add: consumer_handle_def await_def dispatch_def v name_codec_def demo_consumer_def watched_handler_def on_snd_def
        accepting_def watched_commit errors_Join_def)
  from commit_only_when_safe [OF h] h show ?thesis by blast
qed

subsection \<open>A message that is never handled\<close>

text \<open>
  The life of a message whose event no attempt can handle: each consumer in turn reads what the one before it wrote last.
  The reader gives a message the topic, key, value and headers it was written with.
\<close>

fun redeliver :: "nat \<Rightarrow> 'w KBus \<Rightarrow> string \<Rightarrow> KafkaMessage \<Rightarrow> Journal \<times> 'w \<Rightarrow> Journal \<times> 'w" where
  "redeliver 0 b t m jw = jw"
| "redeliver (Suc n) b t m jw =
    (let jw' = snd (consumer_handle (watch b) \<lparr>co_physicalTopic = km_Topic m, co_businessTopic = t\<rparr> m jw)
     in redeliver n b t (last (jn_written (fst jw'))) jw')"

definition always_refused :: "'w KBus \<Rightarrow> string \<Rightarrow> string \<Rightarrow> bool" where
  "always_refused b t v \<longleftrightarrow> (\<exists>e. codec_Decode (bus_Codec b) v = Inr e \<and>
     (\<forall>w. \<exists>errs w'. deliver (handlersFor b t (ev_Name e)) e [] w = (Return errs, w') \<and> errs \<noteq> []))"

lemma refused_step:
  assumes "always_refused b t (km_Value m)" "writes_ok b" "\<And>d w. fst (io_wait (kb_io b) d w)" "co_businessTopic c = t"
  shows "\<exists>tm err w'. consumer_handle (watch b) c m (j, w) = (Return (), (settled (copy_for b c m (next_topic b c m) tm err) m j, w'))"
proof -
  obtain e where e: "codec_Decode (bus_Codec b) (km_Value m) = Inr e"
    "\<And>w. \<exists>errs w'. deliver (handlersFor b t (ev_Name e)) e [] w = (Return errs, w') \<and> errs \<noteq> []"
    using assms(1) by (auto simp: always_refused_def)
  have "fst (await b m w)" using assms(3) by (simp add: await_def Let_def split: prod.splits)
  then obtain w1 where aw: "await b m w = (True, w1)" by (cases "await b m w") auto
  obtain errs w2 where d: "deliver (handlersFor b t (ev_Name e)) e [] w1 = (Return errs, w2)" "errs \<noteq> []" using e(2) by blast
  then have ne: "handlersFor b t (ev_Name e) \<noteq> []" by auto
  obtain j' where f: "fail (watch b) c m e (JoinError errs) (j, w2) = (j', fail b c m e (JoinError errs) w2)"
    "\<exists>tm. j' = settled (copy_for b c m (next_topic b c m) tm (JoinError errs)) m j"
    using fail_cases [of b c m e "JoinError errs" j w2] assms(2) by blast
  have "consumer_handle (watch b) c m (j, w) = (Return (), (j', fail b c m e (JoinError errs) w2))"
    using aw e(1) d ne f(1) assms(4)
    by (simp add: consumer_handle_def watched_await dispatch_def Let_def watched_deliver errors_Join_def)
  then show ?thesis using f(2) by blast
qed

lemma redeliver_spec:
  assumes "writes_ok b" "\<And>d w. fst (io_wait (kb_io b) d w)" "MaxRetries b = int N" "Suc N < 2 ^ 63"
  shows "always_refused b t (km_Value m) \<Longrightarrow> attemptFrom (km_Headers m) = int k \<Longrightarrow> k + n \<le> Suc N \<Longrightarrow>
    \<exists>ms w'. redeliver n b t m (j, w) =
        (j\<lparr>jn_written := jn_written j @ ms, jn_committed := jn_committed j @ butlast (m # ms)\<rparr>, w') \<and>
      map (\<lambda>x. attemptFrom (km_Headers x)) ms = map int [Suc k..<Suc k + n] \<and>
      map km_Topic ms = map (\<lambda>a. if a > N then DLQTopicFor b t else RetryTopicFor b t (int a)) [Suc k..<Suc k + n] \<and>
      (\<forall>x \<in> set ms. km_Value x = km_Value m \<and> km_Key x = km_Key m)"
proof (induction n arbitrary: m k j w)
  case 0
  then show ?case by simp
next
  case (Suc n)
  let ?c = "\<lparr>co_physicalTopic = km_Topic m, co_businessTopic = t\<rparr>"
  have "\<exists>tm err w1. consumer_handle (watch b) ?c m (j, w) =
      (Return (), (settled (copy_for b ?c m (next_topic b ?c m) tm err) m j, w1))"
    by (rule refused_step [OF Suc.prems(1) assms(1,2)]) simp
  then obtain tm err w1 where h: "consumer_handle (watch b) ?c m (j, w) =
      (Return (), (settled (copy_for b ?c m (next_topic b ?c m) tm err) m j, w1))" by blast
  define km where "km = copy_for b ?c m (next_topic b ?c m) tm err"
  have w: "wrap64 (attemptFrom (km_Headers m) + 1) = int (Suc k)"
    using Suc.prems(2,3) assms(4) by (simp add: wrap64_id)
  have km: "attemptFrom (km_Headers km) = int (Suc k)" "km_Value km = km_Value m" "km_Key km = km_Key m"
    "km_Topic km = (if Suc k > N then DLQTopicFor b t else RetryTopicFor b t (int (Suc k)))"
    using attempt_of_retry [of "int (Suc k)"] wrap64_range [of "attemptFrom (km_Headers m) + 1"] w assms(3)
    by (simp_all add: km_def copy_for_def next_topic_def Let_def)
  let ?j = "settled km m j"
  have "always_refused b t (km_Value km)" "Suc k + n \<le> Suc N" using Suc.prems km by simp_all
  from Suc.IH [OF this(1) km(1) this(2), of ?j w1] obtain ms w' where ms:
    "redeliver n b t km (?j, w1) = (?j\<lparr>jn_written := jn_written ?j @ ms, jn_committed := jn_committed ?j @ butlast (km # ms)\<rparr>, w')"
    "map (\<lambda>x. attemptFrom (km_Headers x)) ms = map int [Suc (Suc k)..<Suc (Suc k) + n]"
    "map km_Topic ms = map (\<lambda>a. if a > N then DLQTopicFor b t else RetryTopicFor b t (int a)) [Suc (Suc k)..<Suc (Suc k) + n]"
    "\<forall>x \<in> set ms. km_Value x = km_Value km \<and> km_Key x = km_Key km" by blast
  have "redeliver (Suc n) b t m (j, w) = redeliver n b t km (?j, w1)"
    using h by (simp add: km_def settled_def)
  moreover have "[Suc k..<Suc k + Suc n] = Suc k # [Suc (Suc k)..<Suc (Suc k) + n]"
    by (simp add: upt_conv_Cons del: upt_Suc)
  ultimately show ?case
    using ms km by (intro exI [of _ "km # ms"]) (simp add: settled_def del: upt_Suc)
qed

text \<open>Property C19: a poison message neither blocks its partition nor is lost. When no attempt can handle a message that was
  never retried, and writes and waits succeed, it is written once to each retry topic from 1 to the maximum, in that order, and then to the
  dead-letter topic, always with its key and value and with the number of attempts made, and the offset of every
  one of its copies before that is committed: \<open>MaxRetries + 1\<close> attempts are made in all.\<close>

theorem poison_message_is_dead_lettered:
  assumes "always_refused b t (km_Value m)" "attemptFrom (km_Headers m) = 0" "writes_ok b" "\<And>d w. fst (io_wait (kb_io b) d w)"
    and "MaxRetries b = int N" "Suc N < 2 ^ 63"
  shows "\<exists>ms w'. redeliver (Suc N) b t m (j, w) =
      (j\<lparr>jn_written := jn_written j @ ms, jn_committed := jn_committed j @ butlast (m # ms)\<rparr>, w') \<and>
    map km_Topic ms = map (\<lambda>a. RetryTopicFor b t (int a)) [1..<Suc N] @ [DLQTopicFor b t] \<and>
    map (\<lambda>x. attemptFrom (km_Headers x)) ms = map int [1..<Suc (Suc N)] \<and>
    (\<forall>x \<in> set ms. km_Value x = km_Value m \<and> km_Key x = km_Key m)"
proof -
  have "attemptFrom (km_Headers m) = int 0" "0 + Suc N \<le> Suc N" using assms(2) by simp_all
  from redeliver_spec [OF assms(3-6,1) this, of j w] obtain ms w' where ms:
    "redeliver (Suc N) b t m (j, w) = (j\<lparr>jn_written := jn_written j @ ms, jn_committed := jn_committed j @ butlast (m # ms)\<rparr>, w')"
    "map (\<lambda>x. attemptFrom (km_Headers x)) ms = map int [Suc 0..<Suc 0 + Suc N]"
    "map km_Topic ms = map (\<lambda>a. if a > N then DLQTopicFor b t else RetryTopicFor b t (int a)) [Suc 0..<Suc 0 + Suc N]"
    "\<forall>x \<in> set ms. km_Value x = km_Value m \<and> km_Key x = km_Key m" by blast
  have u: "[Suc 0..<Suc 0 + Suc N] = [1..<Suc N] @ [Suc N]" by simp
  have "map (\<lambda>a. if a > N then DLQTopicFor b t else RetryTopicFor b t (int a)) [1..<Suc N] = map (\<lambda>a. RetryTopicFor b t (int a)) [1..<Suc N]"
    by (rule map_cong) auto
  then show ?thesis using ms unfolding u by (intro exI [of _ ms] exI [of _ w']) (simp del: redeliver.simps)
qed

lemma demo_io_ok: "writes_ok (demo_bus\<lparr>kb_io := demo_io\<lparr>io_WriteMessages := \<lambda>ms w. (None, w\<lparr>br_log := br_log w @ ms\<rparr>)\<rparr>\<rparr>)"
  by (simp add: writes_ok_def)

theorem poison_message_is_dead_lettered_witness:
  "\<exists>j' w'. redeliver 3 (demo_bus\<lparr>kb_io := demo_io\<lparr>io_WriteMessages := \<lambda>ms w. (None, w\<lparr>br_log := br_log w @ ms\<rparr>)\<rparr>\<rparr>) ''t''
      (demo_message ''bad'' 7) (\<lparr>jn_written = [], jn_committed = []\<rparr>, demo_broker) = (j', w') \<and>
    map km_Topic (jn_written j') = [''t.retry.1'', ''t.retry.2'', ''t.dlq''] \<and> length (jn_committed j') = 3"
proof -
  let ?b = "demo_bus\<lparr>kb_io := demo_io\<lparr>io_WriteMessages := \<lambda>ms w. (None, w\<lparr>br_log := br_log w @ ms\<rparr>)\<rparr>\<rparr>"
  have s: "MaxRetries ?b = int 2" "RetryTopicFor ?b = defaultRetryTopicFor" "DLQTopicFor ?b = defaultDLQTopicFor"
    "bus_Codec ?b = name_codec" "handlersFor ?b ''t'' ''bad'' = [refusing]"
    using demo_bus_sel by (simp_all add: MaxRetries_def RetryTopicFor_def DLQTopicFor_def bus_Codec_def handlersFor_def bindings_of_def)
  have r: "always_refused ?b ''t'' (km_Value (demo_message ''bad'' 7))"
    using s by (simp add: always_refused_def demo_message_def name_codec_def refusing_def)
  have w: "fst (io_wait (kb_io ?b) d w)" for d w by (simp add: demo_io_def)
  have i: "Itoa 1 = ''1''" "Itoa 2 = ''2''" by code_simp+
  obtain ms w' where "redeliver (Suc 2) ?b ''t'' (demo_message ''bad'' 7) (\<lparr>jn_written = [], jn_committed = []\<rparr>, demo_broker) =
      (\<lparr>jn_written = ms, jn_committed = butlast (demo_message ''bad'' 7 # ms)\<rparr>, w')"
    "map km_Topic ms = map (\<lambda>a. RetryTopicFor ?b ''t'' (int a)) [1..<Suc 2] @ [DLQTopicFor ?b ''t'']"
    using poison_message_is_dead_lettered [OF r _ demo_io_ok w s(1), of "\<lparr>jn_written = [], jn_committed = []\<rparr>" demo_broker] by auto
  moreover from this(2) have "map km_Topic ms = [''t.retry.1'', ''t.retry.2'', ''t.dlq'']"
    using i by (simp add: s defaultRetryTopicFor_def defaultDLQTopicFor_def upt_rec numeral_2_eq_2)
  moreover from this have "length ms = 3" by (metis length_map list.size(3,4) numeral_3_eq_3 One_nat_def Suc_eq_plus1 add.commute add_0)
  ultimately show ?thesis by (auto simp: numeral_3_eq_3 numeral_2_eq_2 simp del: redeliver.simps)
qed

subsection \<open>A commit that passes over a failed message\<close>


end
