(* ===== verification/GoDuration.thy ===== *)
theory GoDuration
  imports GoTime "HOL-Library.Log_Nat"
begin

text \<open>
  \<open>time.ParseDuration\<close>, with the rounding of the 64-bit floats it computes fractions with. It models the standard
  library, so nothing here maps to a file under src/.
\<close>

subsection \<open>Rounding to 53 bits\<close>

text \<open>A non-negative float is a fraction of integers; \<open>round53\<close> rounds one to the nearest float, ties to even.\<close>

definition div_even :: "int \<Rightarrow> int \<Rightarrow> int" where
  "div_even a b =
    (let q = a div b; r = a mod b in if 2 * r < b \<or> 2 * r = b \<and> even q then q else q + 1)"

definition scaled :: "int \<Rightarrow> int \<times> int \<Rightarrow> int \<times> int" where
  "scaled e x = (if 0 \<le> e then (fst x, snd x * 2 ^ nat e) else (fst x * 2 ^ nat (- e), snd x))"

definition round53 :: "int \<times> int \<Rightarrow> int \<times> int" where
  "round53 x =
    (if fst x = 0 then (0, 1)
     else
       let e0 = bitlen (fst x) - bitlen (snd x) - 53;
           e = (if fst (scaled e0 x) < 2 ^ 53 * snd (scaled e0 x) then e0 else e0 + 1);
           m = div_even (fst (scaled e x)) (snd (scaled e x))
       in if 0 \<le> e then (m * 2 ^ nat e, 1) else (m, 2 ^ nat (- e)))"

definition float_mult :: "int \<times> int \<Rightarrow> int \<times> int \<Rightarrow> int \<times> int" where
  "float_mult x y = round53 (fst x * fst y, snd x * snd y)"

definition float_div :: "int \<times> int \<Rightarrow> int \<times> int \<Rightarrow> int \<times> int" where
  "float_div x y = round53 (fst x * snd y, snd x * fst y)"

subsection \<open>Parsing\<close>

text \<open>The longest prefix of digits, or an overflow.\<close>

fun leadingInt :: "int \<Rightarrow> string \<Rightarrow> (int \<times> string) option" where
  "leadingInt x [] = Some (x, [])"
| "leadingInt x (c # s) =
    (if \<not> is_digit c then Some (x, c # s)
     else if x > 2 ^ 63 div 10 then None
     else if x * 10 + int (digit_val c) > 2 ^ 63 then None
     else leadingInt (x * 10 + int (digit_val c)) s)"

text \<open>The digits of a fraction and their scale; digits that would overflow are dropped.\<close>

fun leadingFraction :: "int \<Rightarrow> nat \<Rightarrow> bool \<Rightarrow> string \<Rightarrow> int \<times> nat \<times> string" where
  "leadingFraction x k over [] = (x, k, [])"
| "leadingFraction x k over (c # s) =
    (if \<not> is_digit c then (x, k, c # s)
     else if over \<or> x > (2 ^ 63 - 1) div 10 \<or> x * 10 + int (digit_val c) > 2 ^ 63 then leadingFraction x k True s
     else leadingFraction (x * 10 + int (digit_val c)) (k + 1) False s)"

definition micro_sign :: string where "micro_sign = [CHR 0xC2, CHR 0xB5]"
definition greek_mu :: string where "greek_mu = [CHR 0xCE, CHR 0xBC]"

definition unit_nanoseconds :: "string \<Rightarrow> int option" where
  "unit_nanoseconds u =
    (if u = ''ns'' then Some 1
     else if u = ''us'' \<or> u = micro_sign @ ''s'' \<or> u = greek_mu @ ''s'' then Some 1000
     else if u = ''ms'' then Some 1000000
     else if u = ''s'' then Some 1000000000
     else if u = ''m'' then Some 60000000000
     else if u = ''h'' then Some 3600000000000
     else None)"

definition unit_char :: "char \<Rightarrow> bool" where
  "unit_char c \<longleftrightarrow> c \<noteq> CHR ''.'' \<and> \<not> is_digit c"

text \<open>One number with its unit: its nanoseconds and the rest of the text.\<close>

definition parse_term :: "string \<Rightarrow> (int \<times> string) option" where
  "parse_term s =
    (case s of
      [] \<Rightarrow> None
    | c # _ \<Rightarrow>
        if unit_char c then None
        else
          (case leadingInt 0 s of
            None \<Rightarrow> None
          | Some (v, s1) \<Rightarrow>
              let pre = (s1 \<noteq> s);
                  (f, k, s2) = (case s1 of d # s' \<Rightarrow> if d = CHR ''.'' then leadingFraction 0 0 False s' else (0, 0, s1) | [] \<Rightarrow> (0, 0, s1));
                  post = (case s1 of d # s' \<Rightarrow> d = CHR ''.'' \<and> s2 \<noteq> s' | [] \<Rightarrow> False);
                  u = takeWhile unit_char s2
              in if \<not> pre \<and> \<not> post then None
                 else (case unit_nanoseconds u of
                    None \<Rightarrow> None
                  | Some n \<Rightarrow>
                      if v > 2 ^ 63 div n then None
                      else
                        let frac = float_mult (round53 (f, 1)) (float_div (n, 1) (10 ^ k, 1));
                            t = v * n + (if 0 < f then fst frac div snd frac else 0)
                        in if t > 2 ^ 63 then None else Some (t, dropWhile unit_char s2))))"

fun parse_terms :: "nat \<Rightarrow> int \<Rightarrow> string \<Rightarrow> int option" where
  "parse_terms 0 d s = None"
| "parse_terms (Suc fuel) d s =
    (if s = [] then Some d
     else (case parse_term s of
        None \<Rightarrow> None
      | Some (t, r) \<Rightarrow> if d + t > 2 ^ 63 then None else parse_terms fuel (d + t) r))"

definition ParseDuration :: "string \<Rightarrow> int option" where
  "ParseDuration s =
    (let neg = (s \<noteq> [] \<and> hd s = CHR ''-'');
         s = (if s \<noteq> [] \<and> (hd s = CHR ''-'' \<or> hd s = CHR ''+'') then tl s else s)
     in if s = ''0'' then Some 0
        else if s = [] then None
        else (case parse_terms (Suc (length s)) 0 s of
          None \<Rightarrow> None
        | Some d \<Rightarrow> if neg then Some (- d) else if d > 2 ^ 63 - 1 then None else Some d))"

subsection \<open>The fuel is enough\<close>

lemma leadingInt_length: "leadingInt x s = Some (v, r) \<Longrightarrow> length r \<le> length s"
  by (induction x s rule: leadingInt.induct) (fastforce split: if_splits)+

lemma leadingFraction_length: "leadingFraction x k ov s = (f, j, r) \<Longrightarrow> length r \<le> length s"
  by (induction x k ov s rule: leadingFraction.induct) (fastforce split: if_splits)+

text \<open>Every number takes at least one character, so the recursion ends because the text does.\<close>

lemma parse_term_length:
  assumes "parse_term s = Some (t, r)"
  shows "length r < length s"
proof -
  obtain c s' where s: "s = c # s'" using assms by (cases s) (auto simp: parse_term_def)
  then have c: "\<not> unit_char c" using assms by (auto simp: parse_term_def split: if_splits)
  then obtain v s1 where s1: "leadingInt 0 s = Some (v, s1)" using assms s by (auto simp: parse_term_def split: option.splits)
  define fk where "fk = (case s1 of d # s' \<Rightarrow> if d = CHR ''.'' then leadingFraction 0 0 False s' else (0, 0, s1) | [] \<Rightarrow> (0, 0, s1))"
  obtain f k s2 where fk: "fk = (f, k, s2)" by (cases fk) auto
  have l: "length s2 \<le> length s1"
    using fk unfolding fk_def by (auto split: list.splits if_splits dest: leadingFraction_length)
  have u: "unit_nanoseconds (takeWhile unit_char s2) \<noteq> None" and r: "r = dropWhile unit_char s2"
    using assms c s1 s fk [unfolded fk_def] by (auto simp: parse_term_def Let_def split: option.splits if_splits list.splits)
  have "takeWhile unit_char s2 \<noteq> []" using u by (auto simp: unit_nanoseconds_def micro_sign_def greek_mu_def)
  moreover have "length s2 = length (takeWhile unit_char s2) + length r"
    unfolding r by (metis length_append takeWhile_dropWhile_id)
  ultimately show ?thesis using l leadingInt_length [OF s1] by (cases "takeWhile unit_char s2") auto
qed

lemma parse_terms_fuel: "length s < n \<Longrightarrow> length s < m \<Longrightarrow> parse_terms n d s = parse_terms m d s"
proof (induction n arbitrary: m d s)
  case (Suc n)
  then obtain k where m: "m = Suc k" by (cases m) auto
  have "parse_terms n (d + t) r = parse_terms k (d + t) r" if "parse_term s = Some (t, r)" for t r
    using parse_term_length [OF that] Suc.prems m by (intro Suc.IH) simp_all
  then show ?case by (auto simp: m split: option.split)
qed simp

lemma ParseDuration_examples:
  "ParseDuration ''1.5h'' = Some (90 * Minute)" "ParseDuration ''-1m30s'' = Some (- 90 * Second)" "ParseDuration ''2'' = None"
  "ParseDuration ''250ms'' = Some (250 * Millisecond)"
  by code_simp+

end
