(* ===== verification/AppConfig.thy ===== *)
theory AppConfig
  imports GoDuration JsonValues
begin

text \<open>
  The configuration of the processes, \<open>internal/platform/config\<close>: the tree with its defaults, the JSON file over
  them, the environment over both, and the validation. The environment and the file system are arguments: \<open>getenv\<close> gives
  the empty string for an unset variable, \<open>stat\<close> tells whether a file can be found, and \<open>readFile\<close> gives its bytes or
  an error.
\<close>

subsection \<open>The tree\<close>

record HTTPConfig =
  http_Addr :: string
  http_ReadTimeout :: int
  http_WriteTimeout :: int
  http_ShutdownTimeout :: int

record GRPCConfig =
  grpc_Addr :: string

record LogConfig =
  log_Level :: string
  log_Format :: string

record DatabaseConfig =
  db_DSN :: string
  db_MaxOpenConns :: int
  db_MaxIdleConns :: int
  db_ConnMaxLifetime :: int

record KafkaSettings =
  kfk_Brokers :: "string list"
  kfk_GroupID :: string
  kfk_MaxRetries :: int
  kfk_RetryBaseDelay :: int
  kfk_RetryMaxDelay :: int

record OutboxConfig =
  obx_PollInterval :: int
  obx_BatchSize :: int

record Config =
  app_Env :: string
  app_HTTP :: HTTPConfig
  app_GRPC :: GRPCConfig
  app_Log :: LogConfig
  app_Database :: DatabaseConfig
  app_Kafka :: KafkaSettings
  app_Outbox :: OutboxConfig

definition Default :: Config where
  "Default =
    \<lparr>app_Env = ''dev'',
     app_HTTP = \<lparr>http_Addr = '':8080'', http_ReadTimeout = 10 * Second, http_WriteTimeout = 15 * Second,
       http_ShutdownTimeout = 20 * Second\<rparr>,
     app_GRPC = \<lparr>grpc_Addr = '':9090''\<rparr>,
     app_Log = \<lparr>log_Level = ''info'', log_Format = ''text''\<rparr>,
     app_Database = \<lparr>db_DSN = [], db_MaxOpenConns = 20, db_MaxIdleConns = 10, db_ConnMaxLifetime = 30 * Minute\<rparr>,
     app_Kafka = \<lparr>kfk_Brokers = [], kfk_GroupID = ''myapp'', kfk_MaxRetries = 3, kfk_RetryBaseDelay = Second,
       kfk_RetryMaxDelay = 30 * Second\<rparr>,
     app_Outbox = \<lparr>obx_PollInterval = Second, obx_BatchSize = 100\<rparr>\<rparr>"

subsection \<open>The file\<close>

text \<open>
  A struct is read member by member; the result tells whether some value had the wrong type or some key is not a
  field, which the decoder reports at the end. \<open>null\<close> leaves a struct alone.
\<close>

fun read_struct :: "string list \<Rightarrow> (string \<Rightarrow> json \<Rightarrow> 'r \<Rightarrow> 'r \<times> bool) \<Rightarrow> (nat list \<times> json) list \<Rightarrow> 'r \<Rightarrow> 'r \<times> bool" where
  "read_struct names rd [] r = (r, False)"
| "read_struct names rd ((k, x) # ms) r =
    (let (r1, bad) = (case field_for names k of None \<Rightarrow> (r, True) | Some n \<Rightarrow> rd n x r);
         (r2, bads) = read_struct names rd ms r1
     in (r2, bad \<or> bads))"

definition read_object :: "string list \<Rightarrow> (string \<Rightarrow> json \<Rightarrow> 'r \<Rightarrow> 'r \<times> bool) \<Rightarrow> json \<Rightarrow> 'r \<Rightarrow> 'r \<times> bool" where
  "read_object names rd x r =
    (case x of JObj ms \<Rightarrow> read_struct names rd ms r | JNull \<Rightarrow> (r, False) | _ \<Rightarrow> (r, True))"

fun read_string_elems :: "json list \<Rightarrow> string list \<Rightarrow> string list \<times> bool" where
  "read_string_elems [] old = ([], False)"
| "read_string_elems (x # xs) old =
    (let (v, bad) = read_string x (case old of [] \<Rightarrow> [] | s # _ \<Rightarrow> s); (vs, bads) = read_string_elems xs (tl old)
     in (v # vs, bad \<or> bads))"

definition read_strings :: "json \<Rightarrow> string list \<Rightarrow> string list \<times> bool" where
  "read_strings x old =
    (case x of JArr xs \<Rightarrow> read_string_elems xs old | JNull \<Rightarrow> ([], False) | _ \<Rightarrow> (old, True))"

definition HTTPConfig_field :: "string \<Rightarrow> json \<Rightarrow> HTTPConfig \<Rightarrow> HTTPConfig \<times> bool" where
  "HTTPConfig_field n x r =
    (if n = ''addr'' then apfst (\<lambda>v. r\<lparr>http_Addr := v\<rparr>) (read_string x (http_Addr r))
     else if n = ''read_timeout'' then apfst (\<lambda>v. r\<lparr>http_ReadTimeout := v\<rparr>) (read_int x (http_ReadTimeout r))
     else if n = ''write_timeout'' then apfst (\<lambda>v. r\<lparr>http_WriteTimeout := v\<rparr>) (read_int x (http_WriteTimeout r))
     else apfst (\<lambda>v. r\<lparr>http_ShutdownTimeout := v\<rparr>) (read_int x (http_ShutdownTimeout r)))"

definition GRPCConfig_field :: "string \<Rightarrow> json \<Rightarrow> GRPCConfig \<Rightarrow> GRPCConfig \<times> bool" where
  "GRPCConfig_field n x r = apfst (\<lambda>v. r\<lparr>grpc_Addr := v\<rparr>) (read_string x (grpc_Addr r))"

definition LogConfig_field :: "string \<Rightarrow> json \<Rightarrow> LogConfig \<Rightarrow> LogConfig \<times> bool" where
  "LogConfig_field n x r =
    (if n = ''level'' then apfst (\<lambda>v. r\<lparr>log_Level := v\<rparr>) (read_string x (log_Level r))
     else apfst (\<lambda>v. r\<lparr>log_Format := v\<rparr>) (read_string x (log_Format r)))"

definition DatabaseConfig_field :: "string \<Rightarrow> json \<Rightarrow> DatabaseConfig \<Rightarrow> DatabaseConfig \<times> bool" where
  "DatabaseConfig_field n x r =
    (if n = ''dsn'' then apfst (\<lambda>v. r\<lparr>db_DSN := v\<rparr>) (read_string x (db_DSN r))
     else if n = ''max_open_conns'' then apfst (\<lambda>v. r\<lparr>db_MaxOpenConns := v\<rparr>) (read_int x (db_MaxOpenConns r))
     else if n = ''max_idle_conns'' then apfst (\<lambda>v. r\<lparr>db_MaxIdleConns := v\<rparr>) (read_int x (db_MaxIdleConns r))
     else apfst (\<lambda>v. r\<lparr>db_ConnMaxLifetime := v\<rparr>) (read_int x (db_ConnMaxLifetime r)))"

definition KafkaSettings_field :: "string \<Rightarrow> json \<Rightarrow> KafkaSettings \<Rightarrow> KafkaSettings \<times> bool" where
  "KafkaSettings_field n x r =
    (if n = ''brokers'' then apfst (\<lambda>v. r\<lparr>kfk_Brokers := v\<rparr>) (read_strings x (kfk_Brokers r))
     else if n = ''group_id'' then apfst (\<lambda>v. r\<lparr>kfk_GroupID := v\<rparr>) (read_string x (kfk_GroupID r))
     else if n = ''max_retries'' then apfst (\<lambda>v. r\<lparr>kfk_MaxRetries := v\<rparr>) (read_int x (kfk_MaxRetries r))
     else if n = ''retry_base_delay'' then apfst (\<lambda>v. r\<lparr>kfk_RetryBaseDelay := v\<rparr>) (read_int x (kfk_RetryBaseDelay r))
     else apfst (\<lambda>v. r\<lparr>kfk_RetryMaxDelay := v\<rparr>) (read_int x (kfk_RetryMaxDelay r)))"

definition OutboxConfig_field :: "string \<Rightarrow> json \<Rightarrow> OutboxConfig \<Rightarrow> OutboxConfig \<times> bool" where
  "OutboxConfig_field n x r =
    (if n = ''poll_interval'' then apfst (\<lambda>v. r\<lparr>obx_PollInterval := v\<rparr>) (read_int x (obx_PollInterval r))
     else apfst (\<lambda>v. r\<lparr>obx_BatchSize := v\<rparr>) (read_int x (obx_BatchSize r)))"

definition Config_field :: "string \<Rightarrow> json \<Rightarrow> Config \<Rightarrow> Config \<times> bool" where
  "Config_field n x c =
    (if n = ''env'' then apfst (\<lambda>v. c\<lparr>app_Env := v\<rparr>) (read_string x (app_Env c))
     else if n = ''http'' then
       apfst (\<lambda>v. c\<lparr>app_HTTP := v\<rparr>) (read_object [''addr'', ''read_timeout'', ''write_timeout'', ''shutdown_timeout''] HTTPConfig_field x (app_HTTP c))
     else if n = ''grpc'' then apfst (\<lambda>v. c\<lparr>app_GRPC := v\<rparr>) (read_object [''addr''] GRPCConfig_field x (app_GRPC c))
     else if n = ''log'' then apfst (\<lambda>v. c\<lparr>app_Log := v\<rparr>) (read_object [''level'', ''format''] LogConfig_field x (app_Log c))
     else if n = ''database'' then
       apfst (\<lambda>v. c\<lparr>app_Database := v\<rparr>) (read_object [''dsn'', ''max_open_conns'', ''max_idle_conns'', ''conn_max_lifetime''] DatabaseConfig_field x (app_Database c))
     else if n = ''kafka'' then
       apfst (\<lambda>v. c\<lparr>app_Kafka := v\<rparr>) (read_object [''brokers'', ''group_id'', ''max_retries'', ''retry_base_delay'', ''retry_max_delay''] KafkaSettings_field x (app_Kafka c))
     else apfst (\<lambda>v. c\<lparr>app_Outbox := v\<rparr>) (read_object [''poll_interval'', ''batch_size''] OutboxConfig_field x (app_Outbox c)))"

text \<open>\<open>Decode\<close> reads the first value of the text and does not look at what follows it.\<close>

definition first_value :: "nat list \<Rightarrow> json option" where
  "first_value s = map_option fst (parse_value (Suc (2 * length s)) max_depth s)"

definition decode_config :: "string \<Rightarrow> Config \<Rightarrow> Config result" where
  "decode_config s c =
    (case first_value (bytes s) of
      None \<Rightarrow> Inl json_syntax_error
    | Some x \<Rightarrow>
        (case read_object [''env'', ''http'', ''grpc'', ''log'', ''database'', ''kafka'', ''outbox''] Config_field x c of
          (c', False) \<Rightarrow> Inr c'
        | (_, True) \<Rightarrow> Inl json_type_error))"

definition loadFile :: "(string \<Rightarrow> string result) \<Rightarrow> string \<Rightarrow> Config \<Rightarrow> Config result" where
  "loadFile readFile path cfg =
    (case readFile path of
      Inl err \<Rightarrow> Inl err
    | Inr b \<Rightarrow>
        (case decode_config b cfg of
          Inl err \<Rightarrow> Inl (ErrorString (''config: parsing '' @ path @ '': '' @ error_text err))
        | Inr cfg' \<Rightarrow> Inr cfg'))"

subsection \<open>The environment\<close>

definition setStr :: "(string \<Rightarrow> string) \<Rightarrow> string \<Rightarrow> string \<Rightarrow> string" where
  "setStr getenv dst env = (let v = getenv env in if v \<noteq> [] then v else dst)"

definition setInt :: "(string \<Rightarrow> string) \<Rightarrow> int \<Rightarrow> string \<Rightarrow> int" where
  "setInt getenv dst env =
    (let v = getenv env in if v \<noteq> [] then (case Atoi v of (n, None) \<Rightarrow> n | (_, Some _) \<Rightarrow> dst) else dst)"

definition setDur :: "(string \<Rightarrow> string) \<Rightarrow> int \<Rightarrow> string \<Rightarrow> int" where
  "setDur getenv dst env =
    (let v = getenv env in if v \<noteq> [] then (case ParseDuration v of Some d \<Rightarrow> d | None \<Rightarrow> dst) else dst)"

definition applyEnv :: "(string \<Rightarrow> string) \<Rightarrow> Config \<Rightarrow> Config" where
  "applyEnv getenv cfg =
    (let str = setStr getenv; num = setInt getenv; dur = setDur getenv; h = app_HTTP cfg; d = app_Database cfg; k = app_Kafka cfg
     in cfg\<lparr>app_Env := str (app_Env cfg) ''APP_ENV'',
      app_HTTP := h\<lparr>http_Addr := str (http_Addr h) ''HTTP_ADDR'',
        http_ReadTimeout := dur (http_ReadTimeout h) ''HTTP_READ_TIMEOUT'',
        http_WriteTimeout := dur (http_WriteTimeout h) ''HTTP_WRITE_TIMEOUT'',
        http_ShutdownTimeout := dur (http_ShutdownTimeout h) ''HTTP_SHUTDOWN_TIMEOUT''\<rparr>,
      app_GRPC := (app_GRPC cfg)\<lparr>grpc_Addr := str (grpc_Addr (app_GRPC cfg)) ''GRPC_ADDR''\<rparr>,
      app_Log := (app_Log cfg)\<lparr>log_Level := str (log_Level (app_Log cfg)) ''LOG_LEVEL'',
        log_Format := str (log_Format (app_Log cfg)) ''LOG_FORMAT''\<rparr>,
      app_Database := d\<lparr>db_DSN := str (db_DSN d) ''DATABASE_URL'',
        db_MaxOpenConns := num (db_MaxOpenConns d) ''DATABASE_MAX_OPEN_CONNS'',
        db_MaxIdleConns := num (db_MaxIdleConns d) ''DATABASE_MAX_IDLE_CONNS'',
        db_ConnMaxLifetime := dur (db_ConnMaxLifetime d) ''DATABASE_CONN_MAX_LIFETIME''\<rparr>,
      app_Kafka := k\<lparr>kfk_Brokers := (if getenv ''KAFKA_BROKERS'' \<noteq> [] then SplitByte (getenv ''KAFKA_BROKERS'') CHR '','' else kfk_Brokers k),
        kfk_GroupID := str (kfk_GroupID k) ''KAFKA_GROUP_ID'',
        kfk_MaxRetries := num (kfk_MaxRetries k) ''KAFKA_MAX_RETRIES'',
        kfk_RetryBaseDelay := dur (kfk_RetryBaseDelay k) ''KAFKA_RETRY_BASE_DELAY'',
        kfk_RetryMaxDelay := dur (kfk_RetryMaxDelay k) ''KAFKA_RETRY_MAX_DELAY''\<rparr>,
      app_Outbox := (app_Outbox cfg)\<lparr>obx_PollInterval := dur (obx_PollInterval (app_Outbox cfg)) ''OUTBOX_POLL_INTERVAL'',
        obx_BatchSize := num (obx_BatchSize (app_Outbox cfg)) ''OUTBOX_BATCH_SIZE''\<rparr>\<rparr>)"

definition validate :: "Config \<Rightarrow> gerr option" where
  "validate c =
    (if http_Addr (app_HTTP c) = [] then Some (ErrorString ''config: http.addr is required'')
     else if grpc_Addr (app_GRPC c) = [] then Some (ErrorString ''config: grpc.addr is required'')
     else if log_Format (app_Log c) = ''json'' \<or> log_Format (app_Log c) = ''text'' then None
     else Some (ErrorString ''config: log.format must be json or text''))"

definition UseDatabase :: "Config \<Rightarrow> bool" where
  "UseDatabase c \<longleftrightarrow> db_DSN (app_Database c) \<noteq> []"

definition UseKafka :: "Config \<Rightarrow> bool" where
  "UseKafka c \<longleftrightarrow> 0 < length (kfk_Brokers (app_Kafka c))"

definition Load :: "(string \<Rightarrow> string) \<Rightarrow> (string \<Rightarrow> bool) \<Rightarrow> (string \<Rightarrow> string result) \<Rightarrow> Config result" where
  "Load getenv stat readFile =
    (let cfg = Default; path = getenv ''CONFIG_PATH'';
         path = (if path = [] \<and> stat ''configs/config.json'' then ''configs/config.json'' else path)
     in case (if path \<noteq> [] then loadFile readFile path cfg else Inr cfg) of
          Inl err \<Rightarrow> Inl err
        | Inr cfg1 \<Rightarrow>
            (let cfg2 = applyEnv getenv cfg1 in case validate cfg2 of Some err \<Rightarrow> Inl err | None \<Rightarrow> Inr cfg2))"

subsection \<open>Precedence\<close>

definition string_vars :: "((Config \<Rightarrow> string) \<times> string) list" where
  "string_vars =
    [(app_Env, ''APP_ENV''), (http_Addr \<circ> app_HTTP, ''HTTP_ADDR''), (grpc_Addr \<circ> app_GRPC, ''GRPC_ADDR''),
     (log_Level \<circ> app_Log, ''LOG_LEVEL''), (log_Format \<circ> app_Log, ''LOG_FORMAT''), (db_DSN \<circ> app_Database, ''DATABASE_URL''),
     (kfk_GroupID \<circ> app_Kafka, ''KAFKA_GROUP_ID'')]"

definition int_vars :: "((Config \<Rightarrow> int) \<times> string) list" where
  "int_vars =
    [(db_MaxOpenConns \<circ> app_Database, ''DATABASE_MAX_OPEN_CONNS''), (db_MaxIdleConns \<circ> app_Database, ''DATABASE_MAX_IDLE_CONNS''),
     (kfk_MaxRetries \<circ> app_Kafka, ''KAFKA_MAX_RETRIES''), (obx_BatchSize \<circ> app_Outbox, ''OUTBOX_BATCH_SIZE'')]"

definition duration_vars :: "((Config \<Rightarrow> int) \<times> string) list" where
  "duration_vars =
    [(http_ReadTimeout \<circ> app_HTTP, ''HTTP_READ_TIMEOUT''), (http_WriteTimeout \<circ> app_HTTP, ''HTTP_WRITE_TIMEOUT''),
     (http_ShutdownTimeout \<circ> app_HTTP, ''HTTP_SHUTDOWN_TIMEOUT''), (db_ConnMaxLifetime \<circ> app_Database, ''DATABASE_CONN_MAX_LIFETIME''),
     (kfk_RetryBaseDelay \<circ> app_Kafka, ''KAFKA_RETRY_BASE_DELAY''), (kfk_RetryMaxDelay \<circ> app_Kafka, ''KAFKA_RETRY_MAX_DELAY''),
     (obx_PollInterval \<circ> app_Outbox, ''OUTBOX_POLL_INTERVAL'')]"

text \<open>Property C30: the environment wins over the file and the file over the defaults, and what is loaded is valid. A loaded
  configuration has both addresses and one of the two log formats. Each text setting is its variable when
  that is set and not empty, and otherwise what the file, read over the defaults, says; each number and each
  duration is its variable when that parses, and a variable that does not parse is ignored. Without a file the values
  under the environment are the defaults, which select the in-memory store and the in-process bus.\<close>

theorem config_precedence:
  assumes "Load getenv stat readFile = Inr cfg"
  shows "\<exists>base. (if getenv ''CONFIG_PATH'' = [] \<and> \<not> stat ''configs/config.json'' then base = Default
      else loadFile readFile (if getenv ''CONFIG_PATH'' = [] then ''configs/config.json'' else getenv ''CONFIG_PATH'') Default = Inr base) \<and>
    (\<forall>(sel, var) \<in> set string_vars. sel cfg = (if getenv var = [] then sel base else getenv var)) \<and>
    (\<forall>(sel, var) \<in> set int_vars. sel cfg = (case Atoi (getenv var) of (n, None) \<Rightarrow> n | _ \<Rightarrow> sel base)) \<and>
    (\<forall>(sel, var) \<in> set duration_vars. sel cfg = (case ParseDuration (getenv var) of Some d \<Rightarrow> d | None \<Rightarrow> sel base)) \<and>
    http_Addr (app_HTTP cfg) \<noteq> [] \<and> grpc_Addr (app_GRPC cfg) \<noteq> [] \<and> log_Format (app_Log cfg) \<in> {''json'', ''text''} \<and>
    \<not> UseDatabase Default \<and> \<not> UseKafka Default"
proof -
  let ?path = "if getenv ''CONFIG_PATH'' = [] \<and> stat ''configs/config.json'' then ''configs/config.json'' else getenv ''CONFIG_PATH''"
  obtain base where b: "(if ?path \<noteq> [] then loadFile readFile ?path Default else Inr Default) = Inr base"
    "cfg = applyEnv getenv base" "validate cfg = None"
    using assms by (auto simp: Load_def Let_def split: sum.splits option.splits)
  have e: "Atoi [] = (0, Some ErrSyntax)" "ParseDuration [] = None" by (simp_all add: Atoi_def ParseDuration_def)
  have i: "setInt getenv x v = (case Atoi (getenv v) of (n, None) \<Rightarrow> n | _ \<Rightarrow> x)" for x v
    by (auto simp: setInt_def Let_def e split: prod.split option.split)
  have d: "setDur getenv x v = (case ParseDuration (getenv v) of Some d \<Rightarrow> d | None \<Rightarrow> x)" for x v
    by (auto simp: setDur_def Let_def e)
  have s: "setStr getenv x v = (if getenv v = [] then x else getenv v)" for x v by (simp add: setStr_def)
  have "\<forall>(sel, var) \<in> set string_vars. sel cfg = (if getenv var = [] then sel base else getenv var)"
    unfolding b(2) by (simp add: string_vars_def applyEnv_def Let_def s)
  moreover have "\<forall>(sel, var) \<in> set int_vars. sel cfg = (case Atoi (getenv var) of (n, None) \<Rightarrow> n | _ \<Rightarrow> sel base)"
    unfolding b(2) by (simp add: int_vars_def applyEnv_def Let_def i o_def)
  moreover have "\<forall>(sel, var) \<in> set duration_vars. sel cfg = (case ParseDuration (getenv var) of Some d \<Rightarrow> d | None \<Rightarrow> sel base)"
    unfolding b(2) by (simp add: duration_vars_def applyEnv_def Let_def d o_def split: option.split)
  moreover have "http_Addr (app_HTTP cfg) \<noteq> [] \<and> grpc_Addr (app_GRPC cfg) \<noteq> [] \<and> log_Format (app_Log cfg) \<in> {''json'', ''text''}"
    using b(3) by (auto simp: validate_def split: if_splits)
  moreover have "if getenv ''CONFIG_PATH'' = [] \<and> \<not> stat ''configs/config.json'' then base = Default
      else loadFile readFile (if getenv ''CONFIG_PATH'' = [] then ''configs/config.json'' else getenv ''CONFIG_PATH'') Default = Inr base"
    using b(1) by (auto split: if_splits)
  ultimately show ?thesis by (intro exI [of _ base]) (simp add: UseDatabase_def UseKafka_def Default_def)
qed

definition demo_getenv :: "string \<Rightarrow> string" where
  "demo_getenv v = (if v = ''APP_ENV'' then ''prod'' else if v = ''OUTBOX_BATCH_SIZE'' then ''many'' else
     if v = ''OUTBOX_POLL_INTERVAL'' then ''1.5h'' else [])"

theorem config_precedence_witness:
  "\<exists>cfg. Load demo_getenv (\<lambda>_. False) (\<lambda>_. Inl ErrNotFound) = Inr cfg \<and> app_Env cfg = ''prod'' \<and>
    obx_BatchSize (app_Outbox cfg) = 100 \<and> obx_PollInterval (app_Outbox cfg) = 90 * Minute"
proof -
  have "validate (applyEnv demo_getenv Default) = None"
    by (simp add: validate_def applyEnv_def Let_def setStr_def demo_getenv_def Default_def)
  then have l: "Load demo_getenv (\<lambda>_. False) (\<lambda>_. Inl ErrNotFound) = Inr (applyEnv demo_getenv Default)"
    by (simp add: Load_def Let_def demo_getenv_def)
  have "Atoi ''many'' = (0, Some ErrSyntax)" by (simp add: Atoi_def is_digit_def)
  then show ?thesis
    using config_precedence [OF l] l ParseDuration_examples(1)
    by (auto simp: demo_getenv_def string_vars_def int_vars_def duration_vars_def Default_def)
qed

end
