(* ===== verification/Outbox.thy ===== *)
theory Outbox
  imports EventBus "HOL-Library.Multiset"
begin

text \<open>
  The transactional outbox of \<open>internal/eventbus/outbox\<close>: the message rows, the in-memory
  store, the publisher that appends to a store, and the relay that forwards pending rows to the
  bus. A \<open>Store\<close> is a record of operations on the state \<open>'w\<close>, as the Go interface is; the
  in-memory store acts on its own state beside the rest of the world.
\<close>

datatype Status = StatusPending | StatusPublished | StatusFailed

record Message =
  msg_Event :: Event
  msg_Status :: Status
  msg_Attempts :: int
  msg_CreatedAt :: gotime
  msg_PublishedAt :: "gotime option"
  msg_LastError :: string

record 'w Store =
  store_Add :: "Event list \<Rightarrow> (gerr option, 'w) action"
  store_FetchPending :: "int \<Rightarrow> (Message list result, 'w) action"
  store_MarkPublished :: "string list \<Rightarrow> (gerr option, 'w) action"
  store_MarkFailed :: "string \<Rightarrow> string \<Rightarrow> (gerr option, 'w) action"

subsection \<open>The in-memory store\<close>

record MemoryStore =
  ob_order :: "string list"
  ob_byID :: "string \<rightharpoonup> Message"

definition NewMemoryStore :: MemoryStore where
  "NewMemoryStore = \<lparr>ob_order = [], ob_byID = Map.empty\<rparr>"

text \<open>The loop of \<open>Add\<close>; the clock is read once per row it adds.\<close>

fun MemoryStore_Add :: "'w env \<Rightarrow> Event list \<Rightarrow> (gerr option, MemoryStore \<times> 'w) action" where
  "MemoryStore_Add env [] sw = (Return None, sw)"
| "MemoryStore_Add env (e # es) (s, w) =
    (case ob_byID s (ev_ID e) of
      Some _ \<Rightarrow> MemoryStore_Add env es (s, w)
    | None \<Rightarrow>
        let (now, w') = clock_now env w;
            m = \<lparr>msg_Event = e, msg_Status = StatusPending, msg_Attempts = 0, msg_CreatedAt = now,
                 msg_PublishedAt = None, msg_LastError = []\<rparr>
        in MemoryStore_Add env es
             (s\<lparr>ob_byID := (ob_byID s)(ev_ID e \<mapsto> m), ob_order := ob_order s @ [ev_ID e]\<rparr>, w'))"

text \<open>The loop of \<open>FetchPending\<close>; a key of the order that is not in the map is a nil pointer.\<close>

fun fetch_loop :: "int \<Rightarrow> (string \<rightharpoonup> Message) \<Rightarrow> string list \<Rightarrow> Message list \<Rightarrow> Message list outcome" where
  "fetch_loop limit m [] out = Return out"
| "fetch_loop limit m (gid # gids) out =
    (case m gid of
      None \<Rightarrow> Panic ''runtime error: invalid memory address or nil pointer dereference''
    | Some msg \<Rightarrow>
        if msg_Status msg = StatusPublished then fetch_loop limit m gids out
        else if 0 < limit \<and> limit \<le> int (length (out @ [msg])) then Return (out @ [msg])
        else fetch_loop limit m gids (out @ [msg]))"

definition MemoryStore_FetchPending :: "int \<Rightarrow> (Message list result, MemoryStore \<times> 'w) action" where
  "MemoryStore_FetchPending limit sw =
    (case fetch_loop limit (ob_byID (fst sw)) (ob_order (fst sw)) [] of
      Panic p \<Rightarrow> (Panic p, sw)
    | Return out \<Rightarrow> (Return (Inr out), sw))"

fun mark_published_loop :: "gotime \<Rightarrow> string list \<Rightarrow> MemoryStore \<Rightarrow> MemoryStore" where
  "mark_published_loop now [] s = s"
| "mark_published_loop now (gid # gids) s =
    mark_published_loop now gids
      (case ob_byID s gid of
        None \<Rightarrow> s
      | Some m \<Rightarrow> s\<lparr>ob_byID := (ob_byID s)(gid \<mapsto>
          m\<lparr>msg_Status := StatusPublished, msg_PublishedAt := Some now, msg_LastError := []\<rparr>)\<rparr>)"

definition MemoryStore_MarkPublished :: "'w env \<Rightarrow> string list \<Rightarrow> (gerr option, MemoryStore \<times> 'w) action" where
  "MemoryStore_MarkPublished env eventIDs sw =
    (let (now, w') = clock_now env (snd sw)
     in (Return None, (mark_published_loop now eventIDs (fst sw), w')))"

definition MemoryStore_MarkFailed :: "string \<Rightarrow> string \<Rightarrow> (gerr option, MemoryStore \<times> 'w) action" where
  "MemoryStore_MarkFailed eventID reason sw =
    (Return None,
     ((case ob_byID (fst sw) eventID of
        None \<Rightarrow> fst sw
      | Some m \<Rightarrow> (fst sw)\<lparr>ob_byID := (ob_byID (fst sw))(eventID \<mapsto>
          m\<lparr>msg_Status := StatusFailed, msg_Attempts := wrap64 (msg_Attempts m + 1), msg_LastError := reason\<rparr>)\<rparr>),
      snd sw))"

text \<open>\<open>PendingCount\<close> ranges over the map, in some order of its keys.\<close>

definition PendingCount :: "string list \<Rightarrow> MemoryStore \<Rightarrow> int" where
  "PendingCount keys s =
    fold (\<lambda>m n. if msg_Status m \<noteq> StatusPublished then n + 1 else n) (range_map keys (ob_byID s)) 0"

definition MemoryStore_ops :: "'w env \<Rightarrow> (MemoryStore \<times> 'w) Store" where
  "MemoryStore_ops env =
    \<lparr>store_Add = MemoryStore_Add env, store_FetchPending = MemoryStore_FetchPending,
     store_MarkPublished = MemoryStore_MarkPublished env, store_MarkFailed = MemoryStore_MarkFailed\<rparr>"

subsection \<open>The publisher that writes to the outbox\<close>

definition Publisher_Publish :: "'w Store \<Rightarrow> 'w publisher" where
  "Publisher_Publish st events w =
    (if length events = 0 then (Return None, w) else store_Add st events w)"

subsection \<open>The relay\<close>

record Options =
  opt_Interval :: int
  opt_BatchSize :: int

record 'w Relay =
  relay_store :: "'w Store"
  relay_publisher :: "'w publisher"
  relay_env :: "'w env"
  relay_interval :: int
  relay_batchSize :: int

definition NewRelay :: "'w Store \<Rightarrow> 'w publisher \<Rightarrow> 'w env \<Rightarrow> Options \<Rightarrow> 'w Relay" where
  "NewRelay store publisher env opts =
    \<lparr>relay_store = store, relay_publisher = publisher, relay_env = env,
     relay_interval = (if opt_Interval opts \<le> 0 then 1000000000 else opt_Interval opts),
     relay_batchSize = (if opt_BatchSize opts \<le> 0 then 100 else opt_BatchSize opts)\<rparr>"

text \<open>The loop of \<open>drain\<close> over the fetched rows, with the count of delivered ones.\<close>

fun drain_loop :: "'w Relay \<Rightarrow> Message list \<Rightarrow> int \<Rightarrow> (int \<times> gerr option, 'w) action" where
  "drain_loop r [] published w = (Return (published, None), w)"
| "drain_loop r (m # ms) published w =
    (case relay_publisher r [msg_Event m] w of
      (Panic p, w1) \<Rightarrow> (Panic p, w1)
    | (Return (Some err), w1) \<Rightarrow>
        (case store_MarkFailed (relay_store r) (ev_ID (msg_Event m)) (error_text err) w1 of
          (Panic p, w2) \<Rightarrow> (Panic p, w2)
        | (Return _, w2) \<Rightarrow>
            drain_loop r ms published
              (log_write (relay_env r) (log_rec LevelWarn ''outbox message publish failed''
                [(''event_id'', AttrText (ev_ID (msg_Event m))), (''event'', AttrText (ev_Name (msg_Event m))),
                 (''attempts'', AttrInt (wrap64 (msg_Attempts m + 1))), (''error'', AttrError err)]) w2))
    | (Return None, w1) \<Rightarrow>
        (case store_MarkPublished (relay_store r) [ev_ID (msg_Event m)] w1 of
          (Panic p, w2) \<Rightarrow> (Panic p, w2)
        | (Return (Some err), w2) \<Rightarrow> (Return (published, Some err), w2)
        | (Return None, w2) \<Rightarrow> drain_loop r ms (published + 1) w2))"

definition drain :: "'w Relay \<Rightarrow> (int \<times> gerr option, 'w) action" where
  "drain r w =
    (case store_FetchPending (relay_store r) (relay_batchSize r) w of
      (Panic p, w1) \<Rightarrow> (Panic p, w1)
    | (Return (Inl err), w1) \<Rightarrow> (Return (0, Some err), w1)
    | (Return (Inr msgs), w1) \<Rightarrow> drain_loop r msgs 0 w1)"

definition Drain :: "'w Relay \<Rightarrow> (int \<times> gerr option, 'w) action" where
  "Drain r w = drain r w"

text \<open>
  \<open>Run\<close>: the ready channel of each turn of the \<open>select\<close> is an input, because Go chooses among
  ready ones at random. The result is \<open>None\<close> when the inputs end and the loop still waits.
\<close>

datatype ready = CtxDone gerr | Tick

fun run_loop :: "'w Relay \<Rightarrow> ready list \<Rightarrow> 'w \<Rightarrow> gerr option outcome option \<times> 'w" where
  "run_loop r [] w = (None, w)"
| "run_loop r (CtxDone err # rs) w =
    (Some (Return (Some err)), log_write (relay_env r) (log_rec LevelInfo ''outbox relay stopped'' []) w)"
| "run_loop r (Tick # rs) w =
    (case drain r w of
      (Panic p, w1) \<Rightarrow> (Some (Panic p), w1)
    | (Return (n, Some err), w1) \<Rightarrow>
        run_loop r rs (log_write (relay_env r) (log_rec LevelError ''outbox drain failed'' [(''error'', AttrError err)]) w1)
    | (Return (n, None), w1) \<Rightarrow>
        run_loop r rs
          (if 0 < n then log_write (relay_env r) (log_rec LevelDebug ''outbox drained'' [(''count'', AttrInt n)]) w1
           else w1))"

definition Run :: "'w Relay \<Rightarrow> ready list \<Rightarrow> 'w \<Rightarrow> gerr option outcome option \<times> 'w" where
  "Run r rs w =
    run_loop r rs (log_write (relay_env r) (log_rec LevelInfo ''outbox relay started''
      [(''interval'', AttrInt (relay_interval r)), (''batch'', AttrInt (relay_batchSize r))]) w)"


subsection \<open>The contract of a store\<close>

text \<open>
  Seen from outside, a store is the list of its events in order of insertion, each with its
  status. Identifiers are distinct; adding an event whose identifier is present changes nothing.
\<close>

type_synonym outbox_rows = "(Event \<times> Status) list"

definition row_ids :: "outbox_rows \<Rightarrow> string list" where
  "row_ids rows = map (\<lambda>r. ev_ID (fst r)) rows"

fun add_rows :: "Event list \<Rightarrow> outbox_rows \<Rightarrow> outbox_rows" where
  "add_rows [] rows = rows"
| "add_rows (e # es) rows =
    add_rows es (if ev_ID e \<in> set (row_ids rows) then rows else rows @ [(e, StatusPending)])"

definition unpublished :: "outbox_rows \<Rightarrow> outbox_rows" where
  "unpublished rows = filter (\<lambda>r. snd r \<noteq> StatusPublished) rows"

definition limited :: "int \<Rightarrow> 'a list \<Rightarrow> 'a list" where
  "limited n xs = (if 0 < n then take (nat n) xs else xs)"

definition set_status :: "Status \<Rightarrow> string list \<Rightarrow> outbox_rows \<Rightarrow> outbox_rows" where
  "set_status s ids rows = map (\<lambda>r. (fst r, if ev_ID (fst r) \<in> set ids then s else snd r)) rows"

definition msg_row :: "Message \<Rightarrow> Event \<times> Status" where
  "msg_row m = (msg_Event m, msg_Status m)"

lemma row_ids_set_status [simp]: "row_ids (set_status s ids rows) = row_ids rows"
  by (simp add: row_ids_def set_status_def)

lemma distinct_add_rows: "distinct (row_ids rows) \<Longrightarrow> distinct (row_ids (add_rows es rows))"
  by (induction es arbitrary: rows) (simp_all add: row_ids_def)

lemma distinct_limited: "distinct xs \<Longrightarrow> distinct (limited n xs)"
  by (simp add: limited_def)

lemma set_limited: "set (limited n xs) \<subseteq> set xs"
  by (simp add: limited_def set_take_subset)

lemma map_limited: "map f (limited n xs) = limited n (map f xs)"
  by (simp add: limited_def take_map)

lemma distinct_unpublished: "distinct (row_ids rows) \<Longrightarrow> distinct (row_ids (unpublished rows))"
  by (simp add: row_ids_def unpublished_def distinct_map_filter)

locale outbox_store =
  fixes st :: "'w Store" and rows :: "'w \<Rightarrow> outbox_rows" and inv :: "'w \<Rightarrow> bool"
  assumes distinct_ids: "inv w \<Longrightarrow> distinct (row_ids (rows w))"
    and Add: "inv w \<Longrightarrow> store_Add st es w = (Return x, w') \<Longrightarrow>
      inv w' \<and> rows w' = (if x = None then add_rows es (rows w) else rows w)"
    and FetchPending: "inv w \<Longrightarrow> store_FetchPending st n w = (Return (Inr ms), w') \<Longrightarrow>
      inv w' \<and> rows w' = rows w \<and> map msg_row ms = limited n (unpublished (rows w))"
    and MarkPublished: "inv w \<Longrightarrow> store_MarkPublished st ids w = (Return x, w') \<Longrightarrow>
      inv w' \<and> rows w' = (if x = None then set_status StatusPublished ids (rows w) else rows w)"
    and MarkFailed: "inv w \<Longrightarrow> store_MarkFailed st i reason w = (Return x, w') \<Longrightarrow>
      inv w' \<and> rows w' = (if x = None then set_status StatusFailed [i] (rows w) else rows w)"
begin

lemma publisher_adds:
  "inv w \<Longrightarrow> Publisher_Publish st es w = (Return None, w') \<Longrightarrow>
    inv w' \<and> rows w' = add_rows es (rows w)"
  using Add [of w es None w'] by (cases es) (simp_all add: Publisher_Publish_def)

lemma publisher_keeps:
  "inv w \<Longrightarrow> Publisher_Publish st es w = (Return (Some err), w') \<Longrightarrow> inv w' \<and> rows w' = rows w"
  using Add [of w es "Some err" w'] by (cases es) (simp_all add: Publisher_Publish_def)

end

text \<open>A store that never fails, such as one in memory.\<close>

locale reliable_store = outbox_store +
  assumes Add_ok: "inv w \<Longrightarrow> \<exists>w'. store_Add st es w = (Return None, w')"
    and FetchPending_ok: "inv w \<Longrightarrow> \<exists>ms w'. store_FetchPending st n w = (Return (Inr ms), w')"
    and MarkPublished_ok: "inv w \<Longrightarrow> \<exists>w'. store_MarkPublished st ids w = (Return None, w')"
    and MarkFailed_ok: "inv w \<Longrightarrow> \<exists>w'. store_MarkFailed st i reason w = (Return None, w')"
begin

lemma publisher_total:
  "inv w \<Longrightarrow> \<exists>w'. Publisher_Publish st es w = (Return None, w') \<and> inv w' \<and> rows w' = add_rows es (rows w)"
  using Add_ok [of w es] publisher_adds [of w es] by (cases es) (auto simp: Publisher_Publish_def)

end

subsection \<open>The in-memory store meets the contract\<close>

definition store_rows :: "MemoryStore \<Rightarrow> outbox_rows" where
  "store_rows s = map (\<lambda>i. msg_row (the (ob_byID s i))) (ob_order s)"

definition store_inv :: "MemoryStore \<Rightarrow> bool" where
  "store_inv s \<longleftrightarrow> distinct (ob_order s) \<and> set (ob_order s) = dom (ob_byID s) \<and>
     (\<forall>i m. ob_byID s i = Some m \<longrightarrow> ev_ID (msg_Event m) = i)"

lemma NewMemoryStore_inv: "store_inv NewMemoryStore" and NewMemoryStore_rows: "store_rows NewMemoryStore = []"
  by (simp_all add: store_inv_def store_rows_def NewMemoryStore_def)

lemma store_row_ids: "store_inv s \<Longrightarrow> row_ids (store_rows s) = ob_order s"
  by (auto simp: store_inv_def store_rows_def row_ids_def msg_row_def dom_def intro!: map_idI)

lemma MemoryStore_Add_spec:
  "store_inv s \<Longrightarrow> \<exists>s' w'. MemoryStore_Add env es (s, w) = (Return None, (s', w')) \<and> store_inv s' \<and>
     store_rows s' = add_rows es (store_rows s)"
proof (induction es arbitrary: s w)
  case (Cons e es)
  have ids: "set (row_ids (store_rows s)) = dom (ob_byID s)"
    using store_row_ids [OF Cons.prems] Cons.prems by (simp add: store_inv_def)
  show ?case
  proof (cases "ob_byID s (ev_ID e)")
    case None
    obtain now w1 where c: "clock_now env w = (now, w1)" by (cases "clock_now env w")
    define m where "m = \<lparr>msg_Event = e, msg_Status = StatusPending, msg_Attempts = 0, msg_CreatedAt = now,
                 msg_PublishedAt = None, msg_LastError = []\<rparr>"
    define s1 where "s1 = s\<lparr>ob_byID := (ob_byID s)(ev_ID e \<mapsto> m), ob_order := ob_order s @ [ev_ID e]\<rparr>"
    have "store_inv s1"
      using Cons.prems None by (auto simp: store_inv_def s1_def m_def)
    moreover have "store_rows s1 = store_rows s @ [(e, StatusPending)]"
      using Cons.prems None by (auto simp: store_rows_def s1_def m_def msg_row_def store_inv_def dom_def)
    moreover have "ev_ID e \<notin> set (row_ids (store_rows s))" using None ids by auto
    ultimately show ?thesis using Cons.IH [of s1 w1] None by (simp add: c m_def s1_def Let_def)
  next
    case (Some m)
    then have "ev_ID e \<in> set (row_ids (store_rows s))" using ids by auto
    then show ?thesis using Cons.IH [OF Cons.prems, of w] Some by simp
  qed
qed simp

lemma fetch_loop_spec:
  assumes "set gids \<subseteq> dom m" and "0 < limit \<Longrightarrow> int (length out) < limit"
  shows "fetch_loop limit m gids out =
    Return (if 0 < limit then take (nat limit) (out @ filter (\<lambda>x. msg_Status x \<noteq> StatusPublished) (map (\<lambda>i. the (m i)) gids))
            else out @ filter (\<lambda>x. msg_Status x \<noteq> StatusPublished) (map (\<lambda>i. the (m i)) gids))"
  using assms
proof (induction gids arbitrary: out)
  case Nil
  then show ?case by auto
next
  case (Cons g gids)
  then obtain x where x: "m g = Some x" by auto
  show ?case
  proof (cases "0 < limit \<and> limit \<le> int (length (out @ [x]))")
    case True
    with Cons.prems(2) have "nat limit = Suc (length out)" by auto
    with True x show ?thesis using Cons.IH [of out] Cons.prems by simp
  next
    case False
    with x show ?thesis using Cons.IH [of out] Cons.IH [of "out @ [x]"] Cons.prems by auto
  qed
qed

lemma MemoryStore_FetchPending_spec:
  assumes "store_inv s"
  shows "\<exists>ms. MemoryStore_FetchPending n (s, w) = (Return (Inr ms), (s, w)) \<and>
           map msg_row ms = limited n (unpublished (store_rows s))"
proof -
  have "filter (\<lambda>r. snd r \<noteq> StatusPublished) (store_rows s) =
        map msg_row (filter (\<lambda>x. msg_Status x \<noteq> StatusPublished) (map (\<lambda>i. the (ob_byID s i)) (ob_order s)))"
    by (simp add: store_rows_def filter_map o_def msg_row_def)
  then show ?thesis
    using assms fetch_loop_spec [of "ob_order s" "ob_byID s" n "[]"]
    by (auto simp: MemoryStore_FetchPending_def limited_def unpublished_def store_inv_def take_map)
qed


lemma store_rows_upd:
  assumes "store_inv s" "ob_byID s i = Some m" "msg_Event m' = msg_Event m"
  shows "store_inv (s\<lparr>ob_byID := (ob_byID s)(i \<mapsto> m')\<rparr>) \<and>
         store_rows (s\<lparr>ob_byID := (ob_byID s)(i \<mapsto> m')\<rparr>) = set_status (msg_Status m') [i] (store_rows s)"
  using assms by (fastforce simp: store_inv_def store_rows_def set_status_def msg_row_def)

lemma set_status_absent:
  "store_inv s \<Longrightarrow> ob_byID s i = None \<Longrightarrow> set_status st [i] (store_rows s) = store_rows s"
  by (fastforce simp: store_inv_def store_rows_def set_status_def msg_row_def)

lemma set_status_Cons: "set_status st (i # ids) rows = set_status st ids (set_status st [i] rows)"
  and set_status_Nil [simp]: "set_status st [] rows = rows"
  by (simp_all add: set_status_def)

lemma mark_published_loop_spec:
  "store_inv s \<Longrightarrow> store_inv (mark_published_loop now ids s) \<and>
    store_rows (mark_published_loop now ids s) = set_status StatusPublished ids (store_rows s)"
proof (induction ids arbitrary: s)
  case (Cons i ids)
  show ?case
  proof (cases "ob_byID s i")
    case None
    then show ?thesis
      using Cons set_status_absent [OF Cons.prems None] by (subst set_status_Cons) simp
  next
    case (Some m)
    let ?m = "m\<lparr>msg_Status := StatusPublished, msg_PublishedAt := Some now, msg_LastError := []\<rparr>"
    show ?thesis
      using Some store_rows_upd [OF Cons.prems Some, of ?m] Cons.IH
      by (subst set_status_Cons) simp
  qed
qed simp

lemma MemoryStore_MarkPublished_spec:
  "store_inv s \<Longrightarrow> \<exists>s' w'. MemoryStore_MarkPublished env ids (s, w) = (Return None, (s', w')) \<and>
     store_inv s' \<and> store_rows s' = set_status StatusPublished ids (store_rows s)"
  by (simp add: MemoryStore_MarkPublished_def mark_published_loop_spec split: prod.split)

lemma MemoryStore_MarkFailed_spec:
  "store_inv s \<Longrightarrow> \<exists>s'. MemoryStore_MarkFailed i reason (s, w) = (Return None, (s', w)) \<and>
     store_inv s' \<and> store_rows s' = set_status StatusFailed [i] (store_rows s)"
  using store_rows_upd [of s i] set_status_absent [of s i]
  by (simp add: MemoryStore_MarkFailed_def split: option.split)

interpretation memory_store: reliable_store "MemoryStore_ops env" "\<lambda>sw. store_rows (fst sw)" "\<lambda>sw. store_inv (fst sw)"
  for env
proof unfold_locales
  fix w :: "MemoryStore \<times> 'a" and w' es n ids i reason x ms
  assume "store_inv (fst w)"
  then obtain s v where w: "w = (s, v)" "store_inv s" by (cases w) simp
  show "distinct (row_ids (store_rows (fst w)))" using w store_row_ids by (simp add: store_inv_def)
  show "\<exists>w'. store_Add (MemoryStore_ops env) es w = (Return None, w')"
    "\<exists>ms w'. store_FetchPending (MemoryStore_ops env) n w = (Return (Inr ms), w')"
    "\<exists>w'. store_MarkPublished (MemoryStore_ops env) ids w = (Return None, w')"
    "\<exists>w'. store_MarkFailed (MemoryStore_ops env) i reason w = (Return None, w')"
    using w MemoryStore_Add_spec [of s env es v] MemoryStore_FetchPending_spec [of s n v]
      MemoryStore_MarkPublished_spec [of s env ids v] MemoryStore_MarkFailed_spec [of s i reason v]
    by (auto simp: MemoryStore_ops_def)
  show "store_inv (fst w') \<and> store_rows (fst w') = (if x = None then add_rows es (store_rows (fst w)) else store_rows (fst w))"
    if "store_Add (MemoryStore_ops env) es w = (Return x, w')"
    using that w MemoryStore_Add_spec [of s env es v] by (auto simp: MemoryStore_ops_def)
  show "store_inv (fst w') \<and> store_rows (fst w') = store_rows (fst w) \<and> map msg_row ms = limited n (unpublished (store_rows (fst w)))"
    if "store_FetchPending (MemoryStore_ops env) n w = (Return (Inr ms), w')"
    using that w MemoryStore_FetchPending_spec [of s n v] by (auto simp: MemoryStore_ops_def)
  show "store_inv (fst w') \<and> store_rows (fst w') = (if x = None then set_status StatusPublished ids (store_rows (fst w)) else store_rows (fst w))"
    if "store_MarkPublished (MemoryStore_ops env) ids w = (Return x, w')"
    using that w MemoryStore_MarkPublished_spec [of s env ids v] by (auto simp: MemoryStore_ops_def)
  show "store_inv (fst w') \<and> store_rows (fst w') = (if x = None then set_status StatusFailed [i] (store_rows (fst w)) else store_rows (fst w))"
    if "store_MarkFailed (MemoryStore_ops env) i reason w = (Return x, w')"
    using that w MemoryStore_MarkFailed_spec [of s i reason v] by (auto simp: MemoryStore_ops_def)
qed


subsection \<open>The relay over a store that does not fail\<close>

text \<open>
  The verdicts of one pass: which events were handed to the bus, and whether it took them. A
  message that was taken becomes published, one that was refused becomes failed, no other row
  changes.
\<close>

type_synonym verdicts = "(Event \<times> bool) list"

definition settle :: "verdicts \<Rightarrow> outbox_rows \<Rightarrow> outbox_rows" where
  "settle vs rows =
    fold (\<lambda>v. set_status (if snd v then StatusPublished else StatusFailed) [ev_ID (fst v)]) vs rows"

lemma settle_Nil [simp]: "settle [] rows = rows"
  and settle_Cons [simp]: "settle (v # vs) rows =
    settle vs (set_status (if snd v then StatusPublished else StatusFailed) [ev_ID (fst v)] rows)"
  by (simp_all add: settle_def)

lemma row_ids_settle [simp]: "row_ids (settle vs rows) = row_ids rows"
  by (induction vs arbitrary: rows) simp_all

lemma events_settle [simp]: "map fst (settle vs rows) = map fst rows"
  by (induction vs arbitrary: rows) (simp_all add: set_status_def o_def case_prod_beta)

text \<open>
  A relay whose bus and logger leave the store alone. \<open>obs\<close> is what an observer sees of the rest of the world,
  and \<open>see\<close> how that changes when the bus takes or refuses an event that is \<open>good\<close>.
\<close>

definition sees :: "(Event \<Rightarrow> bool \<Rightarrow> 'o \<Rightarrow> 'o) \<Rightarrow> verdicts \<Rightarrow> 'o \<Rightarrow> 'o" where
  "sees see vs = fold (\<lambda>v. see (fst v) (snd v)) vs"

lemma sees_simps [simp]: "sees see [] j = j" "sees see (v # vs) j = sees see vs (see (fst v) (snd v) j)"
  "sees see (vs @ us) j = sees see us (sees see vs j)"
  by (simp_all add: sees_def)

lemma sees_journal [simp]: "sees (\<lambda>e b j. j @ [(e, b)]) vs j = j @ vs"
  by (induction vs arbitrary: j) simp_all

locale outbox_relay = reliable_store "relay_store r" rows inv
  for r :: "'w Relay" and rows inv +
  fixes obs :: "'w \<Rightarrow> 'o" and see :: "Event \<Rightarrow> bool \<Rightarrow> 'o \<Rightarrow> 'o" and good :: "Event \<Rightarrow> bool"
  assumes publish: "inv w \<Longrightarrow> good e \<Longrightarrow> relay_publisher r [e] w = (Return x, w') \<Longrightarrow>
      inv w' \<and> rows w' = rows w \<and> obs w' = see e (x = None) (obs w)"
    and log_keeps: "inv w \<Longrightarrow> inv (log_write (relay_env r) l w)"
      "rows (log_write (relay_env r) l w) = rows w" "obs (log_write (relay_env r) l w) = obs w"
    and store_obs: "store_FetchPending (relay_store r) n w = (y, w') \<Longrightarrow> obs w' = obs w"
      "store_MarkPublished (relay_store r) ids w = (z, w') \<Longrightarrow> obs w' = obs w"
      "store_MarkFailed (relay_store r) i reason w = (z, w') \<Longrightarrow> obs w' = obs w"
begin

text \<open>The bus gave that verdict on the event, in some state.\<close>

definition verdict_of :: "Event \<Rightarrow> bool \<Rightarrow> bool" where
  "verdict_of e b \<longleftrightarrow> (\<exists>w x w'. inv w \<and> good e \<and> relay_publisher r [e] w = (Return x, w') \<and> b = (x = None))"

lemma drain_loop_spec:
  assumes "inv w" and "\<forall>m \<in> set ms. good (msg_Event m)" and "drain_loop r ms n w = (Return (k, err), w')"
  shows "\<exists>vs. map fst vs = map msg_Event ms \<and> obs w' = sees see vs (obs w) \<and> inv w' \<and> err = None \<and>
           rows w' = settle vs (rows w) \<and> k = n + int (length (filter snd vs)) \<and>
           (\<forall>v \<in> set vs. verdict_of (fst v) (snd v))"
  using assms
proof (induction ms arbitrary: n w)
  case Nil
  then show ?case by (intro exI [of _ "[]"]) simp
next
  case (Cons m ms)
  let ?i = "ev_ID (msg_Event m)"
  obtain x w1 where p: "relay_publisher r [msg_Event m] w = (Return x, w1)"
    using Cons.prems(3) by (cases "relay_publisher r [msg_Event m] w") (auto split: outcome.splits)
  have g: "good (msg_Event m)" using Cons.prems(2) by simp
  note p1 = publish [OF Cons.prems(1) g p]
  have v: "verdict_of (msg_Event m) (x = None)" using p g Cons.prems(1) by (auto simp: verdict_of_def)
  show ?case
  proof (cases x)
    case None
    obtain w2 where m: "store_MarkPublished (relay_store r) [?i] w1 = (Return None, w2)"
      using MarkPublished_ok p1 by blast
    have w2: "inv w2" "rows w2 = set_status StatusPublished [?i] (rows w)" "obs w2 = see (msg_Event m) True (obs w)"
      using MarkPublished [OF _ m] p1 store_obs(2) [OF m] None by auto
    have "drain_loop r ms (n + 1) w2 = (Return (k, err), w')" using Cons.prems(3) p m None by simp
    from Cons.IH [OF w2(1) _ this] Cons.prems(2) obtain vs where "map fst vs = map msg_Event ms" "obs w' = sees see vs (obs w2)"
      "inv w'" "err = None" "rows w' = settle vs (rows w2)" "k = n + 1 + int (length (filter snd vs))"
      "\<forall>v \<in> set vs. verdict_of (fst v) (snd v)" by auto
    then show ?thesis using w2 v None by (intro exI [of _ "(msg_Event m, True) # vs"]) simp
  next
    case (Some e)
    obtain w2 where m: "store_MarkFailed (relay_store r) ?i (error_text e) w1 = (Return None, w2)"
      using MarkFailed_ok p1 by blast
    have w2: "inv w2" "rows w2 = set_status StatusFailed [?i] (rows w)" "obs w2 = see (msg_Event m) False (obs w)"
      using MarkFailed [OF _ m] p1 store_obs(3) [OF m] Some by auto
    obtain l where "drain_loop r ms n (log_write (relay_env r) l w2) = (Return (k, err), w')"
      using Cons.prems(3) p m Some by simp
    from Cons.IH [OF log_keeps(1) [OF w2(1)] _ this] Cons.prems(2) obtain vs where "map fst vs = map msg_Event ms"
      "obs w' = sees see vs (obs w2)" "inv w'" "err = None" "rows w' = settle vs (rows w2)" "k = n + int (length (filter snd vs))"
      "\<forall>v \<in> set vs. verdict_of (fst v) (snd v)"
      by (auto simp: log_keeps)
    then show ?thesis using w2 v Some by (intro exI [of _ "(msg_Event m, False) # vs"]) simp
  qed
qed

lemma fetched_good:
  assumes "map msg_row ms = limited n (unpublished (rows w))" and good: "\<forall>e \<in> set (map fst (rows w)). good e"
  shows "\<forall>m \<in> set ms. good (msg_Event m)"
proof
  fix m assume "m \<in> set ms"
  then have "msg_row m \<in> set (limited n (unpublished (rows w)))" using assms(1) by (metis image_eqI set_map)
  then have "msg_row m \<in> set (rows w)" by (auto simp: unpublished_def limited_def split: if_splits dest: in_set_takeD)
  then show "good (msg_Event m)" using good by (auto simp: msg_row_def)
qed

lemma drain_spec:
  assumes "inv w" and "drain r w = (Return (k, err), w')"
    and good: "\<forall>e \<in> set (map fst (rows w)). good e"
  shows "\<exists>vs. map fst vs = map fst (limited (relay_batchSize r) (unpublished (rows w))) \<and>
           obs w' = sees see vs (obs w) \<and> inv w' \<and> err = None \<and>
           rows w' = settle vs (rows w) \<and> k = int (length (filter snd vs)) \<and>
           (\<forall>v \<in> set vs. verdict_of (fst v) (snd v))"
proof -
  obtain ms w1 where f: "store_FetchPending (relay_store r) (relay_batchSize r) w = (Return (Inr ms), w1)"
    using FetchPending_ok [OF assms(1)] by blast
  have w1: "inv w1" "rows w1 = rows w" "map msg_row ms = limited (relay_batchSize r) (unpublished (rows w))"
    "obs w1 = obs w"
    using FetchPending [OF assms(1) f] store_obs(1) [OF f] by simp_all
  have "map fst (map msg_row ms) = map msg_Event ms" by (simp add: msg_row_def)
  with w1 have "map msg_Event ms = map fst (limited (relay_batchSize r) (unpublished (rows w)))" by metis
  moreover have "drain_loop r ms 0 w1 = (Return (k, err), w')" using assms(2) f by (simp add: drain_def)
  moreover note fetched_good [OF w1(3) good]
  ultimately show ?thesis using drain_loop_spec [OF w1(1), of ms 0 k err w'] w1 by auto
qed

end


text \<open>The pass when the verdict of the bus depends on the event alone.\<close>

definition pass_verdicts :: "(Event \<Rightarrow> bool) \<Rightarrow> int \<Rightarrow> outbox_rows \<Rightarrow> verdicts" where
  "pass_verdicts ok n rows = map (\<lambda>r. (fst r, ok (fst r))) (limited n (unpublished rows))"

definition pass_rows :: "(Event \<Rightarrow> bool) \<Rightarrow> int \<Rightarrow> outbox_rows \<Rightarrow> outbox_rows" where
  "pass_rows ok n rows = settle (pass_verdicts ok n rows) rows"

fun passes_verdicts :: "nat \<Rightarrow> (Event \<Rightarrow> bool) \<Rightarrow> int \<Rightarrow> outbox_rows \<Rightarrow> verdicts" where
  "passes_verdicts 0 ok n rows = []"
| "passes_verdicts (Suc k) ok n rows = pass_verdicts ok n rows @ passes_verdicts k ok n (pass_rows ok n rows)"

fun passes_rows :: "nat \<Rightarrow> (Event \<Rightarrow> bool) \<Rightarrow> int \<Rightarrow> outbox_rows \<Rightarrow> outbox_rows" where
  "passes_rows 0 ok n rows = rows"
| "passes_rows (Suc k) ok n rows = passes_rows k ok n (pass_rows ok n rows)"

lemma settle_constant:
  "\<forall>v \<in> set vs. snd v = b \<Longrightarrow>
    settle vs rows = set_status (if b then StatusPublished else StatusFailed) (map (\<lambda>v. ev_ID (fst v)) vs) rows"
proof (induction vs arbitrary: rows)
  case (Cons v vs)
  then show ?case by (subst list.map(2), subst set_status_Cons) simp
qed simp

lemma unpublished_set_published:
  "unpublished (set_status StatusPublished ids rows) = filter (\<lambda>r. ev_ID (fst r) \<notin> set ids) (unpublished rows)"
  by (induction rows) (auto simp: unpublished_def set_status_def)

lemma unpublished_set_failed:
  "set ids \<subseteq> set (row_ids (unpublished rows)) \<Longrightarrow> distinct (row_ids rows) \<Longrightarrow>
    map fst (unpublished (set_status StatusFailed ids rows)) = map fst (unpublished rows)"
proof -
  assume a: "set ids \<subseteq> set (row_ids (unpublished rows))" "distinct (row_ids rows)"
  have "(if ev_ID (fst r) \<in> set ids then StatusFailed else snd r) \<noteq> StatusPublished \<longleftrightarrow> snd r \<noteq> StatusPublished"
    if "r \<in> set rows" for r
  proof (cases "ev_ID (fst r) \<in> set ids")
    case True
    then obtain q where "q \<in> set (unpublished rows)" "ev_ID (fst q) = ev_ID (fst r)"
      using a(1) by (fastforce simp: row_ids_def)
    moreover from this have "q = r"
      using a(2) that by (auto simp: row_ids_def unpublished_def distinct_map dest: inj_onD)
    ultimately show ?thesis using True by (simp add: unpublished_def)
  qed simp
  then have "filter (\<lambda>r. (if ev_ID (fst r) \<in> set ids then StatusFailed else snd r) \<noteq> StatusPublished) rows =
             filter (\<lambda>r. snd r \<noteq> StatusPublished) rows"
    by (rule filter_cong [OF refl])
  then show ?thesis by (simp add: unpublished_def set_status_def filter_map o_def)
qed

lemma filter_notin_take:
  "distinct (map f xs) \<Longrightarrow> filter (\<lambda>x. f x \<notin> f ` set (take n xs)) xs = drop n xs"
proof (induction xs arbitrary: n)
  case (Cons x xs)
  show ?case
  proof (cases n)
    case (Suc m)
    have "filter (\<lambda>y. f y \<notin> f ` set (take n (x # xs))) xs = filter (\<lambda>y. f y \<notin> f ` set (take m xs)) xs"
      using Cons.prems Suc by (intro filter_cong) (auto, metis image_eqI)
    then show ?thesis using Cons Suc by simp
  qed simp
qed simp

lemma pass_accepting:
  assumes "distinct (row_ids rows)" "0 < n"
  shows "unpublished (pass_rows (\<lambda>_. True) n rows) = drop (nat n) (unpublished rows)"
proof -
  let ?f = "\<lambda>r. ev_ID (fst r)"
  have "pass_rows (\<lambda>_. True) n rows =
        set_status StatusPublished (map ?f (take (nat n) (unpublished rows))) rows"
    using assms(2) settle_constant [of "pass_verdicts (\<lambda>_. True) n rows" True rows]
    by (simp add: pass_rows_def pass_verdicts_def limited_def o_def)
  then show ?thesis
    using filter_notin_take [of ?f "unpublished rows" "nat n"] distinct_unpublished [OF assms(1)]
    by (simp add: unpublished_set_published row_ids_def)
qed

lemma passes_accepting:
  "distinct (row_ids rows) \<Longrightarrow> 0 < n \<Longrightarrow>
    unpublished (passes_rows k (\<lambda>_. True) n rows) = drop (k * nat n) (unpublished rows) \<and>
    passes_verdicts k (\<lambda>_. True) n rows = map (\<lambda>r. (fst r, True)) (take (k * nat n) (unpublished rows))"
proof (induction k arbitrary: rows)
  case (Suc k)
  have "distinct (row_ids (pass_rows (\<lambda>_. True) n rows))"
    using Suc.prems by (simp add: pass_rows_def)
  from Suc.IH [OF this Suc.prems(2)] show ?case
    using Suc.prems
    by (simp add: pass_accepting pass_verdicts_def limited_def take_add add.commute [of _ "nat n"])
qed simp

lemma pass_blocked:
  assumes "distinct (row_ids rows)" "0 < n" "\<forall>e \<in> set (take (nat n) (map fst (unpublished rows))). \<not> ok e"
  shows "map fst (unpublished (pass_rows ok n rows)) = map fst (unpublished rows)"
    and "pass_verdicts ok n rows = map (\<lambda>e. (e, False)) (take (nat n) (map fst (unpublished rows)))"
proof -
  show v: "pass_verdicts ok n rows = map (\<lambda>e. (e, False)) (take (nat n) (map fst (unpublished rows)))"
    using assms by (simp add: pass_verdicts_def limited_def take_map)
  have "settle (pass_verdicts ok n rows) rows =
        set_status StatusFailed (map (\<lambda>v. ev_ID (fst v)) (pass_verdicts ok n rows)) rows"
    using settle_constant [of "pass_verdicts ok n rows" False rows] v by simp
  moreover have "set (map (\<lambda>v. ev_ID (fst v)) (pass_verdicts ok n rows)) \<subseteq> set (row_ids (unpublished rows))"
    by (auto simp: v row_ids_def dest!: in_set_takeD)
  ultimately show "map fst (unpublished (pass_rows ok n rows)) = map fst (unpublished rows)"
    using unpublished_set_failed assms(1) by (simp add: pass_rows_def)
qed

lemma passes_blocked:
  "distinct (row_ids rows) \<Longrightarrow> 0 < n \<Longrightarrow> \<forall>e \<in> set (take (nat n) (map fst (unpublished rows))). \<not> ok e \<Longrightarrow>
    map fst (unpublished (passes_rows k ok n rows)) = map fst (unpublished rows) \<and>
    set (passes_verdicts k ok n rows) \<subseteq> (\<lambda>e. (e, False)) ` set (take (nat n) (map fst (unpublished rows)))"
proof (induction k arbitrary: rows)
  case (Suc k)
  note b = pass_blocked [OF Suc.prems]
  have "distinct (row_ids (pass_rows ok n rows))" using Suc.prems by (simp add: pass_rows_def)
  from Suc.IH [OF this Suc.prems(2)] b Suc.prems(3) show ?case by auto
qed simp


context outbox_relay
begin

lemma drain_loop_returns:
  assumes "inv w" and "\<forall>m \<in> set ms. good (msg_Event m)" and "\<And>w e. inv w \<Longrightarrow> good e \<Longrightarrow> returns (fst (relay_publisher r [e] w))"
  shows "returns (fst (drain_loop r ms n w))"
  using assms(1,2)
proof (induction ms arbitrary: n w)
  case (Cons m ms)
  have g: "good (msg_Event m)" using Cons.prems(2) by simp
  obtain x w1 where p: "relay_publisher r [msg_Event m] w = (Return x, w1)"
    using assms(3) [OF Cons.prems(1) g] by (cases "relay_publisher r [msg_Event m] w") (auto elim: returnsE)
  then have w1: "inv w1" using publish [OF Cons.prems(1) g] by blast
  obtain w2 where m: "store_MarkPublished (relay_store r) [ev_ID (msg_Event m)] w1 = (Return None, w2)"
    using MarkPublished_ok w1 by blast
  obtain w3 where f: "store_MarkFailed (relay_store r) (ev_ID (msg_Event m)) (error_text (the x)) w1 = (Return None, w3)"
    using MarkFailed_ok w1 by blast
  show ?case
    using p m f Cons.IH Cons.prems(2) MarkPublished [OF w1 m] MarkFailed [OF w1 f] log_keeps(1) by (cases x) auto
qed simp

lemma drain_deterministic:
  assumes "inv w" and good: "\<forall>e \<in> set (map fst (rows w)). good e"
    and det: "\<And>w e. inv w \<Longrightarrow> good e \<Longrightarrow> \<exists>x w'. relay_publisher r [e] w = (Return x, w') \<and> (x = None) = ok e"
  shows "\<exists>k w'. drain r w = (Return (k, None), w') \<and> inv w' \<and>
     rows w' = pass_rows ok (relay_batchSize r) (rows w) \<and> obs w' = sees see (pass_verdicts ok (relay_batchSize r) (rows w)) (obs w)"
proof -
  have ret: "returns (fst (relay_publisher r [e] w))" if "inv w" "good e" for e w
    using det [OF that] by auto
  obtain ms w1 where f: "store_FetchPending (relay_store r) (relay_batchSize r) w = (Return (Inr ms), w1)"
    using FetchPending_ok [OF assms(1)] by blast
  then have w1: "inv w1" "map msg_row ms = limited (relay_batchSize r) (unpublished (rows w))"
    using FetchPending [OF assms(1)] by blast+
  have "returns (fst (drain_loop r ms 0 w1))"
    by (rule drain_loop_returns [OF w1(1) fetched_good [OF w1(2) good] ret])
  then have "returns (fst (drain r w))" using f by (simp add: drain_def)
  then obtain k err w' where d: "drain r w = (Return (k, err), w')"
    by (cases "drain r w") (auto elim!: returnsE)
  from drain_spec [OF assms(1) d good] obtain vs where vs:
    "map fst vs = map fst (limited (relay_batchSize r) (unpublished (rows w)))" "obs w' = sees see vs (obs w)"
    "inv w'" "err = None" "rows w' = settle vs (rows w)" "\<forall>v \<in> set vs. verdict_of (fst v) (snd v)" by blast
  have "snd v = ok (fst v)" if "v \<in> set vs" for v
  proof -
    have "verdict_of (fst v) (snd v)" using vs(6) that by blast
    then show ?thesis using det unfolding verdict_of_def by (metis outcome.inject prod.inject)
  qed
  then have "vs = map (\<lambda>e. (e, ok e)) (map fst vs)"
    by (simp add: map_idI prod_eq_iff)
  then have "vs = pass_verdicts ok (relay_batchSize r) (rows w)"
    unfolding vs(1) by (simp add: pass_verdicts_def)
  with vs d show ?thesis by (auto simp: pass_rows_def)
qed

lemma ticks_deterministic:
  assumes "inv w" and good: "\<forall>e \<in> set (map fst (rows w)). good e"
    and det: "\<And>w e. inv w \<Longrightarrow> good e \<Longrightarrow> \<exists>x w'. relay_publisher r [e] w = (Return x, w') \<and> (x = None) = ok e"
  shows "\<exists>w'. run_loop r (replicate k Tick) w = (None, w') \<and> inv w' \<and>
     rows w' = passes_rows k ok (relay_batchSize r) (rows w) \<and>
     obs w' = sees see (passes_verdicts k ok (relay_batchSize r) (rows w)) (obs w)"
  using assms(1,2)
proof (induction k arbitrary: w)
  case (Suc k)
  obtain n w1 where d: "drain r w = (Return (n, None), w1)" "inv w1"
    "rows w1 = pass_rows ok (relay_batchSize r) (rows w)" "obs w1 = sees see (pass_verdicts ok (relay_batchSize r) (rows w)) (obs w)"
    using drain_deterministic [OF Suc.prems det] by blast
  then have g: "\<forall>e \<in> set (map fst (rows w1)). good e" using Suc.prems(2) by (simp only: pass_rows_def events_settle)
  show ?case
  proof (cases "0 < n")
    case True
    then show ?thesis using Suc.IH [OF log_keeps(1) [OF d(2)]] g d by (simp add: log_keeps)
  next
    case False
    then show ?thesis using Suc.IH [OF d(2) g] d by simp
  qed
qed simp

end

subsection \<open>The relay on the in-memory store\<close>

text \<open>
  The relay the composition root builds has the store on one side and, beside it, the world the
  bus and the logger act on. \<open>journalled\<close> adds to a bus the list of the events it was given and
  whether it took them, which the code does not keep: it makes what was delivered visible.
\<close>

definition beside :: "('a, 'w) action \<Rightarrow> ('a, 's \<times> 'w) action" where
  "beside f sw = (let (r, w') = f (snd sw) in (r, (fst sw, w')))"

definition env_beside :: "'w env \<Rightarrow> ('s \<times> 'w) env" where
  "env_beside env =
    \<lparr>clock_now = \<lambda>sw. (fst (clock_now env (snd sw)), (fst sw, snd (clock_now env (snd sw)))),
     log_write = \<lambda>l sw. (fst sw, log_write env l (snd sw))\<rparr>"

definition journalled :: "'w publisher \<Rightarrow> (verdicts \<times> 'w) publisher" where
  "journalled pub es jw =
    (case pub es (snd jw) of
      (Panic p, w') \<Rightarrow> (Panic p, (fst jw, w'))
    | (Return x, w') \<Rightarrow> (Return x, (fst jw @ map (\<lambda>e. (e, x = None)) es, w')))"

definition memory_relay :: "'w env \<Rightarrow> 'w publisher \<Rightarrow> Options \<Rightarrow> (MemoryStore \<times> verdicts \<times> 'w) Relay" where
  "memory_relay env pub opts =
    NewRelay (MemoryStore_ops (env_beside env)) (\<lambda>es. beside (journalled pub es)) (env_beside (env_beside env)) opts"

lemma NewRelay_sel [simp]:
  "relay_store (NewRelay st p env opts) = st" "relay_publisher (NewRelay st p env opts) = p"
  "relay_env (NewRelay st p env opts) = env"
  "relay_batchSize (NewRelay st p env opts) = (if opt_BatchSize opts \<le> 0 then 100 else opt_BatchSize opts)"
  by (simp_all add: NewRelay_def)

lemma relay_bounds: "0 < relay_batchSize (NewRelay st p env opts)" "0 < relay_interval (NewRelay st p env opts)"
  by (simp_all add: NewRelay_def)

interpretation memory_relay: outbox_relay "memory_relay env pub opts"
    "\<lambda>sw. store_rows (fst sw)" "\<lambda>sw. store_inv (fst sw)" "\<lambda>sw. fst (snd sw)"
    "\<lambda>e b j. j @ [(e, b)]" "\<lambda>_. True"
  for env :: "'w env" and pub opts
proof -
  have s: "relay_store (memory_relay env pub opts) = MemoryStore_ops (env_beside env)" for env :: "'w env" and pub opts
    by (simp add: memory_relay_def)
  show "outbox_relay (memory_relay env pub opts) (\<lambda>sw. store_rows (fst sw)) (\<lambda>sw. store_inv (fst sw)) (\<lambda>sw. fst (snd sw))
      (\<lambda>e b j. j @ [(e, b)]) (\<lambda>_. True)"
    for env :: "'w env" and pub opts
    unfolding outbox_relay_def outbox_relay_axioms_def s
    using memory_store.reliable_store_axioms
    by (auto simp: memory_relay_def beside_def journalled_def env_beside_def MemoryStore_ops_def
        MemoryStore_FetchPending_def MemoryStore_MarkPublished_def MemoryStore_MarkFailed_def
        split: prod.splits outcome.splits)
qed


subsection \<open>Delivery guarantees\<close>

text \<open>Property C2: one pass of the relay is at-least-once. It hands each of the oldest unpublished
  messages, at most a batch of them, to the bus once and in order of insertion; a message becomes
  published exactly when the bus took it, becomes failed (and stays eligible) when the bus
  refused it, no other row changes, and the pass returns the number of messages taken.\<close>

theorem drain_at_least_once:
  assumes "store_inv s"
    and "drain (memory_relay env pub opts) (s, (j, w)) = (Return (k, err), (s', (j', w')))"
  shows "\<exists>vs. j' = j @ vs \<and> err = None \<and> k = int (length (filter snd vs)) \<and>
     map fst vs = map fst (limited (relay_batchSize (memory_relay env pub opts)) (unpublished (store_rows s))) \<and>
     store_rows s' = settle vs (store_rows s) \<and> store_inv s'"
  using memory_relay.drain_spec [of "(s, (j, w))" env pub opts k err "(s', (j', w'))"] assms by auto

text \<open>A publisher that refuses the events named \<open>bad\<close>.\<close>

definition picky :: "string list publisher" where
  "picky es w = (Return (if list_ex (\<lambda>e. ev_Name e = ''bad'') es then Some (ErrorString ''no'') else None), w)"

definition demo_store :: MemoryStore where
  "demo_store = fst (snd (MemoryStore_Add demo_env
     [demo_event\<lparr>ev_ID := ''1'', ev_Name := ''bad''\<rparr>, demo_event\<lparr>ev_ID := ''2''\<rparr>, demo_event\<lparr>ev_ID := ''2''\<rparr>]
     (NewMemoryStore, [])))"

lemma demo_store_eval:
  "store_inv demo_store \<and>
   store_rows demo_store = [(demo_event\<lparr>ev_ID := ''1'', ev_Name := ''bad''\<rparr>, StatusPending), (demo_event\<lparr>ev_ID := ''2''\<rparr>, StatusPending)]"
proof -
  let ?es = "[demo_event\<lparr>ev_ID := ''1'', ev_Name := ''bad''\<rparr>, demo_event\<lparr>ev_ID := ''2''\<rparr>, demo_event\<lparr>ev_ID := ''2''\<rparr>]"
  have "store_inv demo_store \<and> store_rows demo_store = add_rows ?es []"
    using MemoryStore_Add_spec [OF NewMemoryStore_inv, of demo_env ?es "[]"] NewMemoryStore_rows
    by (auto simp: demo_store_def)
  then show ?thesis by (simp add: row_ids_def)
qed

definition demo_options :: Options where
  "demo_options = \<lparr>opt_Interval = 0, opt_BatchSize = 1\<rparr>"

lemma demo_relay_batch: "relay_batchSize (memory_relay env pub demo_options) = 1"
  by (simp add: memory_relay_def demo_options_def)

definition demo_drain where
  "demo_drain = drain (memory_relay demo_env picky demo_options) (demo_store, ([], []))"

lemma picky_total: "\<exists>x w'. picky [e] w = (Return x, w') \<and> (x = None) = (ev_Name e \<noteq> ''bad'')"
  by (simp add: picky_def)

lemma beside_publisher:
  "(\<And>w. \<exists>x w'. pub [e] w = (Return x, w') \<and> (x = None) = ok e) \<Longrightarrow>
   \<exists>x w'. relay_publisher (memory_relay env pub opts) [e] sw = (Return x, w') \<and> (x = None) = ok e"
proof -
  assume a: "\<And>w. \<exists>x w'. pub [e] w = (Return x, w') \<and> (x = None) = ok e"
  obtain x w' where "pub [e] (snd (snd sw)) = (Return x, w')" "(x = None) = ok e"
    using a by blast
  then show ?thesis by (simp add: memory_relay_def beside_def journalled_def)
qed

theorem drain_at_least_once_witness:
  "\<exists>k err s' j' w'. demo_drain = (Return (k, err), (s', (j', w'))) \<and> err = None \<and> map fst j' = [demo_event\<lparr>ev_ID := ''1'', ev_Name := ''bad''\<rparr>]"
proof -
  obtain k sw' where "demo_drain = (Return (k, None), sw')"
    using memory_relay.drain_deterministic
        [of "(demo_store, ([], []))" demo_env picky demo_options "\<lambda>e. ev_Name e \<noteq> ''bad''"]
      beside_publisher [of picky _ "\<lambda>e. ev_Name e \<noteq> ''bad''" demo_env demo_options] picky_total demo_store_eval
    unfolding demo_drain_def by auto
  then obtain s' j' w' where d: "demo_drain = (Return (k, None), (s', (j', w')))" by (cases sw') auto
  from drain_at_least_once [OF _ d [unfolded demo_drain_def]] demo_store_eval
  have "map fst j' = [demo_event\<lparr>ev_ID := ''1'', ev_Name := ''bad''\<rparr>]"
    by (auto simp: demo_relay_batch limited_def unpublished_def)
  with d show ?thesis by (metis (no_types, lifting))
qed

text \<open>Property C3: no message is left behind. When the bus takes every event, \<open>k\<close> ticks of the relay
  deliver exactly the \<open>k\<close> batches of oldest unpublished messages, each once and in order of insertion, and
  what remains unpublished is the rest, so a backlog of \<open>p\<close> messages is empty after
  \<open>p\<close> divided by the batch size, rounded up, ticks.\<close>

theorem relay_empties_the_outbox:
  assumes "store_inv s" and "\<And>e w. fst (pub [e] w) = Return None"
  shows "\<exists>s' j' w'. run_loop (memory_relay env pub opts) (replicate k Tick) (s, (j, w)) = (None, (s', (j', w'))) \<and>
     store_inv s' \<and> (let n = k * nat (relay_batchSize (memory_relay env pub opts)) in
       unpublished (store_rows s') = drop n (unpublished (store_rows s)) \<and>
       j' = j @ map (\<lambda>r. (fst r, True)) (take n (unpublished (store_rows s))))"
proof -
  have "\<exists>x w'. pub [e] w = (Return x, w') \<and> (x = None) = True" for e w
    using assms(2) [of e w] by (cases "pub [e] w") simp
  then obtain sw' where sw: "run_loop (memory_relay env pub opts) (replicate k Tick) (s, (j, w)) = (None, sw')"
    "store_inv (fst sw')"
    "store_rows (fst sw') = passes_rows k (\<lambda>_. True) (relay_batchSize (memory_relay env pub opts)) (store_rows s)"
    "fst (snd sw') = j @ passes_verdicts k (\<lambda>_. True) (relay_batchSize (memory_relay env pub opts)) (store_rows s)"
    using memory_relay.ticks_deterministic [of "(s, (j, w))" env pub opts "\<lambda>_. True" k]
      beside_publisher [of pub _ "\<lambda>_. True" env opts] assms(1) by auto
  moreover obtain s' j' w' where "sw' = (s', (j', w'))" by (cases sw') auto
  moreover have "distinct (row_ids (store_rows s))" using assms(1) by (simp add: store_row_ids) (simp add: store_inv_def)
  moreover have "0 < relay_batchSize (memory_relay env pub opts)" by (simp add: memory_relay_def)
  ultimately show ?thesis
    using passes_accepting [of "store_rows s" "relay_batchSize (memory_relay env pub opts)" k]
    by (simp add: Let_def)
qed

theorem relay_empties_the_outbox_witness:
  "\<exists>s' j' w'. run_loop (memory_relay demo_env Nop_Publish demo_options) (replicate 2 Tick) (demo_store, ([], [])) = (None, (s', (j', w'))) \<and>
     unpublished (store_rows s') = [] \<and> map (ev_ID \<circ> fst) j' = [''1'', ''2'']"
  using relay_empties_the_outbox [of demo_store Nop_Publish demo_env demo_options 2 "[]" "[]"] demo_store_eval
  by (auto simp: Nop_Publish_def demo_relay_batch Let_def unpublished_def numeral_2_eq_2)

text \<open>Property C17: nothing bounds the attempts of a message, and a pass always starts at the oldest
  unpublished one. If the bus refuses every event of the first batch, then however often the relay ticks, no
  other message is ever handed to the bus, and the set of unpublished messages never shrinks.\<close>

theorem refused_batch_blocks_the_outbox:
  fixes env :: "'w env"
  assumes "store_inv s" and "\<And>e w. \<exists>x w'. pub [e] w = (Return x, w') \<and> (x = None) = ok e"
    and "\<forall>e \<in> set (take (nat (relay_batchSize (memory_relay env pub opts))) (map fst (unpublished (store_rows s)))). \<not> ok e"
  shows "\<exists>s' j' w'. run_loop (memory_relay env pub opts) (replicate k Tick) (s, ([], w)) = (None, (s', (j', w'))) \<and>
     map fst (unpublished (store_rows s')) = map fst (unpublished (store_rows s)) \<and>
     set (map fst j') \<subseteq> set (take (nat (relay_batchSize (memory_relay env pub opts))) (map fst (unpublished (store_rows s))))"
proof -
  obtain sw' where sw: "run_loop (memory_relay env pub opts) (replicate k Tick) (s, ([], w)) = (None, sw')"
    "store_rows (fst sw') = passes_rows k ok (relay_batchSize (memory_relay env pub opts)) (store_rows s)"
    "fst (snd sw') = passes_verdicts k ok (relay_batchSize (memory_relay env pub opts)) (store_rows s)"
    using memory_relay.ticks_deterministic [of "(s, ([], w))" env pub opts ok k]
      beside_publisher [of pub _ ok env opts] assms(1,2) by auto
  moreover obtain s' j' w' where "sw' = (s', (j', w'))" by (cases sw') auto
  moreover have "distinct (row_ids (store_rows s))" using assms(1) by (simp add: store_row_ids) (simp add: store_inv_def)
  moreover have "0 < relay_batchSize (memory_relay env pub opts)" by (simp add: memory_relay_def)
  ultimately show ?thesis
    using passes_blocked [of "store_rows s" "relay_batchSize (memory_relay env pub opts)" ok k] assms(3)
    by auto
qed

theorem refused_batch_blocks_the_outbox_witness:
  "\<exists>s' j' w'. run_loop (memory_relay demo_env picky demo_options) (replicate 5 Tick) (demo_store, ([], [])) = (None, (s', (j', w'))) \<and>
     map (ev_ID \<circ> fst) (unpublished (store_rows s')) = [''1'', ''2''] \<and> set (map fst j') \<subseteq> {demo_event\<lparr>ev_ID := ''1'', ev_Name := ''bad''\<rparr>}"
proof -
  have i: "map (ev_ID \<circ> fst) xs = map ev_ID (map fst xs)" for xs :: "(Event \<times> 'b) list" by simp
  show ?thesis
    unfolding i
    using refused_batch_blocks_the_outbox [of demo_store picky "\<lambda>e. ev_Name e \<noteq> ''bad''" demo_env demo_options 5 "[]"]
      demo_store_eval picky_total
    by (auto simp: demo_relay_batch unpublished_def)
qed


lemma add_rows_ids: "set (row_ids (add_rows es rows)) = set (row_ids rows) \<union> ev_ID ` set es"
  by (induction es arbitrary: rows) (auto simp: row_ids_def)

lemma add_rows_present: "ev_ID ` set es \<subseteq> set (row_ids rows) \<Longrightarrow> add_rows es rows = rows"
  by (induction es) simp_all

lemma add_rows_idem: "add_rows es (add_rows es rows) = add_rows es rows"
  by (rule add_rows_present) (auto simp: add_rows_ids)

lemma add_rows_extends: "\<exists>new. add_rows es rows = rows @ map (\<lambda>e. (e, StatusPending)) new \<and> set new \<subseteq> set es"
proof (induction es arbitrary: rows)
  case (Cons e es)
  show ?case
  proof (cases "ev_ID e \<in> set (row_ids rows)")
    case True
    then show ?thesis using Cons.IH [of rows] by (fastforce intro: exI)
  next
    case False
    obtain new where "add_rows es (rows @ [(e, StatusPending)]) = (rows @ [(e, StatusPending)]) @ map (\<lambda>e. (e, StatusPending)) new"
      "set new \<subseteq> set es" using Cons.IH [of "rows @ [(e, StatusPending)]"] by blast
    then show ?thesis using False by (intro exI [of _ "e # new"]) auto
  qed
qed simp

text \<open>Publishing through the outbox only appends. It always succeeds on the in-memory
  store, keeps every row and its status, stores each event once as pending, and publishing the same
  events again (a retried command) changes nothing, whatever became of their rows.\<close>

theorem outbox_publish_idempotent:
  assumes "store_inv s"
  shows "\<exists>s1 w1 s2 w2. Publisher_Publish (MemoryStore_ops env) es (s, w) = (Return None, (s1, w1)) \<and>
     Publisher_Publish (MemoryStore_ops env) es (s1, w1) = (Return None, (s2, w2)) \<and> store_inv s1 \<and>
     store_rows s2 = store_rows s1 \<and> prefix (store_rows s) (store_rows s1) \<and>
     set (row_ids (store_rows s1)) = set (row_ids (store_rows s)) \<union> ev_ID ` set es \<and>
     (\<forall>r \<in> set (drop (length (store_rows s)) (store_rows s1)). snd r = StatusPending \<and> fst r \<in> set es)"
proof -
  obtain s1 w1 where 1: "Publisher_Publish (MemoryStore_ops env) es (s, w) = (Return None, (s1, w1))" "store_inv s1"
    "store_rows s1 = add_rows es (store_rows s)"
    using memory_store.publisher_total [of "(s, w)" env es] assms by auto
  obtain s2 w2 where 2: "Publisher_Publish (MemoryStore_ops env) es (s1, w1) = (Return None, (s2, w2))"
    "store_rows s2 = add_rows es (store_rows s1)"
    using memory_store.publisher_total [of "(s1, w1)" env es] 1 by auto
  obtain new where "store_rows s1 = store_rows s @ map (\<lambda>e. (e, StatusPending)) new" "set new \<subseteq> set es"
    using add_rows_extends [of es "store_rows s"] 1 by auto
  then have "prefix (store_rows s) (store_rows s1)"
    "\<forall>r \<in> set (drop (length (store_rows s)) (store_rows s1)). snd r = StatusPending \<and> fst r \<in> set es" by auto
  moreover have "store_rows s2 = store_rows s1"
    "set (row_ids (store_rows s1)) = set (row_ids (store_rows s)) \<union> ev_ID ` set es"
    using 1 2 by (simp_all add: add_rows_ids add_rows_idem)
  ultimately show ?thesis using 1 2 by blast
qed

theorem outbox_publish_idempotent_witness:
  "\<exists>s1 w1. Publisher_Publish (MemoryStore_ops demo_env) [demo_event, demo_event] (NewMemoryStore, []) = (Return None, (s1, w1)) \<and>
     set (row_ids (store_rows s1)) = {''e-1''}"
  using outbox_publish_idempotent [OF NewMemoryStore_inv, of demo_env "[demo_event, demo_event]" "[]"]
  by (auto simp: NewMemoryStore_rows row_ids_def demo_event_def)

lemma PendingCount_fold:
  "fold (\<lambda>m n. if msg_Status m \<noteq> StatusPublished then n + 1 else n) ms (k :: int) =
   k + int (length (filter (\<lambda>m. msg_Status m \<noteq> StatusPublished) ms))"
  by (induction ms arbitrary: k) simp_all

text \<open>\<open>PendingCount\<close> does not depend on the order in which the map is visited and
  counts exactly the messages that \<open>FetchPending\<close> without a limit returns.\<close>

theorem PendingCount_counts_unpublished:
  assumes "store_inv s" and "enumerates keys (ob_byID s)"
  shows "PendingCount keys s = int (length (unpublished (store_rows s))) \<and>
    (\<exists>ms. MemoryStore_FetchPending 0 (s, w) = (Return (Inr ms), (s, w)) \<and> PendingCount keys s = int (length ms))"
proof -
  let ?P = "\<lambda>m. msg_Status m \<noteq> StatusPublished"
  have "range_map keys (ob_byID s) = map (\<lambda>i. the (ob_byID s i)) keys"
    using assms(2) by (auto simp: range_map_def List.map_filter_def enumerates_def intro!: map_cong filter_True)
  moreover have "mset keys = mset (ob_order s)"
    using assms by (metis store_inv_def enumerates_def set_eq_iff_mset_eq_distinct)
  ultimately have "mset (range_map keys (ob_byID s)) = mset (map (\<lambda>i. the (ob_byID s i)) (ob_order s))" by simp
  then have "mset (filter ?P (range_map keys (ob_byID s))) = mset (filter ?P (map (\<lambda>i. the (ob_byID s i)) (ob_order s)))"
    by simp
  then have "length (filter ?P (range_map keys (ob_byID s))) = length (filter ?P (map (\<lambda>i. the (ob_byID s i)) (ob_order s)))"
    by (rule mset_eq_length)
  also have "\<dots> = length (unpublished (store_rows s))"
    by (simp add: unpublished_def store_rows_def filter_map o_def msg_row_def)
  finally have "PendingCount keys s = int (length (unpublished (store_rows s)))"
    by (simp add: PendingCount_def PendingCount_fold)
  moreover obtain ms where "MemoryStore_FetchPending 0 (s, w) = (Return (Inr ms), (s, w))" "map msg_row ms = unpublished (store_rows s)"
    using MemoryStore_FetchPending_spec [OF assms(1), of 0 w] by (auto simp: limited_def)
  moreover from this have "length ms = length (unpublished (store_rows s))" by (metis length_map)
  ultimately show ?thesis by simp
qed

theorem PendingCount_counts_unpublished_witness:
  "PendingCount [''2'', ''1''] demo_store = 2"
proof -
  have "enumerates [''2'', ''1''] (ob_byID demo_store)"
  proof -
    have o: "ob_order demo_store = [''1'', ''2'']"
      using store_row_ids [of demo_store] demo_store_eval by (simp add: row_ids_def)
    then have "dom (ob_byID demo_store) = set [''1'', ''2'']"
      using demo_store_eval unfolding store_inv_def by metis
    then show ?thesis by (simp add: enumerates_def insert_commute)
  qed
  then show ?thesis
    using PendingCount_counts_unpublished [THEN conjunct1, of demo_store "[''2'', ''1'']"] demo_store_eval
    by (simp add: unpublished_def)
qed

end
