(* ===== verification/Ids.thy ===== *)
theory Ids
  imports EventBus "HOL-Library.Word"
begin

unbundle bit_operations_syntax

text \<open>
  The identifier generator of \<open>internal/shared/infrastructure/id\<close> and the clock of
  \<open>internal/shared/infrastructure/clock\<close>, as implementations of the ports \<open>IDGenerator\<close> and
  \<open>Clock\<close> of \<open>internal/shared/application\<close>. The entropy source is an argument: reading it
  gives the sixteen bytes of the buffer, or an error, and the next state.
\<close>

type_synonym 'w entropy = "'w \<Rightarrow> (8 word list) result \<times> 'w"

definition hex_char :: "8 word \<Rightarrow> char" where
  "hex_char d = char_of (if unat d < 10 then 48 + unat d else 87 + unat d)"

definition hex_Encode :: "8 word list \<Rightarrow> string" where
  "hex_Encode bs = concat (map (\<lambda>b. [hex_char (drop_bit 4 b), hex_char (b AND 0x0f)]) bs)"

text \<open>The pure part of \<open>New\<close>: the version and variant bits are set, and the groups are written.\<close>

definition uuid_text :: "8 word list \<Rightarrow> string" where
  "uuid_text b0 =
    (let b1 = b0[6 := (b0 ! 6 AND 0x0f) OR 0x40];
         b = b1[8 := (b1 ! 8 AND 0x3f) OR 0x80]
     in hex_Encode (take 4 b) @ ''-'' @ hex_Encode (take 2 (drop 4 b)) @ ''-'' @
        hex_Encode (take 2 (drop 6 b)) @ ''-'' @ hex_Encode (take 2 (drop 8 b)) @ ''-'' @
        hex_Encode (drop 10 b))"

definition New :: "'w entropy \<Rightarrow> (string, 'w) action" where
  "New rand w =
    (case rand w of
      (Inl err, w') \<Rightarrow> (Panic (''id: entropy source failed: '' @ error_text err), w')
    | (Inr b, w') \<Rightarrow> (Return (uuid_text b), w'))"

definition UUID_NewID :: "'w entropy \<Rightarrow> (string, 'w) action" where
  "UUID_NewID rand = New rand"

definition Fixed_NewID :: "string \<Rightarrow> (string, 'w) action" where
  "Fixed_NewID v w = (Return v, w)"

definition System_Now :: "'w env \<Rightarrow> 'w \<Rightarrow> gotime \<times> 'w" where
  "System_Now env w = clock_now env w"

definition FixedClock_Now :: "gotime \<Rightarrow> 'w \<Rightarrow> gotime \<times> 'w" where
  "FixedClock_Now at w = (at, w)"


subsection \<open>Shape and collisions\<close>

lemma high_digit: "unat (drop_bit 4 (b :: 8 word)) = unat b div 16"
  by (simp add: drop_bit_eq_div unat_div_distrib)

lemma low_digit: "unat (b AND 0x0f :: 8 word) = unat b mod 16"
proof -
  have "b AND 0x0f = take_bit 4 b" by (simp add: take_bit_eq_mask mask_eq_exp_minus_1)
  then show ?thesis by (simp add: take_bit_eq_mod unat_mod_distrib)
qed

lemma unat_byte: "unat (b :: 8 word) < 256"
  using unsigned_less [of b] by simp

lemma of_char_hex: "unat d < 16 \<Longrightarrow> of_char (hex_char d) = (if unat d < 10 then 48 + unat d else 87 + unat d)"
  by (simp add: hex_char_def)

lemma hex_char_inject:
  assumes "unat c < 16" "unat d < 16"
  shows "hex_char c = hex_char d \<longleftrightarrow> c = d"
proof
  assume "hex_char c = hex_char d"
  then have "of_char (hex_char c) = (of_char (hex_char d) :: nat)" by simp
  then have "unat c = unat d" using assms by (simp add: of_char_hex split: if_splits)
  then show "c = d" by (simp add: word_unat_eq_iff)
qed simp

lemma hex_byte_inject:
  "hex_char (drop_bit 4 a) = hex_char (drop_bit 4 b) \<and> hex_char (a AND 0x0f) = hex_char (b AND 0x0f) \<longleftrightarrow> a = b"
proof -
  have "unat (drop_bit 4 x) < 16" "unat (x AND 0x0f) < 16" for x :: "8 word"
    using unat_byte [of x] by (simp_all add: high_digit low_digit)
  then have "hex_char (drop_bit 4 a) = hex_char (drop_bit 4 b) \<and> hex_char (a AND 0x0f) = hex_char (b AND 0x0f) \<longleftrightarrow>
     unat a div 16 = unat b div 16 \<and> unat a mod 16 = unat b mod 16"
    by (simp add: hex_char_inject word_unat_eq_iff high_digit low_digit)
  also have "\<dots> \<longleftrightarrow> a = b" by (metis div_mult_mod_eq word_unat_eq_iff)
  finally show ?thesis .
qed

lemma hex_char_set: "unat d < 16 \<Longrightarrow> hex_char d \<in> set ''0123456789abcdef''"
proof -
  assume "unat d < 16"
  then have "of_char (hex_char d) \<in> (of_char :: char \<Rightarrow> nat) ` set ''0123456789abcdef''"
    by (simp add: of_char_hex) presburger
  then show ?thesis by (simp only: inj_image_mem_iff [OF inj_of_char])
qed

lemma hex_Encode_append: "hex_Encode (as @ bs) = hex_Encode as @ hex_Encode bs"
  and hex_Encode_Cons [simp]: "hex_Encode (b # bs) = hex_char (drop_bit 4 b) # hex_char (b AND 0x0f) # hex_Encode bs"
  and hex_Encode_Nil [simp]: "hex_Encode [] = []"
  by (simp_all add: hex_Encode_def)

lemma length_hex_Encode [simp]: "length (hex_Encode bs) = 2 * length bs"
  by (induction bs) simp_all

lemma hex_Encode_inject: "length as = length bs \<Longrightarrow> hex_Encode as = hex_Encode bs \<longleftrightarrow> as = bs"
proof (induction as bs rule: list_induct2)
  case (Cons a as b bs)
  then show ?case using hex_byte_inject [of a b] by auto
qed simp

lemma hex_Encode_set: "set (hex_Encode bs) \<subseteq> set ''0123456789abcdef''"
proof (induction bs)
  case (Cons b bs)
  have "unat (drop_bit 4 b) < 16" "unat (b AND 0x0f) < 16"
    using unat_byte [of b] by (simp_all add: high_digit low_digit)
  with Cons show ?case using hex_char_set by simp
qed simp

text \<open>The buffer with the version and variant bits set.\<close>

definition stamped :: "8 word list \<Rightarrow> 8 word list" where
  "stamped b = (b[6 := (b ! 6 AND 0x0f) OR 0x40])[8 := (b ! 8 AND 0x3f) OR 0x80]"

lemma uuid_text_stamped: "uuid_text b =
    hex_Encode (take 4 (stamped b)) @ ''-'' @ hex_Encode (take 2 (drop 4 (stamped b))) @ ''-'' @
    hex_Encode (take 2 (drop 6 (stamped b))) @ ''-'' @ hex_Encode (take 2 (drop 8 (stamped b))) @ ''-'' @
    hex_Encode (drop 10 (stamped b))"
  by (simp add: uuid_text_def stamped_def Let_def)

lemma length_stamped [simp]: "length (stamped b) = length b"
  by (simp add: stamped_def)

lemma nth_stamped: "length b = 16 \<Longrightarrow> i < 16 \<Longrightarrow>
    stamped b ! i = (if i = 6 then (b ! i AND 0x0f) OR 0x40 else if i = 8 then (b ! i AND 0x3f) OR 0x80 else b ! i)"
  by (simp add: stamped_def nth_list_update)

lemma uuid_text_inject:
  assumes "length a = 16" "length b = 16"
  shows "uuid_text a = uuid_text b \<longleftrightarrow> stamped a = stamped b"
proof -
  define x y where "x = stamped a" and "y = stamped b"
  have l: "length x = 16" "length y = 16" using assms by (simp_all add: x_def y_def)
  have "uuid_text a = uuid_text b \<longleftrightarrow> take 4 x = take 4 y \<and> take 2 (drop 4 x) = take 2 (drop 4 y) \<and>
     take 2 (drop 6 x) = take 2 (drop 6 y) \<and> take 2 (drop 8 x) = take 2 (drop 8 y) \<and> drop 10 x = drop 10 y"
    using l by (simp add: uuid_text_stamped x_def [symmetric] y_def [symmetric] hex_Encode_inject)
  also have "\<dots> \<longleftrightarrow> x = y"
  proof
    have split: "z = take 4 z @ take 2 (drop 4 z) @ take 2 (drop 6 z) @ take 2 (drop 8 z) @ drop 10 z" for z :: "8 word list"
      using append_take_drop_id [of 4 z] append_take_drop_id [of 2 "drop 4 z"] append_take_drop_id [of 2 "drop 6 z"]
        append_take_drop_id [of 2 "drop 8 z"] by simp
    assume "take 4 x = take 4 y \<and> take 2 (drop 4 x) = take 2 (drop 4 y) \<and>
     take 2 (drop 6 x) = take 2 (drop 6 y) \<and> take 2 (drop 8 x) = take 2 (drop 8 y) \<and> drop 10 x = drop 10 y"
    then show "x = y" using split [of x] split [of y] by metis
  qed simp
  finally show ?thesis by (simp add: x_def y_def)
qed

lemma version_mask_inject: "(a AND 0x0f) OR 0x40 = (b AND 0x0f) OR (0x40 :: 8 word) \<longleftrightarrow> a AND 0x0f = b AND 0x0f"
proof -
  have "((x AND 0x0f) OR 0x40) AND 0x0f = x AND (0x0f :: 8 word)" for x
    by (simp add: bit.conj_disj_distrib2 and.assoc)
  then show ?thesis by metis
qed

lemma variant_mask_inject: "(a AND 0x3f) OR 0x80 = (b AND 0x3f) OR (0x80 :: 8 word) \<longleftrightarrow> a AND 0x3f = b AND 0x3f"
proof -
  have "((x AND 0x3f) OR 0x80) AND 0x3f = x AND (0x3f :: 8 word)" for x
    by (simp add: bit.conj_disj_distrib2 and.assoc)
  then show ?thesis by metis
qed

text \<open>The bits of a byte of the buffer that end up in the text: all but the six that are fixed.\<close>

definition random_bits :: "8 word list \<Rightarrow> nat \<Rightarrow> 8 word" where
  "random_bits b i = (if i = 6 then b ! i AND 0x0f else if i = 8 then b ! i AND 0x3f else b ! i)"

text \<open>Two identifiers are equal exactly when the 122 random bits behind them are: the
  fixed bits and the formatting lose nothing else.\<close>

theorem uuid_collides_only_on_random_bits:
  assumes "length a = 16" "length b = 16"
  shows "uuid_text a = uuid_text b \<longleftrightarrow> (\<forall>i < 16. random_bits a i = random_bits b i)"
proof -
  have "stamped a = stamped b \<longleftrightarrow> (\<forall>i < 16. stamped a ! i = stamped b ! i)"
    using assms by (auto simp: list_eq_iff_nth_eq)
  also have "\<dots> \<longleftrightarrow> (\<forall>i < 16. random_bits a i = random_bits b i)"
    using assms by (intro all_cong) (simp add: nth_stamped random_bits_def version_mask_inject variant_mask_inject)
  finally show ?thesis using uuid_text_inject [OF assms] by simp
qed

text \<open>Every identifier is a version 4 UUID in canonical form: 36 characters, hyphens
  at the four places, the version digit 4, the variant digit one of 8, 9, a and b, lower-case
  hexadecimal digits elsewhere.\<close>

theorem uuid_is_canonical_v4:
  assumes "length b = 16"
  shows "length (uuid_text b) = 36 \<and> set (uuid_text b) \<subseteq> set ''0123456789abcdef-'' \<and>
    (\<forall>i \<in> {8, 13, 18, 23}. uuid_text b ! i = CHR ''-'') \<and>
    uuid_text b ! 14 = CHR ''4'' \<and> uuid_text b ! 19 \<in> set ''89ab''"
proof -
  define x where "x = stamped b"
  have l: "length x = 16" using assms by (simp add: x_def)
  have u: "uuid_text b = hex_Encode (take 4 x) @ ''-'' @ hex_Encode (take 2 (drop 4 x)) @ ''-'' @
      hex_Encode (take 2 (drop 6 x)) @ ''-'' @ hex_Encode (take 2 (drop 8 x)) @ ''-'' @ hex_Encode (drop 10 x)"
    by (simp add: uuid_text_stamped x_def)
  have six: "take 2 (drop 6 x) = [x ! 6, x ! 7]" and eight: "take 2 (drop 8 x) = [x ! 8, x ! 9]"
    using l by (simp_all add: take_Suc_conv_app_nth numeral_2_eq_2)
  have "uuid_text b ! 14 = hex_char (drop_bit 4 (x ! 6))" "uuid_text b ! 19 = hex_char (drop_bit 4 (x ! 8))"
    using l by (simp_all add: u six eight nth_append)
  moreover have "drop_bit 4 (x ! 6) = 4" "drop_bit 4 (x ! 8) = (drop_bit 4 (b ! 8) AND 3) OR 8"
    using assms by (simp_all add: x_def nth_stamped)
  moreover have "hex_char 4 = CHR ''4''" by (simp add: hex_char_def char_of_def bit_Suc_0_iff)
  moreover have "hex_char ((z AND 3) OR 8) \<in> set ''89ab''" for z :: "8 word"
  proof -
    have "z AND 3 = take_bit 2 z" by (simp add: take_bit_eq_mask mask_eq_exp_minus_1)
    then have "unat (z AND 3) = unat z mod 4" by (simp add: take_bit_eq_mod unat_mod_distrib)
    then have "unat (z AND 3) < 4" by simp
    then have "unat (z AND 3) \<in> {unat (0 :: 8 word), unat (1 :: 8 word), unat (2 :: 8 word), unat (3 :: 8 word)}"
      by auto
    then have "z AND 3 = 0 \<or> z AND 3 = 1 \<or> z AND 3 = 2 \<or> z AND 3 = 3" by (simp only: insert_iff empty_iff word_unat_eq_iff) simp
    then show ?thesis by (elim disjE) (simp_all add: hex_char_def char_of_def bit_Suc_0_iff)
  qed
  moreover have "length (uuid_text b) = 36" using l by (simp add: u)
  moreover have "set (uuid_text b) \<subseteq> set ''0123456789abcdef-''"
    using hex_Encode_set by (fastforce simp: u)
  moreover have "\<forall>i \<in> {8, 13, 18, 23}. uuid_text b ! i = CHR ''-''"
    using l by (simp add: u nth_append)
  ultimately show ?thesis by simp
qed


definition demo_bytes :: "8 word list" where
  "demo_bytes = [0x12, 0x34, 0x56, 0x78, 0x9a, 0xbc, 0xde, 0xf0, 0x12, 0x34, 0x56, 0x78, 0x9a, 0xbc, 0xde, 0xf0]"

theorem uuid_collides_only_on_random_bits_witness:
  "uuid_text demo_bytes = uuid_text (demo_bytes[8 := 0xd2]) \<and> uuid_text demo_bytes \<noteq> uuid_text (demo_bytes[8 := 0x13])"
proof -
  have l: "length demo_bytes = 16" by (simp add: demo_bytes_def)
  have "\<forall>i < 16. random_bits demo_bytes i = random_bits (demo_bytes[8 := 0xd2]) i"
    by (auto simp: random_bits_def nth_list_update demo_bytes_def [THEN arg_cong, of "\<lambda>b. b ! 8"] demo_bytes_def [THEN arg_cong, of length])
  moreover have "random_bits demo_bytes 8 \<noteq> random_bits (demo_bytes[8 := 0x13]) 8"
    by (simp add: random_bits_def demo_bytes_def)
  moreover have "(8 :: nat) < 16" by simp
  ultimately show ?thesis
    using uuid_collides_only_on_random_bits [of demo_bytes "demo_bytes[8 := 0xd2]"]
      uuid_collides_only_on_random_bits [of demo_bytes "demo_bytes[8 := 0x13]"] l
    by (metis length_list_update)
qed

theorem uuid_is_canonical_v4_witness:
  "length (uuid_text demo_bytes) = 36 \<and> uuid_text demo_bytes ! 14 = CHR ''4'' \<and>
   uuid_text demo_bytes = ''12345678-9abc-4ef0-9234-56789abcdef0''"
proof -
  have "uuid_text demo_bytes = ''12345678-9abc-4ef0-9234-56789abcdef0''"
    by (simp add: uuid_text_def demo_bytes_def hex_char_def char_of_def bit_Suc_0_iff Let_def drop_bit_eq_div)
  then show ?thesis using uuid_is_canonical_v4 [of demo_bytes] by (simp add: demo_bytes_def)
qed

end
