(* ===== verification/CustomerMessaging.thy ===== *)
theory CustomerMessaging
  imports Outbox Json Ids
begin

text \<open>
  The customer context's translation of domain events into versioned integration events
  (\<open>internal/customer/infrastructure/messaging\<close>), the dispatcher that pushes them to a publisher, and
  the handlers of other contexts' events. The Go interface \<open>DomainEvent\<close> is open: a value is
  an event of this context or one of another.
\<close>

datatype DomainEvent =
    OfCustomer customer_event
  | OfOther string gotime string

fun DomainEvent_AggregateID :: "DomainEvent \<Rightarrow> string" where
  "DomainEvent_AggregateID (OfCustomer e) = customer_AggregateID e"
| "DomainEvent_AggregateID (OfOther name at i) = i"

fun DomainEvent_OccurredAt :: "DomainEvent \<Rightarrow> gotime" where
  "DomainEvent_OccurredAt (OfCustomer e) = customer_OccurredAt e"
| "DomainEvent_OccurredAt (OfOther name at i) = at"

definition Source :: string where
  "Source = ''customer''"

definition EventCustomerCreated :: string where
  "EventCustomerCreated = ''customer.v1.created''"

definition EventCustomerEmailChanged :: string where
  "EventCustomerEmailChanged = ''customer.v1.email_changed''"

definition EventCustomerDeactivated :: string where
  "EventCustomerDeactivated = ''customer.v1.deactivated''"

text \<open>The payload structs, as the fields their tags name in the order of declaration.\<close>

definition customerCreatedV1 :: "string \<Rightarrow> string \<Rightarrow> string \<Rightarrow> (string \<times> string) list" where
  "customerCreatedV1 i name email = [(''id'', i), (''name'', name), (''email'', email)]"

definition customerEmailChangedV1 :: "string \<Rightarrow> string \<Rightarrow> string \<Rightarrow> (string \<times> string) list" where
  "customerEmailChangedV1 i old new = [(''id'', i), (''old_email'', old), (''new_email'', new)]"

definition customerDeactivatedV1 :: "string \<Rightarrow> string \<Rightarrow> (string \<times> string) list" where
  "customerDeactivatedV1 i reason = [(''id'', i), (''reason'', reason)]"

text \<open>The closure \<open>base\<close>; marshalling a struct of strings cannot fail.\<close>

definition integration_base :: "'w entropy \<Rightarrow> string \<Rightarrow> string \<Rightarrow> gotime \<Rightarrow> (string \<times> string) list \<Rightarrow> (Event option, 'w) action" where
  "integration_base rand name aggregateID occurredAt payload w =
    (case New rand w of
      (Panic p, w') \<Rightarrow> (Panic p, w')
    | (Return i, w') \<Rightarrow>
        (Return (Some \<lparr>ev_ID = i, ev_Name = name, ev_Source = Source, ev_AggregateID = aggregateID,
           ev_OccurredAt = occurredAt, ev_Version = 1, ev_CorrelationID = [], ev_CausationID = [],
           ev_Payload = marshal_strings payload, ev_Metadata = Map.empty\<rparr>), w'))"

fun ToIntegrationEvent :: "'w entropy \<Rightarrow> DomainEvent \<Rightarrow> (Event option, 'w) action" where
  "ToIntegrationEvent rand (OfCustomer (CustomerCreated i name email at)) =
    integration_base rand EventCustomerCreated i at (customerCreatedV1 i name email)"
| "ToIntegrationEvent rand (OfCustomer (CustomerEmailChanged i old new at)) =
    integration_base rand EventCustomerEmailChanged i at (customerEmailChangedV1 i old new)"
| "ToIntegrationEvent rand (OfCustomer (CustomerDeactivated i reason at)) =
    integration_base rand EventCustomerDeactivated i at (customerDeactivatedV1 i reason)"
| "ToIntegrationEvent rand (OfOther name at i) = (\<lambda>w. (Return None, w))"

text \<open>The loop of the dispatcher, with the events mapped so far.\<close>

fun map_events :: "'w entropy \<Rightarrow> DomainEvent list \<Rightarrow> Event list \<Rightarrow> (Event list, 'w) action" where
  "map_events rand [] out w = (Return out, w)"
| "map_events rand (de # des) out w =
    (case ToIntegrationEvent rand de w of
      (Panic p, w') \<Rightarrow> (Panic p, w')
    | (Return (Some ie), w') \<Rightarrow> map_events rand des (out @ [ie]) w'
    | (Return None, w') \<Rightarrow> map_events rand des out w')"

definition Dispatcher_Publish :: "'w entropy \<Rightarrow> 'w publisher \<Rightarrow> DomainEvent list \<Rightarrow> (gerr option, 'w) action" where
  "Dispatcher_Publish rand publisher domainEvents w =
    (if length domainEvents = 0 then (Return None, w)
     else case map_events rand domainEvents [] w of
       (Panic p, w') \<Rightarrow> (Panic p, w')
     | (Return out, w') \<Rightarrow> if length out = 0 then (Return None, w') else publisher out w')"

subsection \<open>Inbound handlers\<close>

definition onOrderPlaced :: "'w env \<Rightarrow> 'w handler" where
  "onOrderPlaced env e w =
    (Return None, log_write env (log_rec LevelInfo ''customer context observed order.v1.placed''
       [(''event_id'', AttrText (ev_ID e)), (''aggregate_id'', AttrText (ev_AggregateID e))]) w)"

definition InboundHandlers_Register :: "('b, 'w) subscribe_fn \<Rightarrow> 'w env \<Rightarrow> 'b \<Rightarrow> 'w \<Rightarrow> gerr option \<times> 'b \<times> 'w" where
  "InboundHandlers_Register sub env bus = sub ''order.v1.placed'' (Some (onOrderPlaced env)) bus"

subsection \<open>The published contract\<close>

definition integration_name :: "customer_event \<Rightarrow> string" where
  "integration_name e =
    (case e of CustomerCreated _ _ _ _ \<Rightarrow> EventCustomerCreated
     | CustomerEmailChanged _ _ _ _ \<Rightarrow> EventCustomerEmailChanged
     | CustomerDeactivated _ _ _ \<Rightarrow> EventCustomerDeactivated)"

text \<open>What a consumer that knows the payload shapes reads from an integration event.\<close>

definition read_event :: "Event \<Rightarrow> customer_event option" where
  "read_event e =
    (if ev_Name e = EventCustomerCreated then
       (case unmarshal_strings [''id'', ''name'', ''email''] (ev_Payload e) of
          Inr v \<Rightarrow> Some (CustomerCreated (v ''id'') (v ''name'') (v ''email'') (ev_OccurredAt e)) | Inl _ \<Rightarrow> None)
     else if ev_Name e = EventCustomerEmailChanged then
       (case unmarshal_strings [''id'', ''old_email'', ''new_email''] (ev_Payload e) of
          Inr v \<Rightarrow> Some (CustomerEmailChanged (v ''id'') (v ''old_email'') (v ''new_email'') (ev_OccurredAt e)) | Inl _ \<Rightarrow> None)
     else if ev_Name e = EventCustomerDeactivated then
       (case unmarshal_strings [''id'', ''reason''] (ev_Payload e) of
          Inr v \<Rightarrow> Some (CustomerDeactivated (v ''id'') (v ''reason'') (ev_OccurredAt e)) | Inl _ \<Rightarrow> None)
     else None)"

fun event_utf8 :: "customer_event \<Rightarrow> customer_event" where
  "event_utf8 (CustomerCreated i n e t) = CustomerCreated (to_utf8 i) (to_utf8 n) (to_utf8 e) t"
| "event_utf8 (CustomerEmailChanged i x y t) = CustomerEmailChanged (to_utf8 i) (to_utf8 x) (to_utf8 y) t"
| "event_utf8 (CustomerDeactivated i r t) = CustomerDeactivated (to_utf8 i) (to_utf8 r) t"

lemma valid_utf8_ascii: "ascii s \<Longrightarrow> valid_utf8 s"
  by (simp add: valid_utf8_def ascii_bytes runes_ascii encode_runes_ascii)

lemma field_names_utf8:
  "valid_utf8 ''id''" "valid_utf8 ''name''" "valid_utf8 ''email''" "valid_utf8 ''old_email''"
  "valid_utf8 ''new_email''" "valid_utf8 ''reason''"
  by (simp_all add: valid_utf8_ascii ascii_def)

lemmas payload_defs = customerCreatedV1_def customerEmailChangedV1_def customerDeactivatedV1_def
lemmas event_names = EventCustomerCreated_def EventCustomerEmailChanged_def EventCustomerDeactivated_def

lemma integration_base_Return:
  "integration_base rand name aid at payload w = (Return r, w') \<Longrightarrow>
    \<exists>i. New rand w = (Return i, w') \<and> r = Some \<lparr>ev_ID = i, ev_Name = name, ev_Source = Source, ev_AggregateID = aid,
           ev_OccurredAt = at, ev_Version = 1, ev_CorrelationID = [], ev_CausationID = [],
           ev_Payload = marshal_strings payload, ev_Metadata = Map.empty\<rparr>"
  by (auto simp: integration_base_def split: prod.splits outcome.splits)

lemma read_created: "unmarshal_strings [''id'', ''name'', ''email''] (marshal_strings (customerCreatedV1 i n e)) =
    Inr ((((\<lambda>_. [])(''id'' := to_utf8 i))(''name'' := to_utf8 n))(''email'' := to_utf8 e))"
  by (subst unmarshal_marshal) (simp_all add: customerCreatedV1_def field_names_utf8)

lemma read_email_changed:
  "unmarshal_strings [''id'', ''old_email'', ''new_email''] (marshal_strings (customerEmailChangedV1 i x y)) =
    Inr ((((\<lambda>_. [])(''id'' := to_utf8 i))(''old_email'' := to_utf8 x))(''new_email'' := to_utf8 y))"
  by (subst unmarshal_marshal) (simp_all add: customerEmailChangedV1_def field_names_utf8)

lemma read_deactivated: "unmarshal_strings [''id'', ''reason''] (marshal_strings (customerDeactivatedV1 i r)) =
    Inr (((\<lambda>_. [])(''id'' := to_utf8 i))(''reason'' := to_utf8 r))"
  by (subst unmarshal_marshal) (simp_all add: customerDeactivatedV1_def field_names_utf8)

lemma read_event_mapped:
  assumes "ToIntegrationEvent rand (OfCustomer e) w = (Return r, w')"
  shows "\<exists>ie. r = Some ie \<and> read_event ie = Some (event_utf8 e) \<and> ev_Name ie = integration_name e \<and>
    ev_Source ie = Source \<and> ev_AggregateID ie = customer_AggregateID e \<and> ev_Version ie = 1 \<and>
    ev_OccurredAt ie = customer_OccurredAt e \<and> New rand w = (Return (ev_ID ie), w')"
  using assms
  by (cases e)
     (auto dest!: integration_base_Return simp: read_event_def integration_name_def event_names
       read_created read_email_changed read_deactivated)

text \<open>Property C8: the mapping to integration events loses nothing. The event carries the versioned
  name of its kind, the aggregate's identifier, the instant and a fresh identifier, and a consumer that
  decodes the payload by its published shape gets back exactly the fields of the domain event, up to the
  replacement of bytes that are not UTF-8.\<close>

theorem integration_event_round_trip:
  assumes "ToIntegrationEvent rand (OfCustomer e) w = (Return r, w')"
  shows "\<exists>ie. r = Some ie \<and> read_event ie = Some (event_utf8 e) \<and> ev_Name ie = integration_name e \<and>
    ev_Source ie = Source \<and> ev_AggregateID ie = customer_AggregateID e \<and> ev_Version ie = 1 \<and>
    ev_OccurredAt ie = customer_OccurredAt e \<and> New rand w = (Return (ev_ID ie), w')"
  using assms by (rule read_event_mapped)

definition demo_rand :: "string list entropy" where
  "demo_rand w = (Inr demo_bytes, w)"

theorem integration_event_round_trip_witness:
  "\<exists>ie. ToIntegrationEvent demo_rand (OfCustomer (CustomerCreated ''c-1'' ''A\"<b>'' ''a@b.c'' 7)) [] = (Return (Some ie), []) \<and>
     read_event ie = Some (CustomerCreated ''c-1'' ''A\"<b>'' ''a@b.c'' 7)"
proof -
  have u: "valid_utf8 ''c-1''" "valid_utf8 ''A\"<b>''" "valid_utf8 ''a@b.c''"
    by (simp_all add: valid_utf8_ascii ascii_def)
  obtain r where r: "ToIntegrationEvent demo_rand (OfCustomer (CustomerCreated ''c-1'' ''A\"<b>'' ''a@b.c'' 7)) [] = (Return r, [])"
    by (simp add: integration_base_def New_def demo_rand_def)
  from integration_event_round_trip [OF r] r u show ?thesis by auto
qed


subsection \<open>The dispatcher\<close>

fun customer_events_of :: "DomainEvent list \<Rightarrow> customer_event list" where
  "customer_events_of [] = []"
| "customer_events_of (OfCustomer e # des) = e # customer_events_of des"
| "customer_events_of (OfOther name at i # des) = customer_events_of des"

lemma customer_events_of_map [simp]: "customer_events_of (map OfCustomer es) = es"
  by (induction es) simp_all

text \<open>An event as the mapper writes it.\<close>

definition encodes :: "customer_event \<Rightarrow> Event \<Rightarrow> bool" where
  "encodes e ie \<longleftrightarrow> ev_Name ie = integration_name e \<and> ev_OccurredAt ie = customer_OccurredAt e \<and>
     ev_AggregateID ie = customer_AggregateID e \<and>
     ev_Payload ie = marshal_strings (case e of
        CustomerCreated i n m t \<Rightarrow> customerCreatedV1 i n m
      | CustomerEmailChanged i x y t \<Rightarrow> customerEmailChangedV1 i x y
      | CustomerDeactivated i r t \<Rightarrow> customerDeactivatedV1 i r)"

lemma mapped_encodes:
  "ToIntegrationEvent rand (OfCustomer e) w = (Return (Some ie), w') \<Longrightarrow> encodes e ie"
  by (cases e) (auto dest!: integration_base_Return simp: encodes_def integration_name_def)

text \<open>An integration event that stands for a domain event: it carries its fields, and a consumer reads them back.\<close>

definition maps_to :: "customer_event \<Rightarrow> Event \<Rightarrow> bool" where
  "maps_to e ie \<longleftrightarrow> encodes e ie \<and> read_event ie = Some (event_utf8 e)"

lemma map_events_spec:
  "map_events rand des out w = (Return res, w') \<Longrightarrow>
    \<exists>ies. res = out @ ies \<and> list_all2 maps_to (customer_events_of des) ies"
proof (induction des arbitrary: out w)
  case (Cons de des)
  obtain r w1 where t: "ToIntegrationEvent rand de w = (Return r, w1)"
    using Cons.prems by (cases "ToIntegrationEvent rand de w") (auto split: outcome.splits)
  show ?case
  proof (cases de)
    case (OfCustomer e)
    obtain ie where ie: "r = Some ie" "maps_to e ie"
      using read_event_mapped [OF t [unfolded OfCustomer]] mapped_encodes t [unfolded OfCustomer] by (fastforce simp: maps_to_def)
    with Cons.prems t have "map_events rand des (out @ [ie]) w1 = (Return res, w')" by simp
    from Cons.IH [OF this] obtain ies where "res = out @ ie # ies" "list_all2 maps_to (customer_events_of des) ies" by auto
    with ie OfCustomer show ?thesis by (intro exI [of _ "ie # ies"]) simp
  next
    case (OfOther name at i)
    with Cons t show ?thesis by auto
  qed
qed simp

lemma map_events_total:
  assumes "\<And>w. \<exists>b w'. rand w = (Inr b, w') \<and> Q w w'" "\<And>w. Q w w" "\<And>x y z. Q x y \<Longrightarrow> Q y z \<Longrightarrow> Q x z"
  shows "\<exists>res w'. map_events rand des out w = (Return res, w') \<and> Q w w'"
proof (induction des arbitrary: out w)
  case Nil
  then show ?case using assms(2) by simp
next
  case (Cons de des)
  obtain b w1 where b: "rand w = (Inr b, w1)" "Q w w1" using assms(1) by blast
  have "\<exists>r w1. ToIntegrationEvent rand de w = (Return r, w1) \<and> Q w w1"
  proof (cases de)
    case (OfCustomer e)
    then show ?thesis using b by (cases e) (simp_all add: integration_base_def New_def)
  qed (use assms(2) in simp)
  then obtain r w2 where r: "ToIntegrationEvent rand de w = (Return r, w2)" "Q w w2" by blast
  obtain res w' where m: "map_events rand des (case r of None \<Rightarrow> out | Some ie \<Rightarrow> out @ [ie]) w2 = (Return res, w')" "Q w2 w'"
    using Cons by blast
  have "Q w w'" using assms(3) [OF r(2) m(2)] .
  with r(1) m(1) show ?case by (cases r) simp_all
qed

text \<open>The dispatcher forwards the context's events all at once, in order, one
  integration event for each, drops the events of other contexts, and does not call the publisher when
  nothing is left; its result is the publisher's.\<close>

theorem dispatcher_forwards_in_order:
  assumes "Dispatcher_Publish rand pub des w = (Return r, w')"
  shows "\<exists>ies w1. list_all2 maps_to (customer_events_of des) ies \<and>
    (if ies = [] then r = None \<and> w' = w1 else pub ies w1 = (Return r, w'))"
proof (cases "des = []")
  case True
  then show ?thesis using assms by (auto simp: Dispatcher_Publish_def)
next
  case False
  then obtain out w1 where m: "map_events rand des [] w = (Return out, w1)"
    using assms by (cases "map_events rand des [] w") (auto simp: Dispatcher_Publish_def split: outcome.splits)
  from map_events_spec [OF m] have "list_all2 maps_to (customer_events_of des) out" by simp
  then show ?thesis
    using assms m False by (intro exI [of _ out] exI [of _ w1]) (auto simp: Dispatcher_Publish_def split: if_splits)
qed

theorem dispatcher_forwards_in_order_witness:
  "\<exists>ies. list_all2 maps_to [CustomerDeactivated ''c-1'' ''x'' 9] ies \<and> length ies = 1 \<and>
     Dispatcher_Publish demo_rand (\<lambda>es w. (Return None, w @ map ev_Name es))
       [OfOther ''order.placed'' 3 ''o-1'', OfCustomer (CustomerDeactivated ''c-1'' ''x'' 9)] [] =
     (Return None, [''customer.v1.deactivated''])"
proof -
  have d: "Dispatcher_Publish demo_rand (\<lambda>es w. (Return None, w @ map ev_Name es))
       [OfOther ''order.placed'' 3 ''o-1'', OfCustomer (CustomerDeactivated ''c-1'' ''x'' 9)] [] =
     (Return None, [''customer.v1.deactivated''])"
    by (simp add: Dispatcher_Publish_def integration_base_def New_def demo_rand_def event_names)
  from dispatcher_forwards_in_order [OF d] obtain ies where "list_all2 maps_to [CustomerDeactivated ''c-1'' ''x'' 9] ies"
    by auto
  with d list_all2_lengthD [OF this] show ?thesis by (metis length_Cons list.size(3) One_nat_def)
qed

end
