(* ===== verification/UnitOfWork.thy ===== *)
theory UnitOfWork
  imports EventBus
begin

text \<open>
  Units of work (\<open>internal/shared/application/unit_of_work.go\<close> and
  \<open>internal/shared/infrastructure/transaction\<close>). The port is a locale: what its promise means is that the
  committed state is the one \<open>fn\<close> reached when it returned nil and is untouched otherwise. \<open>Noop\<close>
  runs \<open>fn\<close> directly. \<open>SQL\<close> runs it between \<open>BeginTx\<close> and \<open>Commit\<close> or
  \<open>Rollback\<close> of \<open>database/sql\<close>, whose driver and server are not part of the
  repository: they are a parameter, with the transactional behaviour SQL documents as hypotheses.
\<close>

type_synonym 'w body = "(gerr option, 'w) action"

definition Noop_Within :: "'w body \<Rightarrow> 'w body" where
  "Noop_Within fn = fn"

text \<open>
  The connection as \<open>SQL\<close> sees it. A body that \<open>Within\<close> runs acts on the world with a transaction
  open; \<open>WithTx\<close> and \<open>FromContext\<close> tell the repositories so.
\<close>

record 'w DB =
  db_BeginTx :: "'w \<Rightarrow> gerr option \<times> 'w"
  db_Rollback :: "'w \<Rightarrow> gerr option \<times> 'w"
  db_Commit :: "'w \<Rightarrow> gerr option \<times> 'w"

definition SQL_Within :: "'w DB \<Rightarrow> 'w body \<Rightarrow> 'w body" where
  "SQL_Within db fn w =
    (case db_BeginTx db w of
      (Some err, w1) \<Rightarrow> (Return (Some err), w1)
    | (None, w1) \<Rightarrow>
        (case fn w1 of
          (Panic p, w2) \<Rightarrow> (Panic p, snd (db_Rollback db w2))
        | (Return (Some err), w2) \<Rightarrow>
            (case db_Rollback db w2 of
              (Some rbErr, w3) \<Rightarrow> (Return (Some rbErr), w3)
            | (None, w3) \<Rightarrow> (Return (Some err), w3))
        | (Return None, w2) \<Rightarrow>
            (case db_Commit db w2 of (r, w3) \<Rightarrow> (Return r, w3))))"

text \<open>
  The context a body receives: \<open>WithTx\<close> adds a transaction under the package's private key,
  \<open>FromContext\<close> finds the innermost one. A context is the list of values added to it.
\<close>

datatype ('k, 'tx) ctx_value = CtxTx 'tx | CtxOther 'k

definition WithTx :: "('k, 'tx) ctx_value list \<Rightarrow> 'tx \<Rightarrow> ('k, 'tx) ctx_value list" where
  "WithTx ctx tx = CtxTx tx # ctx"

fun FromContext :: "('k, 'tx) ctx_value list \<Rightarrow> 'tx option" where
  "FromContext [] = None"
| "FromContext (CtxTx tx # ctx) = Some tx"
| "FromContext (CtxOther k # ctx) = FromContext ctx"

lemma FromContext_WithTx: "FromContext (WithTx ctx tx) = Some tx"
  by (simp add: WithTx_def)

subsection \<open>The port\<close>

text \<open>
  \<open>committed\<close> is the state another client of the store sees; \<open>started w\<close> is the world in which the
  body runs when \<open>Within\<close> is called in \<open>w\<close>; \<open>ok\<close> are the worlds in which no unit of work is open.
\<close>

locale unit_of_work =
  fixes Within :: "'w body \<Rightarrow> 'w body"
    and committed :: "'w \<Rightarrow> 's" and working :: "'w \<Rightarrow> 's" and ok :: "'w \<Rightarrow> bool"
    and keeps :: "'w body \<Rightarrow> bool"
  assumes commit: "ok w \<Longrightarrow> keeps fn \<Longrightarrow> Within fn w = (Return None, w') \<Longrightarrow>
      \<exists>w1 w2. working w1 = committed w \<and> fn w1 = (Return None, w2) \<and> committed w' = working w2"
    and rollback: "ok w \<Longrightarrow> keeps fn \<Longrightarrow> Within fn w = (Return (Some err), w') \<Longrightarrow> committed w' = committed w"
    and rollback_panic: "ok w \<Longrightarrow> keeps fn \<Longrightarrow> Within fn w = (Panic p, w') \<Longrightarrow> committed w' = committed w"
begin

text \<open>All or nothing: the committed state either is what a complete run reached, or did not move.\<close>

lemma atomic:
  assumes "ok w" "keeps fn" "Within fn w = (r, w')"
  shows "committed w' = committed w \<or>
    (\<exists>w1 w2. working w1 = committed w \<and> fn w1 = (Return None, w2) \<and> committed w' = working w2)"
proof (cases r)
  case (Return x)
  then show ?thesis using commit [OF assms(1,2)] rollback [OF assms(1,2)] assms(3) by (cases x) blast+
next
  case (Panic p)
  then show ?thesis using rollback_panic [OF assms(1,2)] assms(3) by blast
qed

end

text \<open>
  What SQL documents of a transaction: beginning one makes the committed state the working one, a
  rollback and a failed commit leave the committed state alone, and a commit installs the working one.
\<close>

definition sql_transactions :: "'w DB \<Rightarrow> ('w \<Rightarrow> 's) \<Rightarrow> ('w \<Rightarrow> 's) \<Rightarrow> bool" where
  "sql_transactions db committed working \<longleftrightarrow>
    (\<forall>w w'. db_BeginTx db w = (None, w') \<longrightarrow> committed w' = committed w \<and> working w' = committed w) \<and>
    (\<forall>w w' e. db_BeginTx db w = (Some e, w') \<longrightarrow> committed w' = committed w) \<and>
    (\<forall>w w' r. db_Rollback db w = (r, w') \<longrightarrow> committed w' = committed w) \<and>
    (\<forall>w w'. db_Commit db w = (None, w') \<longrightarrow> committed w' = working w) \<and>
    (\<forall>w w' e. db_Commit db w = (Some e, w') \<longrightarrow> committed w' = committed w)"

text \<open>A body works inside its transaction: it does not move the committed state.\<close>

definition isolated :: "('w \<Rightarrow> 's) \<Rightarrow> 'w body \<Rightarrow> bool" where
  "isolated committed fn \<longleftrightarrow> (\<forall>w. committed (snd (fn w)) = committed w)"

lemma SQL_commit:
  assumes "sql_transactions db committed working" "SQL_Within db fn w = (Return None, w')"
  shows "\<exists>w1 w2. working w1 = committed w \<and> fn w1 = (Return None, w2) \<and> committed w' = working w2"
proof -
  obtain w1 where b: "db_BeginTx db w = (None, w1)"
    using assms(2) by (cases "db_BeginTx db w") (auto simp: SQL_Within_def split: option.splits)
  obtain w2 where f: "fn w1 = (Return None, w2)"
    using assms(2) b by (cases "fn w1") (auto simp: SQL_Within_def split: option.splits outcome.splits prod.splits)
  have "db_Commit db w2 = (None, w')"
    using assms(2) b f by (auto simp: SQL_Within_def split: prod.splits)
  with b f assms(1) show ?thesis unfolding sql_transactions_def by metis
qed

lemma SQL_abort:
  assumes "sql_transactions db committed working" "isolated committed fn" "SQL_Within db fn w = (r, w')"
    and "r \<noteq> Return None"
  shows "committed w' = committed w"
proof -
  have i: "committed w2 = committed w1" if "fn w1 = (x, w2)" for w1 x w2
    using assms(2) that by (metis isolated_def snd_conv)
  have t: "db_BeginTx db w = (x, w1) \<Longrightarrow> committed w1 = committed w" for x w w1
    using assms(1) by (cases x) (auto simp: sql_transactions_def)
  have rb: "db_Rollback db w1 = (x, w2) \<Longrightarrow> committed w2 = committed w1" for x w1 w2
    using assms(1) by (auto simp: sql_transactions_def)
  have rb': "committed (snd (db_Rollback db w1)) = committed w1" for w1
    using rb by (metis prod.collapse)
  have c: "db_Commit db w1 = (Some e, w2) \<Longrightarrow> committed w2 = committed w1" for e w1 w2
    using assms(1) by (auto simp: sql_transactions_def)
  show ?thesis
    using assms(3,4)
    by (cases r)
       (auto simp: SQL_Within_def rb' split: prod.splits option.splits outcome.splits dest!: t i rb c)
qed

interpretation sql: unit_of_work "SQL_Within db" committed working "\<lambda>w. sql_transactions db committed working" "isolated committed"
  for db :: "'w DB" and committed :: "'w \<Rightarrow> 's" and working
proof unfold_locales
  fix w w' :: 'w and fn err p
  assume a: "sql_transactions db committed working" "isolated committed fn"
  show "SQL_Within db fn w = (Return None, w') \<Longrightarrow>
      \<exists>w1 w2. working w1 = committed w \<and> fn w1 = (Return None, w2) \<and> committed w' = working w2"
    by (rule SQL_commit [OF a(1)])
  show "SQL_Within db fn w = (Return (Some err), w') \<Longrightarrow> committed w' = committed w"
    "SQL_Within db fn w = (Panic p, w') \<Longrightarrow> committed w' = committed w"
    using SQL_abort [OF a] by blast+
qed

text \<open>
  \<open>Noop\<close> keeps the promise only for bodies that write last: those that leave the state alone
  whenever they do not return nil.
\<close>

definition writes_last :: "('w \<Rightarrow> 's) \<Rightarrow> 'w body \<Rightarrow> bool" where
  "writes_last committed fn \<longleftrightarrow> (\<forall>w. fst (fn w) \<noteq> Return None \<longrightarrow> committed (snd (fn w)) = committed w)"

interpretation noop: unit_of_work Noop_Within committed committed "\<lambda>w. True" "writes_last committed"
  for committed :: "'w \<Rightarrow> 's"
  by unfold_locales (auto simp: Noop_Within_def writes_last_def, (metis fst_conv snd_conv option.distinct(1) outcome.inject outcome.distinct(1))+)

text \<open>Property C15: the SQL unit of work is all or nothing. With a driver that behaves as SQL documents,
  \<open>Within\<close> returns nil only if the body returned nil and then the committed state is the one the body
  reached from the committed state it found; when it returns an error, and when the body panics, the
  committed state is what it was.\<close>

theorem sql_unit_of_work_atomic:
  assumes "sql_transactions db committed working" and "isolated committed fn" and "SQL_Within db fn w = (r, w')"
  shows "(r = Return None \<longrightarrow> (\<exists>w1 w2. working w1 = committed w \<and> fn w1 = (Return None, w2) \<and> committed w' = working w2)) \<and>
    (r \<noteq> Return None \<longrightarrow> committed w' = committed w)"
  using SQL_commit [OF assms(1)] SQL_abort [OF assms(1,2)] assms(3) by blast

text \<open>A database with one transaction at a time over a pair of a committed and a working value.\<close>

definition demo_db :: "('s \<times> 's) DB" where
  "demo_db = \<lparr>db_BeginTx = \<lambda>(c, t). (None, (c, c)), db_Rollback = \<lambda>(c, t). (None, (c, c)),
     db_Commit = \<lambda>(c, t). (None, (t, t))\<rparr>"

theorem sql_unit_of_work_atomic_witness:
  "fst (snd (SQL_Within demo_db (\<lambda>(c, t). (Return (Some ErrConflict), (c, t + 1))) (5 :: nat, 0))) = 5 \<and>
   fst (snd (SQL_Within demo_db (\<lambda>(c, t). (Return None, (c, t + 1))) (5 :: nat, 0))) = 6"
proof -
  have d: "sql_transactions (demo_db :: (nat \<times> nat) DB) fst snd"
    by (auto simp: sql_transactions_def demo_db_def)
  have i: "isolated fst (\<lambda>(c :: nat, t :: nat). (Return r, (c, t + 1)))" for r :: "gerr option"
    by (auto simp: isolated_def)
  obtain w' where w': "SQL_Within demo_db (\<lambda>(c, t). (Return (Some ErrConflict), (c, t + 1))) (5 :: nat, 0) = (Return (Some ErrConflict), w')"
    by (simp add: SQL_Within_def demo_db_def)
  have "fst w' = 5" using sql_unit_of_work_atomic [OF d i w'] by simp
  then show ?thesis unfolding w' by (simp add: SQL_Within_def demo_db_def)
qed

end
