(* ===== verification/CustomerCommands.thy ===== *)
theory CustomerCommands
  imports CustomerMessaging UnitOfWork
begin

text \<open>
  The command handlers of the customer context (\<open>internal/customer/application/commands\<close>), over a
  record of the ports they are given, and their behaviour on the default wiring: the in-memory repository, the
  outbox behind the dispatcher and the \<open>Noop\<close> unit of work.
\<close>

record 'w Deps =
  dep_FindByID :: "CustomerID \<Rightarrow> (Customer result, 'w) action"
  dep_Save :: "Customer \<Rightarrow> (gerr option, 'w) action"
  dep_ExistsByEmail :: "Email \<Rightarrow> (bool result, 'w) action"
  dep_Within :: "'w body \<Rightarrow> 'w body"
  dep_Publish :: "DomainEvent list \<Rightarrow> (gerr option, 'w) action"
  dep_Now :: "'w \<Rightarrow> gotime \<times> 'w"
  dep_NewID :: "(string, 'w) action"

text \<open>\<open>Uniqueness.EnsureAvailable\<close> over the repository of the dependency set.\<close>

definition Deps_EnsureAvailable :: "'w Deps \<Rightarrow> Email \<Rightarrow> (gerr option, 'w) action" where
  "Deps_EnsureAvailable d email w =
    (case dep_ExistsByEmail d email w of
      (Panic p, w') \<Rightarrow> (Panic p, w')
    | (Return taken, w') \<Rightarrow> (Return (EnsureAvailable (\<lambda>_ _. taken) email w'), w'))"

record CreateCustomer =
  create_Name :: string
  create_Email :: string

record CreateCustomerResult =
  created_CustomerID :: string

record ChangeCustomerEmail =
  change_CustomerID :: string
  change_NewEmail :: string

text \<open>The closures the handlers run inside the unit of work.\<close>

definition create_body :: "'w Deps \<Rightarrow> CustomerID \<Rightarrow> string \<Rightarrow> Email \<Rightarrow> 'w body" where
  "create_body d i name email w =
    (case Deps_EnsureAvailable d email w of
      (Panic p, w1) \<Rightarrow> (Panic p, w1)
    | (Return (Some err), w1) \<Rightarrow> (Return (Some err), w1)
    | (Return None, w1) \<Rightarrow>
        (let (now, w2) = dep_Now d w1 in
         case NewCustomer i name email now of
           Inl err \<Rightarrow> (Return (Some err), w2)
         | Inr customer \<Rightarrow>
             (case dep_Save d customer w2 of
               (Panic p, w3) \<Rightarrow> (Panic p, w3)
             | (Return (Some err), w3) \<Rightarrow> (Return (Some err), w3)
             | (Return None, w3) \<Rightarrow> dep_Publish d (map OfCustomer (fst (PullEvents customer))) w3)))"

definition CreateCustomer_Handle :: "(nat \<Rightarrow> nat) \<Rightarrow> 'w Deps \<Rightarrow> CreateCustomer \<Rightarrow> (CreateCustomerResult result, 'w) action" where
  "CreateCustomer_Handle ul d cmd w =
    (case NewEmail ul (create_Email cmd) of
      Inl err \<Rightarrow> (Return (Inl err), w)
    | Inr email \<Rightarrow>
        (case dep_NewID d w of
          (Panic p, w1) \<Rightarrow> (Panic p, w1)
        | (Return v, w1) \<Rightarrow>
            (case NewCustomerID v of
              Inl err \<Rightarrow> (Return (Inl err), w1)
            | Inr i \<Rightarrow>
                (case dep_Within d (create_body d i (create_Name cmd) email) w1 of
                  (Panic p, w2) \<Rightarrow> (Panic p, w2)
                | (Return (Some err), w2) \<Rightarrow> (Return (Inl err), w2)
                | (Return None, w2) \<Rightarrow> (Return (Inr \<lparr>created_CustomerID = CustomerID_String i\<rparr>), w2)))))"

definition change_body :: "'w Deps \<Rightarrow> CustomerID \<Rightarrow> Email \<Rightarrow> 'w body" where
  "change_body d i newEmail w =
    (case dep_FindByID d i w of
      (Panic p, w1) \<Rightarrow> (Panic p, w1)
    | (Return (Inl err), w1) \<Rightarrow> (Return (Some err), w1)
    | (Return (Inr customer), w1) \<Rightarrow>
        if Email_Equals (c_email customer) newEmail then (Return None, w1)
        else
          (case Deps_EnsureAvailable d newEmail w1 of
            (Panic p, w2) \<Rightarrow> (Panic p, w2)
          | (Return (Some err), w2) \<Rightarrow> (Return (Some err), w2)
          | (Return None, w2) \<Rightarrow>
              (let (now, w3) = dep_Now d w2 in
               case ChangeEmail newEmail now customer of
                 (Some err, c) \<Rightarrow> (Return (Some err), w3)
               | (None, c) \<Rightarrow>
                   (case dep_Save d c w3 of
                     (Panic p, w4) \<Rightarrow> (Panic p, w4)
                   | (Return (Some err), w4) \<Rightarrow> (Return (Some err), w4)
                   | (Return None, w4) \<Rightarrow> dep_Publish d (map OfCustomer (fst (PullEvents c))) w4))))"

definition ChangeCustomerEmail_Handle :: "(nat \<Rightarrow> nat) \<Rightarrow> 'w Deps \<Rightarrow> ChangeCustomerEmail \<Rightarrow> (gerr option, 'w) action" where
  "ChangeCustomerEmail_Handle ul d cmd w =
    (case NewCustomerID (change_CustomerID cmd) of
      Inl err \<Rightarrow> (Return (Some err), w)
    | Inr i \<Rightarrow>
        (case NewEmail ul (change_NewEmail cmd) of
          Inl err \<Rightarrow> (Return (Some err), w)
        | Inr newEmail \<Rightarrow> dep_Within d (change_body d i newEmail) w))"

subsection \<open>The in-memory wiring\<close>

text \<open>
  The world of the default wiring: the repository, the outbox, and the rest, on which the clock, the
  entropy source and the logger act.
\<close>

type_synonym 'x memory = "MemRepository \<times> MemoryStore \<times> 'x"

definition rand_beside :: "'x entropy \<Rightarrow> ('s \<times> 'x) entropy" where
  "rand_beside rand sx = (fst (rand (snd sx)), (fst sx, snd (rand (snd sx))))"

definition memory_deps :: "'x env \<Rightarrow> 'x entropy \<Rightarrow> (nat \<Rightarrow> nat) \<Rightarrow> 'x memory Deps" where
  "memory_deps env rand ul =
    \<lparr>dep_FindByID = \<lambda>i w. (Return (mem_FindByID ul i (fst w)), w),
     dep_Save = \<lambda>c w. (Return (fst (mem_Save c (fst w))), (snd (mem_Save c (fst w)), snd w)),
     dep_ExistsByEmail = \<lambda>e w. (Return (mem_ExistsByEmail e (fst w)), w),
     dep_Within = Noop_Within,
     dep_Publish = \<lambda>des. beside (Dispatcher_Publish (rand_beside rand) (Publisher_Publish (MemoryStore_ops env)) des),
     dep_Now = System_Now (env_beside (env_beside env)),
     dep_NewID = UUID_NewID (rand_beside (rand_beside rand))\<rparr>"

text \<open>The entropy source gives sixteen bytes whenever it is read.\<close>

definition rand_ok :: "'x entropy \<Rightarrow> bool" where
  "rand_ok rand \<longleftrightarrow> (\<forall>x. \<exists>b x'. rand x = (Inr b, x') \<and> length b = 16)"

lemma rand_okE: "rand_ok rand \<Longrightarrow> (\<And>b x'. rand x = (Inr b, x') \<Longrightarrow> length b = 16 \<Longrightarrow> P) \<Longrightarrow> P"
  by (auto simp: rand_ok_def)

lemma NewCustomerID_uuid: "length b = 16 \<Longrightarrow> NewCustomerID (uuid_text b) = Inr (CustomerID (uuid_text b))"
  by (auto simp: NewCustomerID_def uuid_text_def Let_def)

text \<open>
  What becomes of the rest of the state when only the clock is read and identifiers are drawn, in this order, from the
  entropy source.
\<close>

inductive evolves :: "'x env \<Rightarrow> 'x entropy \<Rightarrow> string list \<Rightarrow> 'x \<Rightarrow> 'x \<Rightarrow> bool" for env rand where
  stay: "evolves env rand [] x x"
| clock: "evolves env rand js x y \<Longrightarrow> evolves env rand js x (snd (clock_now env y))"
| draw: "evolves env rand js x y \<Longrightarrow> rand y = (Inr b, z) \<Longrightarrow> length b = 16 \<Longrightarrow> evolves env rand (js @ [uuid_text b]) x z"

lemma evolves_trans: "evolves env rand ks y z \<Longrightarrow> evolves env rand js x y \<Longrightarrow> evolves env rand (js @ ks) x z"
proof (induction rule: evolves.induct)
  case (draw ks y z b z')
  then show ?case using evolves.draw [of env rand "js @ ks" x z b z'] by simp
qed (auto intro: evolves.clock)

lemma evolves_one: "evolves env rand [] x (snd (clock_now env x))" "rand x = (Inr b, z) \<Longrightarrow> length b = 16 \<Longrightarrow> evolves env rand [uuid_text b] x z"
  using evolves.clock [OF evolves.stay] evolves.draw [OF evolves.stay] by fastforce+

definition reads_clock :: "'x env \<Rightarrow> gotime \<Rightarrow> bool" where
  "reads_clock env t \<longleftrightarrow> (\<exists>x. t = fst (clock_now env x))"

lemma New_memory:
  "rand_ok rand \<Longrightarrow> \<exists>b x'. UUID_NewID (rand_beside (rand_beside rand)) (r, s, x) = (Return (uuid_text b), (r, s, x')) \<and> length b = 16 \<and>
    evolves env rand [uuid_text b] x x'"
  by (erule rand_okE [of rand x]) (auto simp: UUID_NewID_def New_def rand_beside_def intro: evolves_one(2))

lemma Add_evolves: "MemoryStore_Add env es sx = (res, sx') \<Longrightarrow> evolves env rand [] (snd sx) (snd sx')"
proof (induction env es sx rule: MemoryStore_Add.induct)
  case (2 env e es s x)
  obtain now x1 where c: "clock_now env x = (now, x1)" by (rule prod.exhaust)
  show ?case
  proof (cases "ob_byID s (ev_ID e)")
    case None
    then have "evolves env rand [] x1 (snd sx')" using "2.IH" "2.prems" c by (simp add: Let_def)
    from evolves_trans [OF this evolves_one(1) [of env rand x, unfolded c snd_conv]] show ?thesis by simp
  qed (use 2 in simp)
qed (auto intro: evolves.stay)

lemma map_events_draws:
  assumes "rand_ok rand" "map_events (rand_beside rand) (map OfCustomer es) out (s, x) = (Return res, sx')"
  shows "\<exists>ies. res = out @ ies \<and> fst sx' = s \<and> evolves env rand (map ev_ID ies) x (snd sx')"
  using assms(2)
proof (induction es arbitrary: out x)
  case Nil
  then show ?case by (auto intro: evolves.stay)
next
  case (Cons e es)
  obtain b x1 where b: "rand x = (Inr b, x1)" "length b = 16" by (rule rand_okE [OF assms(1)])
  obtain ie where "ToIntegrationEvent (rand_beside rand) (OfCustomer e) (s, x) = (Return (Some ie), (s, x1))" "ev_ID ie = uuid_text b"
    using b by (cases e) (simp_all add: integration_base_def New_def rand_beside_def)
  with Cons.prems Cons.IH [of "out @ [ie]" x1] obtain ies where
    "res = out @ ie # ies" "fst sx' = s" "evolves env rand (map ev_ID ies) x1 (snd sx')" by auto
  moreover from this(3) have "evolves env rand ([uuid_text b] @ map ev_ID ies) x (snd sx')"
    by (rule evolves_trans) (rule evolves_one(2) [where env = env and rand = rand, OF b])
  ultimately show ?case using \<open>ev_ID ie = uuid_text b\<close> by (intro exI [of _ "ie # ies"]) simp
qed

lemma dispatch_memory:
  assumes "rand_ok rand" "store_inv s"
  shows "\<exists>ies s' x'. Dispatcher_Publish (rand_beside rand) (Publisher_Publish (MemoryStore_ops env)) (map OfCustomer es) (s, x) =
      (Return None, (s', x')) \<and> list_all2 maps_to es ies \<and> store_inv s' \<and> store_rows s' = add_rows ies (store_rows s) \<and>
      evolves env rand (map ev_ID ies) x x'"
proof (cases "es = []")
  case True
  then show ?thesis using assms(2) by (auto simp: Dispatcher_Publish_def intro: evolves.stay)
next
  case False
  have "\<exists>b w'. rand_beside rand w = (Inr b, w') \<and> fst w = fst w'" for w :: "MemoryStore \<times> 'a"
    by (rule rand_okE [OF assms(1), of "snd w"]) (simp add: rand_beside_def)
  from map_events_total [of "rand_beside rand" "\<lambda>w w'. fst w = fst w'", OF this]
  obtain ies w' where m: "map_events (rand_beside rand) (map OfCustomer es) [] (s, x) = (Return ies, w')" "s = fst w'"
    by fastforce
  then have ies: "list_all2 maps_to es ies" using map_events_spec [OF m(1)] by simp
  then have ne: "ies \<noteq> []" using False by (auto dest: list_all2_lengthD)
  obtain w2 where p: "Publisher_Publish (MemoryStore_ops env) ies w' = (Return None, w2)" "store_inv (fst w2)"
    "store_rows (fst w2) = add_rows ies (store_rows s)"
    using memory_store.publisher_total [of w' env ies] assms(2) m(2) by auto
  have "MemoryStore_Add env ies w' = (Return None, w2)" using p(1) ne by (simp add: Publisher_Publish_def MemoryStore_ops_def)
  from evolves_trans [OF Add_evolves [OF this, of rand]] map_events_draws [OF assms(1) m(1), of env]
  have "evolves env rand (map ev_ID ies) x (snd w2)" by fastforce
  then show ?thesis
    using m ies ne p False by (intro exI [of _ ies] exI [of _ "fst w2"] exI [of _ "snd w2"]) (simp add: Dispatcher_Publish_def)
qed

lemma mem_Save_None: "fst (mem_Save c r) = None \<Longrightarrow> mem_Save c r = (None, snd (mem_Save c r))"
  and mem_Save_Some: "fst (mem_Save c r) = Some err \<Longrightarrow> mem_Save c r = (Some err, r) \<and> err = ErrConflict"
  by (auto simp: mem_Save_def Let_def split: if_splits)

lemma mem_Save_refuses:
  "byID r (CustomerID_String (c_id c)) = so \<Longrightarrow>
    fst (mem_Save c r) = (case so of None \<Rightarrow> None | Some sn \<Rightarrow> if snap_Version sn > c_version c then Some ErrConflict else None)"
  by (auto simp: mem_Save_def Let_def ToSnapshot_def split: option.splits)

text \<open>The answers that the two commands owe their caller, decided by the stored rows alone, once the address and the
  identifier are valid.\<close>

definition create_answer :: "rows \<Rightarrow> string \<Rightarrow> string \<Rightarrow> Email \<Rightarrow> gerr option" where
  "create_answer m i name e =
    (if email_taken m (Email_String e) then Some ErrConflict
     else case validateName name of
       Some err \<Rightarrow> Some err
     | None \<Rightarrow> (case m i of None \<Rightarrow> None | Some sn \<Rightarrow> if snap_Version sn > 1 then Some ErrConflict else None))"

definition change_answer :: "(nat \<Rightarrow> nat) \<Rightarrow> MemRepository \<Rightarrow> CustomerID \<Rightarrow> Email \<Rightarrow> gerr option" where
  "change_answer ul r i e =
    (case mem_FindByID ul i r of
      Inl err \<Rightarrow> Some err
    | Inr c \<Rightarrow>
        if c_email c = e then None
        else if email_taken (byID r) (Email_String e) \<or> c_status c = StatusDeactivated \<or> c_version c > wrap64 (c_version c + 1)
        then Some ErrConflict else None)"

lemma EnsureAvailable_memory:
  "mem_inv r \<Longrightarrow> EnsureAvailable (\<lambda>_ _. mem_ExistsByEmail e r) e w =
    (if email_taken (byID r) (Email_String e) then Some ErrConflict else None)"
  using mem.exists_row [of r e] by (auto simp: EnsureAvailable_def mem_ExistsByEmail_def)

lemma create_body_memory:
  fixes env :: "'x env"
  assumes "rand_ok rand" "mem_inv r" "store_inv s"
  shows "\<exists>res r' s' x' t. create_body (memory_deps env rand ul) i name e (r, s, x) = (Return res, (r', s', x')) \<and>
    (\<not> CustomerID_IsZero i \<longrightarrow> res = create_answer (byID r) (CustomerID_String i) name e) \<and>
    (case res of
      Some err \<Rightarrow> r' = r \<and> s' = s \<and> (errors_Is err ErrValidation \<or> err = ErrConflict) \<and>
        (email_taken (byID r) (Email_String e) \<longrightarrow> err = ErrConflict) \<and> evolves env rand [] x x'
    | None \<Rightarrow> \<not> email_taken (byID r) (Email_String e) \<and>
        (\<exists>c ie. NewCustomer i name e t = Inr c \<and> mem_Save c r = (None, r') \<and> store_inv s' \<and>
          maps_to (CustomerCreated (CustomerID_String i) name (Email_String e) t) ie \<and>
          store_rows s' = add_rows [ie] (store_rows s) \<and> evolves env rand [ev_ID ie] x x' \<and> reads_clock env t))"
proof -
  let ?d = "memory_deps env rand ul"
  obtain t x1 where now: "clock_now env x = (t, x1)" by (cases "clock_now env x")
  have ev1: "evolves env rand [] x x1" "evolves env rand [] x x" "reads_clock env t"
    using evolves_one(1) [of env rand x] now evolves.stay by (auto simp: reads_clock_def intro: exI [of _ x])
  have w: "System_Now (env_beside (env_beside env)) (r, s, x) = (t, (r, s, x1))"
    by (simp add: System_Now_def env_beside_def now)
  have avail: "Deps_EnsureAvailable ?d e (r, s, x) =
      (Return (if email_taken (byID r) (Email_String e) then Some ErrConflict else None), (r, s, x))"
    by (simp add: Deps_EnsureAvailable_def memory_deps_def EnsureAvailable_memory [OF assms(2)])
  show ?thesis
  proof (cases "email_taken (byID r) (Email_String e)")
    case True
    then show ?thesis using ev1 by (simp add: create_body_def avail create_answer_def)
  next
    case free: False
    show ?thesis
    proof (cases "NewCustomer i name e t")
      case (Inl err)
      then show ?thesis using free ev1 NewCustomer_error [OF Inl]
        by (simp add: create_body_def avail) (auto simp: memory_deps_def w create_answer_def NewCustomer_def Let_def split: option.splits if_splits)
    next
      case (Inr c)
      have ans: "create_answer (byID r) (CustomerID_String i) name e = fst (mem_Save c r)"
        using free NewCustomer_Inr [OF Inr] by (simp add: create_answer_def mem_Save_refuses split: option.split)
      show ?thesis
      proof (cases "fst (mem_Save c r)")
        case (Some err)
        then show ?thesis using free ev1 Inr mem_Save_Some [OF Some] ans
          by (simp add: create_body_def avail) (simp add: memory_deps_def w)
      next
        case None
        have ev: "fst (PullEvents c) = [CustomerCreated (CustomerID_String i) name (Email_String e) t]"
          using NewCustomer_Inr [OF Inr] by (simp add: PullEvents_def)
        obtain ies s' x' where p: "Dispatcher_Publish (rand_beside rand) (Publisher_Publish (MemoryStore_ops env))
            (map OfCustomer (fst (PullEvents c))) (s, x1) = (Return None, (s', x'))"
          "list_all2 maps_to (fst (PullEvents c)) ies" "store_inv s'" "store_rows s' = add_rows ies (store_rows s)"
          "evolves env rand (map ev_ID ies) x1 x'"
          using dispatch_memory [OF assms(1,3), of env "fst (PullEvents c)" x1] by blast
        obtain ie where ie: "ies = [ie]" "maps_to (CustomerCreated (CustomerID_String i) name (Email_String e) t) ie"
          using p(2) unfolding ev by (auto simp: list_all2_Cons1)
        have "evolves env rand [ev_ID ie] x x'" using evolves_trans [OF p(5) ev1(1)] ie(1) by simp
        moreover have "create_body ?d i name e (r, s, x) = (Return None, (snd (mem_Save c r), s', x'))"
          using free Inr None p(1) by (simp add: create_body_def avail) (simp add: memory_deps_def w beside_def)
        ultimately show ?thesis
          using free Inr None p ie ev1(3) mem_Save_None [OF None] ans
          by (intro exI [of _ None] exI [of _ "snd (mem_Save c r)"] exI [of _ s'] exI [of _ x'] exI [of _ t]) auto
      qed
    qed
  qed
qed

lemma create_customer_memory:
  fixes env :: "'x env"
  assumes "rand_ok rand" "mem_inv r" "store_inv s"
  shows "\<exists>res r' s' x' t. CreateCustomer_Handle ul (memory_deps env rand ul) cmd (r, s, x) = (Return res, (r', s', x')) \<and>
    (case res of
      Inl err \<Rightarrow> r' = r \<and> s' = s \<and> (errors_Is err ErrValidation \<or> err = ErrConflict) \<and>
        (\<forall>e. NewEmail ul (create_Email cmd) = Inr e \<and> email_taken (byID r) (Email_String e) \<longrightarrow> err = ErrConflict) \<and>
        (\<exists>js. length js \<le> 1 \<and> evolves env rand js x x') \<and>
        (case NewEmail ul (create_Email cmd) of
           Inl e \<Rightarrow> err = e
         | Inr e \<Rightarrow> \<exists>i. evolves env rand [i] x x' \<and> create_answer (byID r) i (create_Name cmd) e = Some err)
    | Inr result \<Rightarrow> mem_inv r' \<and> unique_emails (byID r') \<and> store_inv s' \<and>
        (\<exists>e c ie. NewEmail ul (create_Email cmd) = Inr e \<and> \<not> email_taken (byID r) (Email_String e) \<and>
          NewCustomer (CustomerID (created_CustomerID result)) (create_Name cmd) e t = Inr c \<and>
          byID r' = (byID r)(created_CustomerID result \<mapsto> ToSnapshot c) \<and>
          maps_to (CustomerCreated (created_CustomerID result) (create_Name cmd) (Email_String e) t) ie \<and>
          store_rows s' = add_rows [ie] (store_rows s) \<and>
          evolves env rand [created_CustomerID result, ev_ID ie] x x' \<and> reads_clock env t))"
proof (cases "NewEmail ul (create_Email cmd)")
  case (Inl err)
  then show ?thesis using NewEmail_error [OF Inl] evolves.stay [of env rand x] by (auto simp: CreateCustomer_Handle_def intro!: exI [of _ "[]"])
next
  case (Inr e)
  let ?d = "memory_deps env rand ul"
  obtain b x1 where b: "dep_NewID ?d (r, s, x) = (Return (uuid_text b), (r, s, x1))" "length b = 16"
    "evolves env rand [uuid_text b] x x1"
    using New_memory [OF assms(1), of r s x env] by (auto simp: memory_deps_def)
  let ?i = "CustomerID (uuid_text b)"
  obtain res r' s' x' t where c: "create_body ?d ?i (create_Name cmd) e (r, s, x1) = (Return res, (r', s', x'))"
    and ans: "\<not> CustomerID_IsZero ?i \<longrightarrow> res = create_answer (byID r) (CustomerID_String ?i) (create_Name cmd) e"
    and spec: "case res of
      Some err \<Rightarrow> r' = r \<and> s' = s \<and> (errors_Is err ErrValidation \<or> err = ErrConflict) \<and>
        (email_taken (byID r) (Email_String e) \<longrightarrow> err = ErrConflict) \<and> evolves env rand [] x1 x'
    | None \<Rightarrow> \<not> email_taken (byID r) (Email_String e) \<and>
        (\<exists>c ie. NewCustomer ?i (create_Name cmd) e t = Inr c \<and> mem_Save c r = (None, r') \<and> store_inv s' \<and>
          maps_to (CustomerCreated (CustomerID_String ?i) (create_Name cmd) (Email_String e) t) ie \<and>
          store_rows s' = add_rows [ie] (store_rows s) \<and> evolves env rand [ev_ID ie] x1 x' \<and> reads_clock env t)"
    using create_body_memory [OF assms, of env ul ?i "create_Name cmd" e x1] by blast
  have h: "CreateCustomer_Handle ul ?d cmd (r, s, x) =
      (Return (case res of Some err \<Rightarrow> Inl err | None \<Rightarrow> Inr \<lparr>created_CustomerID = uuid_text b\<rparr>), (r', s', x'))"
    using b c Inr NewCustomerID_uuid [OF b(2)]
    by (simp add: CreateCustomer_Handle_def) (simp add: memory_deps_def Noop_Within_def split: option.split)
  show ?thesis
  proof (cases res)
    case (Some err)
    then have "evolves env rand ([uuid_text b] @ []) x x'" using evolves_trans [OF _ b(3)] spec by simp
    moreover have "create_answer (byID r) (uuid_text b) (create_Name cmd) e = Some err"
      using ans Some NewCustomerID_uuid [OF b(2)] by (auto simp: NewCustomerID_def CustomerID_IsZero_def split: if_splits)
    ultimately show ?thesis using h spec Inr Some by (auto intro: exI [of _ "[uuid_text b]"])
  next
    case None
    with spec obtain cu ie where k: "\<not> email_taken (byID r) (Email_String e)" "NewCustomer ?i (create_Name cmd) e t = Inr cu"
      "mem_Save cu r = (None, r')" "store_inv s'"
      "maps_to (CustomerCreated (uuid_text b) (create_Name cmd) (Email_String e) t) ie"
      "store_rows s' = add_rows [ie] (store_rows s)" "evolves env rand [ev_ID ie] x1 x'" "reads_clock env t" by auto
    have ev: "evolves env rand [uuid_text b, ev_ID ie] x x'" using evolves_trans [OF k(7) b(3)] by simp
    have f: "email_free_for (byID r) (CustomerID_String (c_id cu)) (Email_String (c_email cu))"
      using k(1) NewCustomer_Inr [OF k(2)] by (auto simp: email_free_for_def email_taken_def)
    have "mem_inv r'" using mem_Save_inv [OF assms(2) f] k(3) by simp
    moreover have "byID r' = (byID r)(uuid_text b \<mapsto> ToSnapshot cu)"
      using mem_Save_byID [OF k(3)] NewCustomer_Inr [OF k(2)] by simp
    ultimately show ?thesis using h k ev None Inr mem_inv_unique [of r'] by auto
  qed
qed

text \<open>Property C5: what \<open>CreateCustomer\<close> does on the default wiring, on every path. It always returns.
  On success the address was valid and free, the customer \<open>NewCustomer\<close> builds is the one stored, under the
  identifier the caller is given, exactly one event describing it is added to the outbox, and
  addresses are still unique; two identifiers were drawn, the customer's and then the event's, and the time is the
  clock's. On failure, a validation error or \<open>ErrConflict\<close>, the repository and
  the outbox are untouched and at most one identifier was drawn; the error is the one of the address when that is not valid, and otherwise the
  answer \<open>create_answer\<close> gives for the rows that were stored: \<open>ErrConflict\<close> for a taken address, else the error of the name, else
  \<open>ErrConflict\<close> because the identifier that was drawn belongs to a changed customer.\<close>

theorem create_customer_effect:
  fixes env :: "'x env"
  assumes "rand_ok rand" "mem_inv r" "store_inv s"
  shows "\<exists>res r' s' x' t. CreateCustomer_Handle ul (memory_deps env rand ul) cmd (r, s, x) = (Return res, (r', s', x')) \<and>
    (case res of
      Inl err \<Rightarrow> r' = r \<and> s' = s \<and> (errors_Is err ErrValidation \<or> err = ErrConflict) \<and>
        (\<forall>e. NewEmail ul (create_Email cmd) = Inr e \<and> email_taken (byID r) (Email_String e) \<longrightarrow> err = ErrConflict) \<and>
        (\<exists>js. length js \<le> 1 \<and> evolves env rand js x x') \<and>
        (case NewEmail ul (create_Email cmd) of
           Inl e \<Rightarrow> err = e
         | Inr e \<Rightarrow> \<exists>i. evolves env rand [i] x x' \<and> create_answer (byID r) i (create_Name cmd) e = Some err)
    | Inr result \<Rightarrow> mem_inv r' \<and> unique_emails (byID r') \<and> store_inv s' \<and>
        (\<exists>e c ie. NewEmail ul (create_Email cmd) = Inr e \<and> \<not> email_taken (byID r) (Email_String e) \<and>
          NewCustomer (CustomerID (created_CustomerID result)) (create_Name cmd) e t = Inr c \<and>
          byID r' = (byID r)(created_CustomerID result \<mapsto> ToSnapshot c) \<and>
          maps_to (CustomerCreated (created_CustomerID result) (create_Name cmd) (Email_String e) t) ie \<and>
          store_rows s' = add_rows [ie] (store_rows s) \<and>
          evolves env rand [created_CustomerID result, ev_ID ie] x x' \<and> reads_clock env t))"
  by (rule create_customer_memory [OF assms])


text \<open>A repository and an outbox with one customer, for the witnesses.\<close>

lemma demo_rand_ok: "rand_ok demo_rand"
  by (simp add: rand_ok_def demo_rand_def demo_bytes_def)

theorem create_customer_effect_witness:
  "\<exists>r' s' x'. CreateCustomer_Handle (\<lambda>r. r) (memory_deps demo_env demo_rand (\<lambda>r. r))
      \<lparr>create_Name = ''Eve'', create_Email = ''ada@example.com''\<rparr> (ada_repo, demo_store, []) = (Return (Inl ErrConflict), (r', s', x')) \<and>
    r' = ada_repo \<and> s' = demo_store"
proof -
  have t: "email_taken (byID ada_repo) (Email_String ada_email)"
    by (auto simp: email_taken_def ada_repo_def ada_def)
  obtain res r' s' x' t where h: "CreateCustomer_Handle (\<lambda>r. r) (memory_deps demo_env demo_rand (\<lambda>r. r))
      \<lparr>create_Name = ''Eve'', create_Email = ''ada@example.com''\<rparr> (ada_repo, demo_store, []) = (Return res, (r', s', x'))"
    "case res of
      Inl err \<Rightarrow> r' = ada_repo \<and> s' = demo_store \<and> (errors_Is err ErrValidation \<or> err = ErrConflict) \<and>
        (\<forall>e. NewEmail (\<lambda>r. r) ''ada@example.com'' = Inr e \<and> email_taken (byID ada_repo) (Email_String e) \<longrightarrow> err = ErrConflict)
    | Inr result \<Rightarrow> \<exists>e. NewEmail (\<lambda>r. r) ''ada@example.com'' = Inr e \<and> \<not> email_taken (byID ada_repo) (Email_String e)"
    using create_customer_effect [OF demo_rand_ok ada_repo_inv demo_store_eval [THEN conjunct1], of "\<lambda>r. r" demo_env
        "\<lparr>create_Name = ''Eve'', create_Email = ''ada@example.com''\<rparr>" "[]"]
    by (fastforce split: sum.splits)
  then show ?thesis using t ada_email_ok [of "\<lambda>r. r"] by (cases res) auto
qed

lemma change_body_memory:
  fixes env :: "'x env"
  assumes "rand_ok rand" "mem_inv r" "store_inv s"
  shows "\<exists>res r' s' x' t. change_body (memory_deps env rand ul) i e (r, s, x) = (Return res, (r', s', x')) \<and> res = change_answer ul r i e \<and>
    (case res of
      Some err \<Rightarrow> r' = r \<and> s' = s \<and> (err = ErrConflict \<or> mem_FindByID ul i r = Inl err) \<and> evolves env rand [] x x'
    | None \<Rightarrow> \<exists>c. mem_FindByID ul i r = Inr c \<and>
        (if c_email c = e then r' = r \<and> s' = s \<and> evolves env rand [] x x'
         else c_status c \<noteq> StatusDeactivated \<and> \<not> email_taken (byID r) (Email_String e) \<and>
           (\<exists>ie. mem_Save (snd (ChangeEmail e t c)) r = (None, r') \<and> store_inv s' \<and>
             maps_to (CustomerEmailChanged (CustomerID_String i) (Email_String (c_email c)) (Email_String e) t) ie \<and>
             store_rows s' = add_rows [ie] (store_rows s) \<and> evolves env rand [ev_ID ie] x x' \<and> reads_clock env t)))"
proof -
  let ?d = "memory_deps env rand ul"
  obtain t x1 where now: "clock_now env x = (t, x1)" by (cases "clock_now env x")
  have ev1: "evolves env rand [] x x1" "evolves env rand [] x x" "reads_clock env t"
    using evolves_one(1) [of env rand x] now evolves.stay by (auto simp: reads_clock_def intro: exI [of _ x])
  have w: "System_Now (env_beside (env_beside env)) (r, s, x) = (t, (r, s, x1))"
    by (simp add: System_Now_def env_beside_def now)
  have now_eq: "dep_Now ?d (r, s, x) = (t, (r, s, x1))" using w by (simp add: memory_deps_def)
  have avail: "Deps_EnsureAvailable ?d e (r, s, x) =
      (Return (if email_taken (byID r) (Email_String e) then Some ErrConflict else None), (r, s, x))"
    by (simp add: Deps_EnsureAvailable_def memory_deps_def EnsureAvailable_memory [OF assms(2)])
  have find: "dep_FindByID ?d i (r, s, x) = (Return (mem_FindByID ul i r), (r, s, x))"
    by (simp add: memory_deps_def)
  show ?thesis
  proof (cases "mem_FindByID ul i r")
    case (Inl err)
    then show ?thesis using ev1 by (simp add: change_body_def find change_answer_def)
  next
    case (Inr c)
    then obtain sn where sn: "byID r (CustomerID_String i) = Some sn" "FromSnapshot ul sn = Inr c"
      using mem.find_Inr by blast
    have id: "c_id c = i" "root_events c = []"
      using FromSnapshot_fields [OF sn(2)] sn(1) assms(2) by (auto simp: mem_inv_def)
    have eq: "Email_Equals (c_email c) e \<longleftrightarrow> c_email c = e" by (metis Email_Equals_def Email.expand)
    show ?thesis
    proof (cases "c_email c = e \<or> email_taken (byID r) (Email_String e)")
      case True
      then show ?thesis using Inr ev1 by (auto simp: change_body_def find eq avail change_answer_def)
    next
      case free: False
      show ?thesis
      proof (cases "c_status c = StatusDeactivated")
        case True
        then show ?thesis using Inr free ev1
          by (simp add: change_body_def find eq avail) (simp add: memory_deps_def w ChangeEmail_def change_answer_def)
      next
        case active: False
        have "e \<noteq> c_email c" using free by blast
        note ch = ChangeEmail_changed [OF active this, of t]
        obtain c2 where chp: "ChangeEmail e t c = (None, c2)" using ch(1) by (cases "ChangeEmail e t c") simp
        have step: "change_body ?d i e (r, s, x) =
            (case dep_Save ?d c2 (r, s, x1) of
                (Panic p, w4) \<Rightarrow> (Panic p, w4)
               | (Return (Some err), w4) \<Rightarrow> (Return (Some err), w4)
               | (Return None, w4) \<Rightarrow> dep_Publish ?d (map OfCustomer (fst (PullEvents c2))) w4)"
          using free Inr now by (simp add: change_body_def find eq avail now_eq chp)
        have "c_version c2 = wrap64 (c_version c + 1)" "c_id c2 = i" "snap_Version sn = c_version c"
          using ch(3) chp id FromSnapshot_fields(5) [OF sn(2)] ChangeEmail_fields(1) [of e t c] by simp_all
        then have ans: "change_answer ul r i e = fst (mem_Save c2 r)"
          using free active Inr sn(1) by (simp add: change_answer_def mem_Save_refuses)
        show ?thesis
        proof (cases "fst (mem_Save c2 r)")
          case (Some err)
          then show ?thesis using Inr free ev1 mem_Save_Some [OF Some] ans unfolding step
            by (simp add: memory_deps_def)
        next
          case None
          have ev: "fst (PullEvents c2) =
              [CustomerEmailChanged (CustomerID_String i) (Email_String (c_email c)) (Email_String e) t]"
            using ch(4) id chp by (simp add: PullEvents_def)
          obtain ies s' x' where p: "Dispatcher_Publish (rand_beside rand) (Publisher_Publish (MemoryStore_ops env))
              (map OfCustomer (fst (PullEvents c2))) (s, x1) = (Return None, (s', x'))"
            "list_all2 maps_to (fst (PullEvents c2)) ies" "store_inv s'" "store_rows s' = add_rows ies (store_rows s)"
            "evolves env rand (map ev_ID ies) x1 x'"
            using dispatch_memory [OF assms(1,3), of env "fst (PullEvents c2)" x1] by blast
          obtain ie where ie: "ies = [ie]"
            "maps_to (CustomerEmailChanged (CustomerID_String i) (Email_String (c_email c)) (Email_String e) t) ie"
            using p(2) unfolding ev by (auto simp: list_all2_Cons1)
          have "evolves env rand [ev_ID ie] x x'" using evolves_trans [OF p(5) ev1(1)] ie(1) by simp
          moreover have "change_body ?d i e (r, s, x) = (Return None, (snd (mem_Save c2 r), s', x'))"
            unfolding step using None p(1) by (simp add: memory_deps_def beside_def)
          ultimately show ?thesis
            using free Inr active None p ie ev1(3) chp mem_Save_None [OF None] ans
            by (intro exI [of _ None] exI [of _ "snd (mem_Save c2 r)"] exI [of _ s'] exI [of _ x'] exI [of _ t]) auto
        qed
      qed
    qed
  qed
qed


lemma change_email_memory:
  fixes env :: "'x env"
  assumes "rand_ok rand" "mem_inv r" "store_inv s"
  shows "\<exists>res r' s' x' t. ChangeCustomerEmail_Handle ul (memory_deps env rand ul) cmd (r, s, x) = (Return res, (r', s', x')) \<and>
    res = (case NewCustomerID (change_CustomerID cmd) of
             Inl err \<Rightarrow> Some err
           | Inr i \<Rightarrow> (case NewEmail ul (change_NewEmail cmd) of Inl err \<Rightarrow> Some err | Inr e \<Rightarrow> change_answer ul r i e)) \<and>
    (case res of
      Some err \<Rightarrow> r' = r \<and> s' = s \<and>
        (errors_Is err ErrValidation \<or> err = ErrConflict \<or> mem_FindByID ul (CustomerID (change_CustomerID cmd)) r = Inl err) \<and>
        evolves env rand [] x x'
    | None \<Rightarrow> \<exists>e c. NewEmail ul (change_NewEmail cmd) = Inr e \<and>
        mem_FindByID ul (CustomerID (change_CustomerID cmd)) r = Inr c \<and>
        (if c_email c = e then r' = r \<and> s' = s \<and> evolves env rand [] x x'
         else c_status c \<noteq> StatusDeactivated \<and> \<not> email_taken (byID r) (Email_String e) \<and>
           byID r' = (byID r)(change_CustomerID cmd \<mapsto> ToSnapshot (snd (ChangeEmail e t c))) \<and>
           mem_inv r' \<and> unique_emails (byID r') \<and> store_inv s' \<and>
           (\<exists>ie. maps_to (CustomerEmailChanged (change_CustomerID cmd) (Email_String (c_email c)) (Email_String e) t) ie \<and>
             store_rows s' = add_rows [ie] (store_rows s) \<and> evolves env rand [ev_ID ie] x x' \<and> reads_clock env t)))"
proof (cases "NewCustomerID (change_CustomerID cmd)")
  case (Inl err)
  then have "errors_Is err ErrValidation" by (auto simp: NewCustomerID_def split: if_splits)
  then show ?thesis using Inl evolves.stay [of env rand x] by (simp add: ChangeCustomerEmail_Handle_def)
next
  case (Inr i)
  then have i: "i = CustomerID (change_CustomerID cmd)" by (auto simp: NewCustomerID_def split: if_splits)
  show ?thesis
  proof (cases "NewEmail ul (change_NewEmail cmd)")
    case (Inl err)
    then show ?thesis using NewEmail_error [OF Inl] Inr evolves.stay [of env rand x] by (simp add: ChangeCustomerEmail_Handle_def)
  next
    case e: (Inr e)
    have h: "ChangeCustomerEmail_Handle ul (memory_deps env rand ul) cmd (r, s, x) =
        change_body (memory_deps env rand ul) i e (r, s, x)"
      using Inr e by (simp add: ChangeCustomerEmail_Handle_def) (simp add: memory_deps_def Noop_Within_def)
    obtain res r' s' x' t where c: "change_body (memory_deps env rand ul) i e (r, s, x) = (Return res, (r', s', x'))"
      and ans: "res = change_answer ul r i e"
      and spec: "case res of
      Some err \<Rightarrow> r' = r \<and> s' = s \<and> (err = ErrConflict \<or> mem_FindByID ul i r = Inl err) \<and> evolves env rand [] x x'
    | None \<Rightarrow> \<exists>c. mem_FindByID ul i r = Inr c \<and>
        (if c_email c = e then r' = r \<and> s' = s \<and> evolves env rand [] x x'
         else c_status c \<noteq> StatusDeactivated \<and> \<not> email_taken (byID r) (Email_String e) \<and>
           (\<exists>ie. mem_Save (snd (ChangeEmail e t c)) r = (None, r') \<and> store_inv s' \<and>
             maps_to (CustomerEmailChanged (CustomerID_String i) (Email_String (c_email c)) (Email_String e) t) ie \<and>
             store_rows s' = add_rows [ie] (store_rows s) \<and> evolves env rand [ev_ID ie] x x' \<and> reads_clock env t))"
      using change_body_memory [OF assms, of env ul i e x] by blast
    show ?thesis
    proof (cases res)
      case (Some err)
      then show ?thesis using h c spec i ans Inr e by auto
    next
      case None
      with spec obtain cu where cu: "mem_FindByID ul i r = Inr cu"
        "if c_email cu = e then r' = r \<and> s' = s \<and> evolves env rand [] x x'
         else c_status cu \<noteq> StatusDeactivated \<and> \<not> email_taken (byID r) (Email_String e) \<and>
           (\<exists>ie. mem_Save (snd (ChangeEmail e t cu)) r = (None, r') \<and> store_inv s' \<and>
             maps_to (CustomerEmailChanged (CustomerID_String i) (Email_String (c_email cu)) (Email_String e) t) ie \<and>
             store_rows s' = add_rows [ie] (store_rows s) \<and> evolves env rand [ev_ID ie] x x' \<and> reads_clock env t)" by auto
      have id: "c_id cu = i"
        using mem.find_Inr [OF cu(1)] assms(2) by (auto simp: mem_inv_def dest: FromSnapshot_fields)
      have "byID r' = (byID r)(CustomerID_String i \<mapsto> ToSnapshot (snd (ChangeEmail e t cu))) \<and> mem_inv r'"
        if "c_email cu \<noteq> e"
      proof -
        have sv: "mem_Save (snd (ChangeEmail e t cu)) r = (None, r')" using cu(2) that by auto
        have "c_email (snd (ChangeEmail e t cu)) = e" using ChangeEmail_changed(2) [of cu e t] cu(2) that by auto
        then have "email_free_for (byID r) (CustomerID_String (c_id (snd (ChangeEmail e t cu))))
            (Email_String (c_email (snd (ChangeEmail e t cu))))"
          using cu(2) that by (auto simp: email_free_for_def email_taken_def)
        from mem_Save_inv [OF assms(2) this] mem_Save_byID [OF sv] sv id show ?thesis by simp
      qed
      note row = this
      show ?thesis
      proof (cases "c_email cu = e")
        case True
        then show ?thesis using cu h c e None i ans Inr by auto
      next
        case False
        then obtain ie where "store_inv s'" "store_rows s' = add_rows [ie] (store_rows s)"
          "maps_to (CustomerEmailChanged (CustomerID_String i) (Email_String (c_email cu)) (Email_String e) t) ie"
          "c_status cu \<noteq> StatusDeactivated" "\<not> email_taken (byID r) (Email_String e)"
          "evolves env rand [ev_ID ie] x x'" "reads_clock env t" using cu(2) by auto
        with row [OF False] False show ?thesis
          using cu(1) h c e None i mem_inv_unique [of r'] ans Inr by auto
      qed
    qed
  qed
qed

text \<open>Property C6: what \<open>ChangeCustomerEmail\<close> does on the default wiring, on every path. It always
  returns, and its answer is decided by the command and the stored rows: the error of the identifier, then of the address, then of
  loading the customer; then success if the customer already has the address; then \<open>ErrConflict\<close> if the address is taken, the customer is
  deactivated or its version would wrap around; then success. On failure nothing is written. On success either the customer
  already had the address and nothing is written, or it was active, the address was free, its row becomes
  the changed aggregate's, addresses are still unique, and exactly one event with the old and the new
  address is added to the outbox, under the one identifier drawn; otherwise none is.\<close>

theorem change_email_effect:
  fixes env :: "'x env"
  assumes "rand_ok rand" "mem_inv r" "store_inv s"
  shows "\<exists>res r' s' x' t. ChangeCustomerEmail_Handle ul (memory_deps env rand ul) cmd (r, s, x) = (Return res, (r', s', x')) \<and>
    res = (case NewCustomerID (change_CustomerID cmd) of
             Inl err \<Rightarrow> Some err
           | Inr i \<Rightarrow> (case NewEmail ul (change_NewEmail cmd) of Inl err \<Rightarrow> Some err | Inr e \<Rightarrow> change_answer ul r i e)) \<and>
    (case res of
      Some err \<Rightarrow> r' = r \<and> s' = s \<and>
        (errors_Is err ErrValidation \<or> err = ErrConflict \<or> mem_FindByID ul (CustomerID (change_CustomerID cmd)) r = Inl err) \<and>
        evolves env rand [] x x'
    | None \<Rightarrow> \<exists>e c. NewEmail ul (change_NewEmail cmd) = Inr e \<and>
        mem_FindByID ul (CustomerID (change_CustomerID cmd)) r = Inr c \<and>
        (if c_email c = e then r' = r \<and> s' = s \<and> evolves env rand [] x x'
         else c_status c \<noteq> StatusDeactivated \<and> \<not> email_taken (byID r) (Email_String e) \<and>
           byID r' = (byID r)(change_CustomerID cmd \<mapsto> ToSnapshot (snd (ChangeEmail e t c))) \<and>
           mem_inv r' \<and> unique_emails (byID r') \<and> store_inv s' \<and>
           (\<exists>ie. maps_to (CustomerEmailChanged (change_CustomerID cmd) (Email_String (c_email c)) (Email_String e) t) ie \<and>
             store_rows s' = add_rows [ie] (store_rows s) \<and> evolves env rand [ev_ID ie] x x' \<and> reads_clock env t)))"
  by (rule change_email_memory [OF assms])

theorem change_email_effect_witness:
  "\<exists>r' s' x'. ChangeCustomerEmail_Handle (\<lambda>r. r) (memory_deps demo_env demo_rand (\<lambda>r. r))
      \<lparr>change_CustomerID = ''c-9'', change_NewEmail = ''ada@new.com''\<rparr> (ada_repo, demo_store, []) =
        (Return (Some ErrNotFound), (r', s', x')) \<and> r' = ada_repo \<and> s' = demo_store"
proof -
  have h: "ChangeCustomerEmail_Handle (\<lambda>r. r) (memory_deps demo_env demo_rand (\<lambda>r. r))
      \<lparr>change_CustomerID = ''c-9'', change_NewEmail = ''ada@new.com''\<rparr> (ada_repo, demo_store, []) =
        (Return (Some ErrNotFound), (ada_repo, demo_store, []))"
    using ada_new_ok [of "\<lambda>r. r"]
    by (simp add: ChangeCustomerEmail_Handle_def NewCustomerID_def memory_deps_def Noop_Within_def change_body_def
        mem_FindByID_def ada_repo_def)
  then show ?thesis
    using change_email_effect [OF demo_rand_ok ada_repo_inv demo_store_eval [THEN conjunct1], of "\<lambda>r. r" demo_env
        "\<lparr>change_CustomerID = ''c-9'', change_NewEmail = ''ada@new.com''\<rparr>" "[]"]
    by auto
qed

subsection \<open>Sequences of commands\<close>

datatype customer_command = CmdCreate CreateCustomer | CmdChange ChangeCustomerEmail

fun run_command :: "(nat \<Rightarrow> nat) \<Rightarrow> 'w Deps \<Rightarrow> customer_command \<Rightarrow> 'w \<Rightarrow> 'w" where
  "run_command ul d (CmdCreate cmd) w = snd (CreateCustomer_Handle ul d cmd w)"
| "run_command ul d (CmdChange cmd) w = snd (ChangeCustomerEmail_Handle ul d cmd w)"

definition rows_ok :: "(nat \<Rightarrow> nat) \<Rightarrow> rows \<Rightarrow> bool" where
  "rows_ok ul m \<longleftrightarrow> (\<forall>i sn. m i = Some sn \<longrightarrow> (\<exists>c. customer_ok ul c \<and> CustomerID_String (c_id c) = i \<and> sn = ToSnapshot c))"

definition memory_ok :: "(nat \<Rightarrow> nat) \<Rightarrow> 'x memory \<Rightarrow> bool" where
  "memory_ok ul w \<longleftrightarrow> mem_inv (fst w) \<and> rows_ok ul (byID (fst w)) \<and> store_inv (fst (snd w))"

lemma rows_ok_upd: "rows_ok ul m \<Longrightarrow> customer_ok ul c \<Longrightarrow> CustomerID_String (c_id c) = i \<Longrightarrow> rows_ok ul (m(i \<mapsto> ToSnapshot c))"
  by (auto simp: rows_ok_def)

lemma rows_ok_find: "rows_ok ul (byID r) \<Longrightarrow> mem_FindByID ul i r = Inr c \<Longrightarrow> customer_ok ul c \<and> c_id c = i"
proof -
  assume a: "rows_ok ul (byID r)" "mem_FindByID ul i r = Inr c"
  then obtain c0 where c0: "customer_ok ul c0" "CustomerID_String (c_id c0) = CustomerID_String i"
    "FromSnapshot ul (ToSnapshot c0) = Inr c"
    using mem.find_Inr [OF a(2)] by (auto simp: rows_ok_def)
  then have "c = c0\<lparr>root_events := []\<rparr>" by (simp add: FromSnapshot_ToSnapshot)
  with c0 show ?thesis by (auto simp: customer_ok_def intro: CustomerID.expand)
qed

lemma run_command_ok:
  assumes "lower_table ul" "rand_ok rand" "memory_ok ul w"
  shows "memory_ok ul (run_command ul (memory_deps env rand ul) cmd w)"
proof -
  obtain r s x where w: "w = (r, s, x)" by (cases w)
  note ok = assms(3) [unfolded memory_ok_def w fst_conv snd_conv]
  show ?thesis
  proof (cases cmd)
    case (CmdCreate c)
    obtain res r' s' x' t where h: "CreateCustomer_Handle ul (memory_deps env rand ul) c (r, s, x) = (Return res, (r', s', x'))"
      "case res of Inl err \<Rightarrow> r' = r \<and> s' = s
       | Inr z \<Rightarrow> mem_inv r' \<and> store_inv s' \<and> (\<exists>e cu. NewEmail ul (create_Email c) = Inr e \<and>
           NewCustomer (CustomerID (created_CustomerID z)) (create_Name c) e t = Inr cu \<and>
           byID r' = (byID r)(created_CustomerID z \<mapsto> ToSnapshot cu))"
      using create_customer_memory [OF assms(2), of r s ul env c x] ok
      by (fastforce split: sum.splits)
    have "memory_ok ul (r', s', x')"
    proof (cases res)
      case (Inr z)
      then obtain e cu where cu: "NewEmail ul (create_Email c) = Inr e"
        "NewCustomer (CustomerID (created_CustomerID z)) (create_Name c) e t = Inr cu"
        "byID r' = (byID r)(created_CustomerID z \<mapsto> ToSnapshot cu)" "mem_inv r'" "store_inv s'"
        using h(2) by auto
      have "customer_ok ul cu" using NewCustomer_ok [OF NewEmail_fix [OF assms(1) cu(1)] cu(2)] .
      then show ?thesis using cu ok NewCustomer_Inr [OF cu(2)] by (auto simp: memory_ok_def intro!: rows_ok_upd)
    qed (use h ok in \<open>simp add: memory_ok_def\<close>)
    then show ?thesis using h by (simp add: CmdCreate w)
  next
    case (CmdChange c)
    obtain res r' s' x' t where h: "ChangeCustomerEmail_Handle ul (memory_deps env rand ul) c (r, s, x) = (Return res, (r', s', x'))"
      "case res of Some err \<Rightarrow> r' = r \<and> s' = s
       | None \<Rightarrow> \<exists>e cu. NewEmail ul (change_NewEmail c) = Inr e \<and> mem_FindByID ul (CustomerID (change_CustomerID c)) r = Inr cu \<and>
          (if c_email cu = e then r' = r \<and> s' = s
           else byID r' = (byID r)(change_CustomerID c \<mapsto> ToSnapshot (snd (ChangeEmail e t cu))) \<and> mem_inv r' \<and> store_inv s')"
      using change_email_memory [OF assms(2), of r s ul env c x] ok
      by (fastforce split: option.splits)
    have "memory_ok ul (r', s', x')"
    proof (cases res)
      case None
      then obtain e cu where e: "NewEmail ul (change_NewEmail c) = Inr e" "mem_FindByID ul (CustomerID (change_CustomerID c)) r = Inr cu"
        "if c_email cu = e then r' = r \<and> s' = s
           else byID r' = (byID r)(change_CustomerID c \<mapsto> ToSnapshot (snd (ChangeEmail e t cu))) \<and> mem_inv r' \<and> store_inv s'"
        using h(2) by auto
      have cu: "customer_ok ul cu" "c_id cu = CustomerID (change_CustomerID c)" using rows_ok_find [OF _ e(2)] ok by simp_all
      have "customer_ok ul (snd (ChangeEmail e t cu))"
        using customer_call_ok [OF cu(1), of "CallChangeEmail e t"] NewEmail_fix [OF assms(1) e(1)] by (simp add: call_ok_def)
      then show ?thesis using e(3) ok cu(2) by (auto simp: memory_ok_def intro!: rows_ok_upd split: if_splits)
    qed (use h ok in \<open>simp add: memory_ok_def\<close>)
    then show ?thesis using h by (simp add: CmdChange w)
  qed
qed

text \<open>Property C7: whatever commands run, one after the other, on the default wiring, every stored row
  is the snapshot of a well-formed customer under its own identifier, so it loads again; an address
  identifies at most one customer; and the index of addresses and the outbox are consistent.\<close>

theorem commands_keep_the_store_valid:
  assumes "lower_table ul" "rand_ok rand"
  shows "let w = fold (run_command ul (memory_deps env rand ul)) cmds (mem_New, NewMemoryStore, x) in
    unique_emails (byID (fst w)) \<and> rows_ok ul (byID (fst w)) \<and> mem_inv (fst w) \<and> store_inv (fst (snd w))"
proof -
  have "memory_ok ul w \<Longrightarrow> memory_ok ul (fold (run_command ul (memory_deps env rand ul)) cmds w)" for w
    by (induction cmds arbitrary: w) (simp_all add: run_command_ok [OF assms])
  moreover have "memory_ok ul (mem_New, NewMemoryStore, x)"
    by (simp add: memory_ok_def mem_New_inv NewMemoryStore_inv) (simp add: rows_ok_def mem_New_def)
  ultimately show ?thesis
    by (auto simp: Let_def memory_ok_def intro: mem_inv_unique)
qed

theorem commands_keep_the_store_valid_witness:
  "unique_emails (byID (fst (fold (run_command (\<lambda>r. r) (memory_deps demo_env demo_rand (\<lambda>r. r)))
     [CmdCreate \<lparr>create_Name = ''Ada'', create_Email = ''a@b.c''\<rparr>, CmdCreate \<lparr>create_Name = ''Eve'', create_Email = ''a@b.c''\<rparr>]
     (mem_New, NewMemoryStore, []))))"
  using commands_keep_the_store_valid [OF lower_table_id demo_rand_ok] unfolding Let_def by blast


subsection \<open>Two handlers at once\<close>

text \<open>
  The closure of \<open>CreateCustomer\<close> cut where another handler can run in between: each port call is atomic
  (the adapters lock), and \<open>Noop\<close> holds no lock across them.
\<close>

datatype create_pc = AtCheck | AtSave | AtPublish "DomainEvent list" | Finished "gerr option outcome"

type_synonym create_thread = "CustomerID \<times> string \<times> Email \<times> create_pc"

definition thread_step :: "'w Deps \<Rightarrow> create_thread \<Rightarrow> 'w \<Rightarrow> create_thread \<times> 'w" where
  "thread_step d th w =
    (case th of (i, name, email, pc) \<Rightarrow>
      (case pc of
        AtCheck \<Rightarrow>
          (case Deps_EnsureAvailable d email w of
            (Return None, w') \<Rightarrow> ((i, name, email, AtSave), w')
          | (r, w') \<Rightarrow> ((i, name, email, Finished r), w'))
      | AtSave \<Rightarrow>
          (let (now, w1) = dep_Now d w in
           case NewCustomer i name email now of
             Inl err \<Rightarrow> ((i, name, email, Finished (Return (Some err))), w1)
           | Inr customer \<Rightarrow>
               (case dep_Save d customer w1 of
                 (Return None, w2) \<Rightarrow> ((i, name, email, AtPublish (map OfCustomer (fst (PullEvents customer)))), w2)
               | (r, w2) \<Rightarrow> ((i, name, email, Finished r), w2)))
      | AtPublish des \<Rightarrow>
          (case dep_Publish d des w of (r, w') \<Rightarrow> ((i, name, email, Finished r), w'))
      | Finished r \<Rightarrow> (th, w)))"

text \<open>A schedule names the thread that runs next.\<close>

fun run_schedule :: "'w Deps \<Rightarrow> nat list \<Rightarrow> create_thread list \<Rightarrow> 'w \<Rightarrow> create_thread list \<times> 'w" where
  "run_schedule d [] ths w = (ths, w)"
| "run_schedule d (k # ks) ths w =
    (let (th, w') = thread_step d (ths ! k) w in run_schedule d ks (ths[k := th]) w')"

text \<open>Run without interruption, a thread is the closure.\<close>

lemma thread_is_create_body:
  "run_schedule d [0, 0, 0] [(i, name, email, AtCheck)] w =
    ([(i, name, email, Finished (fst (create_body d i name email w)))], snd (create_body d i name email w))"
proof -
  obtain r1 w1 where 1: "Deps_EnsureAvailable d email w = (r1, w1)" by (cases "Deps_EnsureAvailable d email w")
  obtain t w2 where 2: "dep_Now d w1 = (t, w2)" by (cases "dep_Now d w1")
  consider p where "r1 = Panic p" | e where "r1 = Return (Some e)" | "r1 = Return None" by (cases r1) auto
  then show ?thesis
  proof cases
    case 3
    show ?thesis
    proof (cases "NewCustomer i name email t")
      case (Inr c)
      obtain r3 w3 where s: "dep_Save d c w2 = (r3, w3)" by (cases "dep_Save d c w2")
      obtain r4 w4 where p: "dep_Publish d (map OfCustomer (fst (PullEvents c))) w3 = (r4, w4)"
        by (cases "dep_Publish d (map OfCustomer (fst (PullEvents c))) w3")
      consider q where "r3 = Panic q" | e where "r3 = Return (Some e)" | "r3 = Return None" by (cases r3) auto
      then show ?thesis
        by cases (simp_all add: 1 2 3 Inr s p thread_step_def create_body_def)
    qed (simp add: 1 2 3 thread_step_def create_body_def)
  qed (simp_all add: 1 thread_step_def create_body_def)
qed

lemma NewCustomer_succeeds:
  "\<not> CustomerID_IsZero i \<Longrightarrow> validateName name = None \<Longrightarrow> \<exists>c. NewCustomer i name e t = Inr c"
  by (simp add: NewCustomer_def Let_def)

lemma thread_check:
  "mem_inv r \<Longrightarrow> \<not> email_taken (byID r) (Email_String e) \<Longrightarrow>
    thread_step (memory_deps env rand ul) (i, n, e, AtCheck) (r, s, x) = ((i, n, e, AtSave), (r, s, x))"
  using EnsureAvailable_memory [of r e "(r, s, x)"]
  by (simp add: thread_step_def Deps_EnsureAvailable_def memory_deps_def)

lemma thread_save:
  assumes "\<not> CustomerID_IsZero i" "validateName n = None" "byID r (CustomerID_String i) = None"
  shows "\<exists>t c x'. NewCustomer i n e t = Inr c \<and>
    thread_step (memory_deps env rand ul) (i, n, e, AtSave) (r, s, x) =
      ((i, n, e, AtPublish (map OfCustomer (fst (PullEvents c)))), (snd (mem_Save c r), s, x'))"
proof -
  obtain t x1 where now: "clock_now env x = (t, x1)" by (cases "clock_now env x")
  obtain c where c: "NewCustomer i n e t = Inr c" using NewCustomer_succeeds [OF assms(1,2)] by blast
  have "fst (mem_Save c r) = None" using assms(3) NewCustomer_Inr [OF c] by (simp add: mem_Save_result)
  moreover have "dep_Now (memory_deps env rand ul) (r, s, x) = (t, (r, s, x1))"
    by (simp add: memory_deps_def System_Now_def env_beside_def now)
  moreover have "dep_Save (memory_deps env rand ul) c (r, s, x1) = (Return (fst (mem_Save c r)), (snd (mem_Save c r), s, x1))"
    by (simp add: memory_deps_def)
  ultimately show ?thesis using c by (intro exI [of _ t] exI [of _ c] exI [of _ x1]) (simp add: thread_step_def)
qed

lemma thread_publish:
  assumes "rand_ok rand" "store_inv s"
  shows "\<exists>s' x'. store_inv s' \<and> thread_step (memory_deps env rand ul) (i, n, e, AtPublish (map OfCustomer es)) (r, s, x) =
    ((i, n, e, Finished (Return None)), (r, s', x'))"
proof -
  obtain s' x' where "Dispatcher_Publish (rand_beside rand) (Publisher_Publish (MemoryStore_ops env)) (map OfCustomer es) (s, x) =
      (Return None, (s', x'))" "store_inv s'"
    using dispatch_memory [OF assms] by blast
  then show ?thesis
    by (intro exI [of _ s'] exI [of _ x']) (simp add: thread_step_def memory_deps_def beside_def)
qed

text \<open>Property C16: check-then-save is not atomic under the \<open>Noop\<close> unit of work. Two concurrent
  \<open>CreateCustomer\<close> for the same free address, each checking before either saves, both succeed,
  and afterwards two customers have the address, although the policy says an address identifies at most one.\<close>

theorem concurrent_creates_break_uniqueness:
  fixes env :: "'x env"
  assumes "rand_ok rand" "mem_inv r" "store_inv s" "\<not> email_taken (byID r) (Email_String e)"
    and "\<not> CustomerID_IsZero i" "\<not> CustomerID_IsZero j" "CustomerID_String i \<noteq> CustomerID_String j"
    and "byID r (CustomerID_String i) = None" "byID r (CustomerID_String j) = None"
    and "validateName m = None" "validateName n = None"
  shows "\<exists>r' s' x'. run_schedule (memory_deps env rand ul) [0, 1, 0, 1, 0, 1] [(i, m, e, AtCheck), (j, n, e, AtCheck)] (r, s, x) =
      ([(i, m, e, Finished (Return None)), (j, n, e, Finished (Return None))], (r', s', x')) \<and>
    \<not> unique_emails (byID r')"
proof -
  let ?d = "memory_deps env rand ul"
  note 1 = thread_check [OF assms(2,4), of env rand ul]
  obtain t c x1 where c: "NewCustomer i m e t = Inr c"
    "thread_step ?d (i, m, e, AtSave) (r, s, x) = ((i, m, e, AtPublish (map OfCustomer (fst (PullEvents c)))), (snd (mem_Save c r), s, x1))"
    using thread_save [OF assms(5,10,8), of e env rand ul s x] by blast
  note cf = NewCustomer_Inr [OF c(1)]
  have "fst (mem_Save c r) = None" using assms(8) cf by (simp add: mem_Save_result)
  from mem_Save_byID [OF mem_Save_None [OF this]]
  have r1: "byID (snd (mem_Save c r)) = (byID r)(CustomerID_String i \<mapsto> ToSnapshot c)" using cf by simp
  then have "byID (snd (mem_Save c r)) (CustomerID_String j) = None" using assms(7,9) by simp
  from thread_save [OF assms(6,11) this, of e env rand ul s x1] obtain t' c' x2 where c': "NewCustomer j n e t' = Inr c'"
    "thread_step ?d (j, n, e, AtSave) (snd (mem_Save c r), s, x1) =
      ((j, n, e, AtPublish (map OfCustomer (fst (PullEvents c')))), (snd (mem_Save c' (snd (mem_Save c r))), s, x2))" by blast
  note cf' = NewCustomer_Inr [OF c'(1)]
  let ?r = "snd (mem_Save c' (snd (mem_Save c r)))"
  have "fst (mem_Save c' (snd (mem_Save c r))) = None" using assms(7,9) cf' r1 by (simp add: mem_Save_result)
  from mem_Save_byID [OF mem_Save_None [OF this]]
  have r2: "byID ?r = (byID r)(CustomerID_String i \<mapsto> ToSnapshot c, CustomerID_String j \<mapsto> ToSnapshot c')" using cf' r1 by simp
  obtain s1 x3 where p: "store_inv s1" "thread_step ?d (i, m, e, AtPublish (map OfCustomer (fst (PullEvents c)))) (?r, s, x2) =
      ((i, m, e, Finished (Return None)), (?r, s1, x3))" using thread_publish [OF assms(1,3)] by blast
  obtain s2 x4 where p': "thread_step ?d (j, n, e, AtPublish (map OfCustomer (fst (PullEvents c')))) (?r, s1, x3) =
      ((j, n, e, Finished (Return None)), (?r, s2, x4))" using thread_publish [OF assms(1) p(1)] by blast
  have "byID ?r (CustomerID_String i) = Some (ToSnapshot c)" "byID ?r (CustomerID_String j) = Some (ToSnapshot c')"
    "snap_Email (ToSnapshot c) = snap_Email (ToSnapshot c')"
    using r2 assms(7) cf cf' by simp_all
  then have "\<not> unique_emails (byID ?r)" using assms(7) unfolding unique_emails_def by blast
  then show ?thesis using 1 c(2) c'(2) p(2) p' by simp
qed

theorem concurrent_creates_break_uniqueness_witness:
  "\<exists>r' s' x'. run_schedule (memory_deps demo_env demo_rand (\<lambda>r. r)) [0, 1, 0, 1, 0, 1]
      [(CustomerID ''a'', ''Ada'', ada_email, AtCheck), (CustomerID ''b'', ''Eve'', ada_email, AtCheck)] (mem_New, NewMemoryStore, []) =
      ([(CustomerID ''a'', ''Ada'', ada_email, Finished (Return None)), (CustomerID ''b'', ''Eve'', ada_email, Finished (Return None))], (r', s', x')) \<and>
    \<not> unique_emails (byID r')"
  by (rule concurrent_creates_break_uniqueness [OF demo_rand_ok mem_New_inv NewMemoryStore_inv])
     (simp_all add: mem_New_def email_taken_def CustomerID_IsZero_def validateName_def)

text \<open>\<open>Noop\<close> does not roll back. If the publisher fails after the save, \<open>CreateCustomer\<close>
  reports the error but the customer stays stored, without an event in the outbox, so the
  read side never hears of it; the unit of work is documented to commit or roll back both.\<close>

theorem noop_keeps_half_a_command:
  fixes env :: "'x env"
  assumes "rand_ok rand" "mem_inv r" "NewEmail ul (create_Email cmd) = Inr e" "\<not> email_taken (byID r) (Email_String e)"
    and "validateName (create_Name cmd) = None" "\<And>b. byID r (uuid_text b) = None"
  shows "\<exists>r' x' i. CreateCustomer_Handle ul (memory_deps env rand ul\<lparr>dep_Publish := \<lambda>des w. (Return (Some err), w)\<rparr>) cmd (r, s, x) =
      (Return (Inl err), (r', s, x')) \<and> byID r i = None \<and> (\<exists>sn. byID r' i = Some sn \<and> snap_Email sn = Email_String e)"
proof -
  let ?d = "memory_deps env rand ul\<lparr>dep_Publish := \<lambda>des w. (Return (Some err), w)\<rparr>"
  obtain b x1 where b: "dep_NewID ?d (r, s, x) = (Return (uuid_text b), (r, s, x1))" "length b = 16"
    using New_memory [OF assms(1), of r s x env] by (auto simp: memory_deps_def)
  obtain t x2 where now: "clock_now env x1 = (t, x2)" by (cases "clock_now env x1")
  let ?i = "CustomerID (uuid_text b)"
  have id: "NewCustomerID (uuid_text b) = Inr ?i" using b(2) by (rule NewCustomerID_uuid)
  then have "\<not> CustomerID_IsZero ?i" by (auto simp: NewCustomerID_def CustomerID_IsZero_def split: if_splits)
  then obtain c where c: "NewCustomer ?i (create_Name cmd) e t = Inr c"
    using NewCustomer_succeeds assms(5) by blast
  note cf = NewCustomer_Inr [OF c]
  have sv: "fst (mem_Save c r) = None" using assms(6) cf by (simp add: mem_Save_result)
  have avail: "Deps_EnsureAvailable ?d e (r, s, x1) = (Return None, (r, s, x1))"
    by (simp add: Deps_EnsureAvailable_def memory_deps_def EnsureAvailable_memory [OF assms(2)] assms(4))
  have dnow: "dep_Now (memory_deps env rand ul) (r, s, x1) = (t, (r, s, x2))"
    by (simp add: memory_deps_def System_Now_def env_beside_def now)
  have dsave: "dep_Save (memory_deps env rand ul) c (r, s, x2) = (Return None, (snd (mem_Save c r), s, x2))"
    using sv by (simp add: memory_deps_def)
  have "create_body ?d ?i (create_Name cmd) e (r, s, x1) = (Return (Some err), (snd (mem_Save c r), s, x2))"
    by (simp add: create_body_def avail dnow c dsave)
  moreover have "dep_Within ?d = Noop_Within" by (simp add: memory_deps_def)
  ultimately have "CreateCustomer_Handle ul ?d cmd (r, s, x) = (Return (Inl err), (snd (mem_Save c r), s, x2))"
    using assms(3) b(1) id by (simp add: CreateCustomer_Handle_def Noop_Within_def)
  moreover have "byID (snd (mem_Save c r)) (uuid_text b) = Some (ToSnapshot c)"
    using mem_Save_byID [OF mem_Save_None [OF sv]] cf by simp
  ultimately show ?thesis using assms(6) cf by (intro exI) auto
qed

theorem noop_keeps_half_a_command_witness:
  "\<exists>r' x' i. CreateCustomer_Handle (\<lambda>r. r) (memory_deps demo_env demo_rand (\<lambda>r. r)\<lparr>dep_Publish := \<lambda>des w. (Return (Some (ErrorString ''down'')), w)\<rparr>)
      \<lparr>create_Name = ''Ada'', create_Email = ''ada@example.com''\<rparr> (mem_New, NewMemoryStore, []) =
      (Return (Inl (ErrorString ''down'')), (r', NewMemoryStore, x')) \<and> byID mem_New i = None \<and>
    (\<exists>sn. byID r' i = Some sn \<and> snap_Email sn = Email_String ada_email)"
  by (rule noop_keeps_half_a_command [OF demo_rand_ok mem_New_inv])
     (simp_all add: ada_email_ok mem_New_def email_taken_def validateName_def)

end
