(* ===== verification/Projections.thy ===== *)
theory Projections
  imports CustomerMessaging
begin

text \<open>
  The query side of the customer context: pages (\<open>pkg/pagination\<close>), the in-memory read model that is
  fed by the context's own integration events
  (\<open>internal/customer/infrastructure/projections/memory_read_model.go\<close>), and the query handlers over it
  (\<open>internal/customer/application/queries\<close>). The read model sits beside the rest of the world, on which
  the clock acts.
\<close>

subsection \<open>Pages\<close>

definition DefaultLimit :: int where
  "DefaultLimit = 20"

definition MaxLimit :: int where
  "MaxLimit = 100"

record Page =
  page_Limit :: int
  page_Offset :: int

definition Page_New :: "int \<Rightarrow> int \<Rightarrow> Page" where
  "Page_New limit offset =
    (let l1 = (if limit \<le> 0 then DefaultLimit else limit);
         l2 = (if l1 > MaxLimit then MaxLimit else l1);
         off = (if offset < 0 then 0 else offset)
     in \<lparr>page_Limit = l2, page_Offset = off\<rparr>)"

text \<open>\<open>url.Values.Get\<close>: the first value of the key, or the empty string.\<close>

definition Values_Get :: "(string \<rightharpoonup> string list) \<Rightarrow> string \<Rightarrow> string" where
  "Values_Get q k = (case q k of Some (v # _) \<Rightarrow> v | _ \<Rightarrow> [])"

definition FromQuery :: "(string \<rightharpoonup> string list) \<Rightarrow> Page" where
  "FromQuery q = Page_New (fst (Atoi (Values_Get q ''limit''))) (fst (Atoi (Values_Get q ''offset'')))"

record 'a Page_Result =
  res_Items :: "'a list"
  res_Total :: int
  res_Limit :: int
  res_Offset :: int

subsection \<open>The read model\<close>

record DtoCustomer =
  dto_ID :: string
  dto_Name :: string
  dto_Email :: string
  dto_Status :: string
  dto_CreatedAt :: gotime

record MemoryReadModel =
  rm_rows :: "string \<rightharpoonup> DtoCustomer"

definition NewMemoryReadModel :: MemoryReadModel where
  "NewMemoryReadModel = \<lparr>rm_rows = Map.empty\<rparr>"

definition nonZero :: "'x env \<Rightarrow> gotime \<Rightarrow> 'x \<Rightarrow> gotime \<times> 'x" where
  "nonZero env t x = (if t = zero_time then clock_now env x else (t, x))"

definition onCreated :: "'x env \<Rightarrow> (MemoryReadModel \<times> 'x) handler" where
  "onCreated env e mx =
    (case unmarshal_strings [''id'', ''name'', ''email''] (ev_Payload e) of
      Inl err \<Rightarrow> (Return (Some err), mx)
    | Inr p \<Rightarrow>
        (let (at, x') = nonZero env (ev_OccurredAt e) (snd mx)
         in (Return None,
             ((fst mx)\<lparr>rm_rows := (rm_rows (fst mx))(p ''id'' \<mapsto>
                \<lparr>dto_ID = p ''id'', dto_Name = p ''name'', dto_Email = p ''email'',
                 dto_Status = ''active'', dto_CreatedAt = at\<rparr>)\<rparr>, x'))))"

definition onEmailChanged :: "(MemoryReadModel \<times> 'x) handler" where
  "onEmailChanged e mx =
    (case unmarshal_strings [''id'', ''new_email''] (ev_Payload e) of
      Inl err \<Rightarrow> (Return (Some err), mx)
    | Inr p \<Rightarrow>
        (Return None,
         (case rm_rows (fst mx) (p ''id'') of
           None \<Rightarrow> mx
         | Some row \<Rightarrow>
             ((fst mx)\<lparr>rm_rows := (rm_rows (fst mx))(p ''id'' \<mapsto> row\<lparr>dto_Email := p ''new_email''\<rparr>)\<rparr>, snd mx))))"

definition onDeactivated :: "(MemoryReadModel \<times> 'x) handler" where
  "onDeactivated e mx =
    (case unmarshal_strings [''id''] (ev_Payload e) of
      Inl err \<Rightarrow> (Return (Some err), mx)
    | Inr p \<Rightarrow>
        (Return None,
         (case rm_rows (fst mx) (p ''id'') of
           None \<Rightarrow> mx
         | Some row \<Rightarrow>
             ((fst mx)\<lparr>rm_rows := (rm_rows (fst mx))(p ''id'' \<mapsto> row\<lparr>dto_Status := ''inactive''\<rparr>)\<rparr>, snd mx))))"

definition ReadModel_Register ::
  "('b, MemoryReadModel \<times> 'x) subscribe_fn \<Rightarrow> 'x env \<Rightarrow> 'b \<Rightarrow> MemoryReadModel \<times> 'x \<Rightarrow>
    gerr option \<times> 'b \<times> (MemoryReadModel \<times> 'x)" where
  "ReadModel_Register sub env bus w =
    (case sub EventCustomerCreated (Some (onCreated env)) bus w of
      (Some err, bw) \<Rightarrow> (Some err, bw)
    | (None, bus1, w1) \<Rightarrow>
        (case sub EventCustomerEmailChanged (Some onEmailChanged) bus1 w1 of
          (Some err, bw) \<Rightarrow> (Some err, bw)
        | (None, bus2, w2) \<Rightarrow> sub EventCustomerDeactivated (Some onDeactivated) bus2 w2))"

lemma ReadModel_Register_all: "ReadModel_Register sub env =
    register_all sub [(EventCustomerCreated, onCreated env), (EventCustomerEmailChanged, onEmailChanged), (EventCustomerDeactivated, onDeactivated)]"
  by (auto simp: ReadModel_Register_def fun_eq_iff split: prod.split option.split)

definition ReadModel_GetByID :: "string \<Rightarrow> MemoryReadModel \<Rightarrow> DtoCustomer result" where
  "ReadModel_GetByID i m = (case rm_rows m i of None \<Rightarrow> Inl ErrNotFound | Some row \<Rightarrow> Inr row)"

text \<open>The order of \<open>List\<close>; no two rows are equal in it.\<close>

definition row_before :: "DtoCustomer \<Rightarrow> DtoCustomer \<Rightarrow> bool" where
  "row_before a b =
    (if dto_CreatedAt a = dto_CreatedAt b then string_less (dto_ID a) (dto_ID b)
     else dto_CreatedAt a < dto_CreatedAt b)"

text \<open>Slicing \<open>xs[lo:hi]\<close> of a slice whose capacity is its length.\<close>

definition slice :: "'a list \<Rightarrow> int \<Rightarrow> int \<Rightarrow> 'a list outcome" where
  "slice xs lo hi =
    (if 0 \<le> lo \<and> lo \<le> hi \<and> hi \<le> int (length xs) then Return (take (nat (hi - lo)) (drop (nat lo) xs))
     else Panic ''runtime error: slice bounds out of range'')"

definition ReadModel_List :: "string list \<Rightarrow> Page \<Rightarrow> MemoryReadModel \<Rightarrow> DtoCustomer Page_Result result outcome" where
  "ReadModel_List keys page m =
    (let all = sort_Slice row_before (range_map keys (rm_rows m));
         total = int (length all);
         lo = min (page_Offset page) total;
         hi = min (wrap64 (lo + page_Limit page)) total
     in case slice all lo hi of
          Panic p \<Rightarrow> Panic p
        | Return items \<Rightarrow>
            Return (Inr \<lparr>res_Items = items, res_Total = total, res_Limit = page_Limit page, res_Offset = page_Offset page\<rparr>))"

subsection \<open>Query handlers\<close>

record 'w QueryDeps =
  q_GetByID :: "string \<Rightarrow> 'w \<Rightarrow> DtoCustomer result"
  q_List :: "Page \<Rightarrow> 'w \<Rightarrow> DtoCustomer Page_Result result outcome"

record GetCustomer =
  get_CustomerID :: string

record ListCustomers =
  list_Page :: Page

definition GetCustomer_Handle :: "'w QueryDeps \<Rightarrow> GetCustomer \<Rightarrow> 'w \<Rightarrow> DtoCustomer result" where
  "GetCustomer_Handle d q w = q_GetByID d (get_CustomerID q) w"

definition ListCustomers_Handle :: "'w QueryDeps \<Rightarrow> ListCustomers \<Rightarrow> 'w \<Rightarrow> DtoCustomer Page_Result result outcome" where
  "ListCustomers_Handle d q w = q_List d (list_Page q) w"

definition memory_queries :: "string list \<Rightarrow> MemoryReadModel QueryDeps" where
  "memory_queries keys = \<lparr>q_GetByID = ReadModel_GetByID, q_List = ReadModel_List keys\<rparr>"

subsection \<open>Paging\<close>

lemma Page_New_bounds:
  "1 \<le> page_Limit (Page_New l o')" "page_Limit (Page_New l o') \<le> MaxLimit" "0 \<le> page_Offset (Page_New l o')"
  by (simp_all add: Page_New_def Let_def DefaultLimit_def MaxLimit_def)

lemma Page_New_fix: "1 \<le> l \<Longrightarrow> l \<le> MaxLimit \<Longrightarrow> 0 \<le> o' \<Longrightarrow> Page_New l o' = \<lparr>page_Limit = l, page_Offset = o'\<rparr>"
  by (simp add: Page_New_def Let_def MaxLimit_def)

lemma row_before_irrefl: "\<not> row_before a a"
  by (simp add: row_before_def string_less_irrefl)

lemma row_before_trans: "row_before a b \<Longrightarrow> row_before b c \<Longrightarrow> row_before a c"
  by (auto simp: row_before_def split: if_splits intro: string_less_trans)

lemma row_before_total: "dto_ID a \<noteq> dto_ID b \<Longrightarrow> row_before a b \<or> row_before b a"
  using string_less_total by (auto simp: row_before_def)


text \<open>The rows sit under their own identifier, so no two are equal and their order is strict.\<close>

definition rm_inv :: "MemoryReadModel \<Rightarrow> bool" where
  "rm_inv m \<longleftrightarrow> (\<forall>i row. rm_rows m i = Some row \<longrightarrow> dto_ID row = i)"

lemma rm_inv_inj: "rm_inv m \<Longrightarrow> inj_on (rm_rows m) (dom (rm_rows m) \<inter> S)"
  unfolding rm_inv_def by (intro inj_onI) (metis domIff IntD1 option.exhaust)

lemma listed_rows:
  assumes "rm_inv m" "enumerates keys (rm_rows m)"
  shows "sorted_wrt row_before (sort_Slice row_before (range_map keys (rm_rows m)))"
    and "set (sort_Slice row_before (range_map keys (rm_rows m))) = ran (rm_rows m)"
    and "length (sort_Slice row_before (range_map keys (rm_rows m))) = card (dom (rm_rows m))"
proof -
  have d: "distinct (range_map keys (rm_rows m))"
    using assms(2) rm_inv_inj [OF assms(1)] by (intro distinct_range_map) (simp add: enumerates_def)
  have r: "set (range_map keys (rm_rows m)) = ran (rm_rows m)" using assms(2) by (rule set_range_map_ran)
  have "row_before a b \<or> row_before b a"
    if "a \<in> ran (rm_rows m)" "b \<in> ran (rm_rows m)" "a \<noteq> b" for a b
  proof -
    have "dto_ID a \<noteq> dto_ID b" using that assms(1) unfolding rm_inv_def ran_def by auto
    then show ?thesis by (rule row_before_total)
  qed
  then show "sorted_wrt row_before (sort_Slice row_before (range_map keys (rm_rows m)))"
    using d r row_before_trans by (intro sort_Slice_sorted) auto
  show "set (sort_Slice row_before (range_map keys (rm_rows m))) = ran (rm_rows m)" by (simp add: r)
  show "length (sort_Slice row_before (range_map keys (rm_rows m))) = card (dom (rm_rows m))"
    using assms(2) by (simp add: length_range_map enumerates_def) (metis distinct_card)
qed

lemma concat_pages:
  "0 < n \<Longrightarrow> concat (map (\<lambda>k. take n (drop (k * n) xs)) [0..<K]) = take (K * n) xs"
proof (induction K)
  case (Suc K)
  have "take (Suc K * n) xs = take (K * n) xs @ take n (drop (K * n) xs)"
    by (simp add: take_add [symmetric] add.commute)
  with Suc show ?case by simp
qed simp

lemma List_page:
  assumes "page_Limit page \<ge> 1" "page_Limit page \<le> MaxLimit" "0 \<le> page_Offset page"
    and "all = sort_Slice row_before (range_map keys (rm_rows m))" "int (length all) < 2 ^ 63 - 100"
  shows "ReadModel_List keys page m = Return (Inr
    \<lparr>res_Items = take (nat (page_Limit page)) (drop (nat (page_Offset page)) all),
     res_Total = int (length all), res_Limit = page_Limit page, res_Offset = page_Offset page\<rparr>)"
proof -
  let ?lo = "min (page_Offset page) (int (length all))"
  have w: "wrap64 (?lo + page_Limit page) = ?lo + page_Limit page"
    using assms(1,2,3,5) by (intro wrap64_id) (auto simp: MaxLimit_def)
  let ?hi = "min (?lo + page_Limit page) (int (length all))"
  have "slice all ?lo ?hi = Return (take (nat (?hi - ?lo)) (drop (nat ?lo) all))"
    using assms(1,3) by (simp add: slice_def)
  also have "take (nat (?hi - ?lo)) (drop (nat ?lo) all) = take (nat (page_Limit page)) (drop (nat (page_Offset page)) all)"
  proof (cases "page_Offset page \<le> int (length all)")
    case True
    then have lo: "?lo = page_Offset page" by simp
    show ?thesis
    proof (cases "page_Offset page + page_Limit page \<le> int (length all)")
      case True
      then show ?thesis by (simp add: lo)
    next
      case False
      then have "nat (?hi - ?lo) = length (drop (nat (page_Offset page)) all)" using lo assms(3) by simp
      moreover have "length (drop (nat (page_Offset page)) all) \<le> nat (page_Limit page)" using False assms(3) by simp
      ultimately show ?thesis using lo by simp
    qed
  qed simp
  finally show ?thesis
    using w by (simp add: ReadModel_List_def Let_def assms(4) [symmetric])
qed

text \<open>\<open>List\<close> never slices out of range and answers from one fixed ordering of the rows,
  by creation time then identifier, whatever order the map is visited in. For any limit and offset a client
  asks for, the clamped page is exactly the window of that ordering, at most a hundred rows, with the
  total count; and walking the pages of one limit visits every row once, in order.\<close>

theorem list_is_a_window_of_one_ordering:
  assumes "rm_inv m" "enumerates keys (rm_rows m)" "int (card (dom (rm_rows m))) < 2 ^ 63 - 100"
  shows "\<exists>all. sorted_wrt row_before all \<and> set all = ran (rm_rows m) \<and> length all = card (dom (rm_rows m)) \<and>
    (\<forall>keys' l off. enumerates keys' (rm_rows m) \<longrightarrow>
      (let p = Page_New l off in
       ReadModel_List keys' p m = Return (Inr
         \<lparr>res_Items = take (nat (page_Limit p)) (drop (nat (page_Offset p)) all), res_Total = int (length all),
          res_Limit = page_Limit p, res_Offset = page_Offset p\<rparr>) \<and>
       1 \<le> page_Limit p \<and> page_Limit p \<le> MaxLimit)) \<and>
    (\<forall>n > 0. concat (map (\<lambda>k. take n (drop (k * n) all)) [0..<length all]) = all)"
proof -
  define all where "all = sort_Slice row_before (range_map keys (rm_rows m))"
  note l = listed_rows [OF assms(1,2), folded all_def]
  have "ReadModel_List keys' (Page_New lim off) m = Return (Inr
         \<lparr>res_Items = take (nat (page_Limit (Page_New lim off))) (drop (nat (page_Offset (Page_New lim off))) all), res_Total = int (length all),
          res_Limit = page_Limit (Page_New lim off), res_Offset = page_Offset (Page_New lim off)\<rparr>)"
    if "enumerates keys' (rm_rows m)" for keys' lim off
  proof -
    note l' = listed_rows [OF assms(1) that]
    have "sort_Slice row_before (range_map keys' (rm_rows m)) = all"
      using l(1,2) l'(1,2) row_before_irrefl row_before_trans by (intro sorted_wrt_unique [of row_before]) auto
    then show ?thesis
      using l(3) assms(3) Page_New_bounds by (intro List_page) simp_all
  qed
  moreover have "concat (map (\<lambda>k. take n (drop (k * n) all)) [0..<length all]) = all" if "0 < n" for n
    using that by (simp add: concat_pages)
  ultimately show ?thesis
    using l Page_New_bounds by (intro exI [of _ all]) (simp add: Let_def)
qed

definition demo_rm :: MemoryReadModel where
  "demo_rm = \<lparr>rm_rows = [''a'' \<mapsto> \<lparr>dto_ID = ''a'', dto_Name = ''A'', dto_Email = ''x'', dto_Status = ''active'', dto_CreatedAt = 9\<rparr>,
                       ''b'' \<mapsto> \<lparr>dto_ID = ''b'', dto_Name = ''B'', dto_Email = ''y'', dto_Status = ''active'', dto_CreatedAt = 3\<rparr>]\<rparr>"

lemma demo_rm_ok: "rm_inv demo_rm" "dom (rm_rows demo_rm) = {''a'', ''b''}"
  by (auto simp: rm_inv_def demo_rm_def split: if_splits)

theorem list_is_a_window_of_one_ordering_witness:
  "ReadModel_List [''a'', ''b''] (Page_New 1 (-5)) demo_rm = ReadModel_List [''b'', ''a''] (Page_New 1 0) demo_rm"
proof -
  have e: "enumerates [''a'', ''b''] (rm_rows demo_rm)" "enumerates [''b'', ''a''] (rm_rows demo_rm)"
    using demo_rm_ok by (auto simp: enumerates_def)
  have "Page_New 1 (-5) = Page_New 1 0" by (simp add: Page_New_def Let_def)
  moreover have "int (card (dom (rm_rows demo_rm))) < 2 ^ 63 - 100" using demo_rm_ok(2) by simp
  ultimately show ?thesis
    using list_is_a_window_of_one_ordering [OF demo_rm_ok(1) e(1)] e unfolding Let_def by metis
qed


subsection \<open>The projection\<close>

text \<open>What an event does to the rows, on the level of domain events.\<close>

fun project1 :: "(string \<rightharpoonup> DtoCustomer) \<Rightarrow> customer_event \<Rightarrow> (string \<rightharpoonup> DtoCustomer)" where
  "project1 m (CustomerCreated i n e t) =
    m(i \<mapsto> \<lparr>dto_ID = i, dto_Name = n, dto_Email = e, dto_Status = ''active'', dto_CreatedAt = t\<rparr>)"
| "project1 m (CustomerEmailChanged i old new t) =
    (case m i of None \<Rightarrow> m | Some row \<Rightarrow> m(i \<mapsto> row\<lparr>dto_Email := new\<rparr>))"
| "project1 m (CustomerDeactivated i r t) =
    (case m i of None \<Rightarrow> m | Some row \<Rightarrow> m(i \<mapsto> row\<lparr>dto_Status := ''inactive''\<rparr>))"

text \<open>The handler the bus runs for an event of each name.\<close>

definition projection_handler :: "'x env \<Rightarrow> (MemoryReadModel \<times> 'x) handler" where
  "projection_handler env e =
    (if ev_Name e = EventCustomerCreated then onCreated env e
     else if ev_Name e = EventCustomerEmailChanged then onEmailChanged e
     else onDeactivated e)"

lemma unread_fields:
  "field_for [''id'', ''new_email''] (runes (bytes ''old_email'')) = None"
  "field_for [''id''] (runes (bytes ''reason'')) = None"
  by (simp_all add: runes_ascii field_for_def encode_runes_ascii fold_rune_def)

lemma read_changed_address:
  "unmarshal_strings [''id'', ''new_email''] (marshal_strings (customerEmailChangedV1 i x y)) =
    Inr (((\<lambda>_. [])(''id'' := to_utf8 i))(''new_email'' := to_utf8 y))"
  by (subst unmarshal_some)
     (use unread_fields in \<open>simp_all add: customerEmailChangedV1_def field_names_utf8\<close>)

lemma read_deactivated_id:
  "unmarshal_strings [''id''] (marshal_strings (customerDeactivatedV1 i r)) = Inr ((\<lambda>_. [])(''id'' := to_utf8 i))"
  by (subst unmarshal_some)
     (use unread_fields in \<open>simp_all add: customerDeactivatedV1_def field_names_utf8\<close>)

lemma project_handler:
  assumes "encodes e ie" "customer_OccurredAt e \<noteq> zero_time"
  shows "projection_handler env ie (m, x) = (Return None, (m\<lparr>rm_rows := project1 (rm_rows m) (event_utf8 e)\<rparr>, x))"
  using assms
  by (cases e)
     (auto simp: projection_handler_def encodes_def integration_name_def event_names onCreated_def onEmailChanged_def
       onDeactivated_def read_created read_changed_address read_deactivated_id nonZero_def split: option.split)

text \<open>How the read side shows a stored customer: every field, with its own word for deactivated.\<close>

definition view :: "Snapshot \<Rightarrow> DtoCustomer" where
  "view s = \<lparr>dto_ID = snap_ID s, dto_Name = snap_Name s, dto_Email = snap_Email s,
     dto_Status = (if snap_Status s = StatusActive then ''active'' else ''inactive''), dto_CreatedAt = snap_CreatedAt s\<rparr>"

text \<open>A list of events of one aggregate that starts from nothing and makes sense at each step.\<close>

inductive tells :: "customer_event list \<Rightarrow> Snapshot option \<Rightarrow> bool" where
  start: "tells [] None"
| step: "tells evs so \<Longrightarrow> replay1 so e = Some s \<Longrightarrow> tells (evs @ [e]) (Some s)"

inductive_cases tells_NilE: "tells [] so"
inductive_cases tells_snocE: "tells (evs @ [e]) so"

lemma project_replay:
  assumes "replay1 so e = Some s'" "m i = map_option view so" "\<forall>s. so = Some s \<longrightarrow> snap_ID s = i"
    "customer_AggregateID e = i"
  shows "project1 m e i = Some (view s') \<and> snap_ID s' = i"
  using assms by (cases "(so, e)" rule: replay1.cases) (auto simp: view_def split: if_splits option.splits)

lemma project_other: "customer_AggregateID e \<noteq> i \<Longrightarrow> project1 m e i = m i"
  by (cases e) (auto split: option.split)

lemma projection_follows:
  "tells (filter (\<lambda>e. customer_AggregateID e = i) evs) so \<Longrightarrow>
    foldl project1 Map.empty evs i = map_option view so \<and> (\<forall>s. so = Some s \<longrightarrow> snap_ID s = i)"
proof (induction evs arbitrary: so rule: rev_induct)
  case Nil
  then show ?case by (auto elim: tells_NilE)
next
  case (snoc e evs)
  show ?case
  proof (cases "customer_AggregateID e = i")
    case True
    with snoc.prems have "tells (filter (\<lambda>e. customer_AggregateID e = i) evs @ [e]) so" by simp
    then obtain so0 s where t: "tells (filter (\<lambda>e. customer_AggregateID e = i) evs) so0" "replay1 so0 e = Some s" "so = Some s"
      by (auto elim: tells_snocE)
    from project_replay [OF t(2) _ _ True] snoc.IH [OF t(1)] t(3) show ?thesis by simp
  next
    case False
    then show ?thesis using snoc by (simp add: project_other)
  qed
qed

text \<open>Running the projection over integration events that encode a list of domain events.\<close>

definition run_projection :: "'x env \<Rightarrow> Event list \<Rightarrow> MemoryReadModel \<times> 'x \<Rightarrow> MemoryReadModel \<times> 'x" where
  "run_projection env ies mx = fold (\<lambda>ie mx. snd (projection_handler env ie mx)) ies mx"

lemma run_projection_spec:
  "list_all2 encodes evs ies \<Longrightarrow> \<forall>e \<in> set evs. customer_OccurredAt e \<noteq> zero_time \<Longrightarrow>
    run_projection env ies (m, x) = (m\<lparr>rm_rows := foldl project1 (rm_rows m) (map event_utf8 evs)\<rparr>, x)"
proof (induction evs ies arbitrary: m rule: list_all2_induct)
  case (Cons e evs ie ies)
  then have "projection_handler env ie (m, x) = (Return None, (m\<lparr>rm_rows := project1 (rm_rows m) (event_utf8 e)\<rparr>, x))"
    by (intro project_handler) simp_all
  then show ?case using Cons by (simp add: run_projection_def)
qed (simp add: run_projection_def)

text \<open>Property C23: the read model is the write model seen through the events. If the events of a
  customer tell its stored state, as the aggregate guarantees, and their texts are UTF-8, then projecting the integration
  events, interleaved with those of other customers in any way, leaves exactly the row that shows that state:
  identifier, name, current address, status and time of creation; a customer without events has no row.\<close>

theorem projection_shows_the_stored_state:
  assumes "list_all2 encodes evs ies" "\<forall>e \<in> set evs. customer_OccurredAt e \<noteq> zero_time \<and> event_utf8 e = e"
    and "tells (filter (\<lambda>e. customer_AggregateID e = i) evs) so"
  shows "ReadModel_GetByID i (fst (run_projection env ies (NewMemoryReadModel, x))) =
    (case so of None \<Rightarrow> Inl ErrNotFound | Some s \<Rightarrow> Inr (view s))"
proof -
  have "map event_utf8 evs = evs" using assms(2) by (intro map_idI) auto
  then have "rm_rows (fst (run_projection env ies (NewMemoryReadModel, x))) = foldl project1 Map.empty evs"
    using run_projection_spec [OF assms(1), of env NewMemoryReadModel x] assms(2) by (simp add: NewMemoryReadModel_def)
  then show ?thesis
    using projection_follows [OF assms(3)] by (cases so) (simp_all add: ReadModel_GetByID_def)
qed

definition demo_integration :: "customer_event \<Rightarrow> Event" where
  "demo_integration e = the (case ToIntegrationEvent demo_rand (OfCustomer e) [] of (Return ie, w) \<Rightarrow> ie)"

lemma demo_integration_encodes: "encodes e (demo_integration e)"
proof -
  obtain ie where "ToIntegrationEvent demo_rand (OfCustomer e) [] = (Return (Some ie), [])"
    by (cases e) (simp_all add: integration_base_def New_def demo_rand_def)
  then show ?thesis using mapped_encodes by (simp add: demo_integration_def)
qed

definition ada_history :: "customer_event list" where
  "ada_history = [CustomerCreated ''c-1'' ''Ada'' ''ada@example.com'' 5, CustomerEmailChanged ''c-1'' ''ada@example.com'' ''ada@new.com'' 6]"

lemma ada_history_tells:
  "tells (filter (\<lambda>e. customer_AggregateID e = ''c-1'') ada_history)
    (Some \<lparr>snap_ID = ''c-1'', snap_Name = ''Ada'', snap_Email = ''ada@new.com'', snap_Status = StatusActive, snap_CreatedAt = 5, snap_Version = 2\<rparr>)"
proof -
  have "tells ([] @ [CustomerCreated ''c-1'' ''Ada'' ''ada@example.com'' 5]) (Some \<lparr>snap_ID = ''c-1'', snap_Name = ''Ada'',
      snap_Email = ''ada@example.com'', snap_Status = StatusActive, snap_CreatedAt = 5, snap_Version = 1\<rparr>)"
    by (rule tells.step [OF tells.start]) simp
  from tells.step [OF this, of "CustomerEmailChanged ''c-1'' ''ada@example.com'' ''ada@new.com'' 6"] show ?thesis
    by (simp add: ada_history_def wrap64_id)
qed

lemma ada_history_utf8: "\<forall>e \<in> set ada_history. customer_OccurredAt e \<noteq> zero_time \<and> event_utf8 e = e"
proof -
  have "valid_utf8 ''c-1''" "valid_utf8 ''Ada''" "valid_utf8 ''ada@example.com''" "valid_utf8 ''ada@new.com''"
    by (simp_all add: valid_utf8_ascii ascii_def)
  then show ?thesis by (simp add: ada_history_def zero_time_def)
qed

theorem projection_shows_the_stored_state_witness:
  "ReadModel_GetByID ''c-1'' (fst (run_projection demo_env (map demo_integration ada_history) (NewMemoryReadModel, []))) =
    Inr \<lparr>dto_ID = ''c-1'', dto_Name = ''Ada'', dto_Email = ''ada@new.com'', dto_Status = ''active'', dto_CreatedAt = 5\<rparr>"
proof -
  have "list_all2 encodes ada_history (map demo_integration ada_history)"
    by (simp add: list_all2_map2 demo_integration_encodes list.rel_refl)
  from projection_shows_the_stored_state [OF this ada_history_utf8 ada_history_tells] show ?thesis
    by (simp add: view_def)
qed

text \<open>Property C28: the projection tolerates an event delivered twice in a row, but not one redelivered
  later, which at-least-once delivery allows: \<open>onCreated\<close> overwrites the whole row, so a creation seen again
  after a change of address and a deactivation shows the customer with its first address, and active.\<close>

theorem redelivered_creation_reverts_the_row:
  assumes "encodes (CustomerCreated i n a t) c" "encodes (CustomerEmailChanged i a b t') ch" "encodes (CustomerDeactivated i r t'') d"
    and "t \<noteq> zero_time" "t' \<noteq> zero_time" "t'' \<noteq> zero_time" "valid_utf8 i"
  shows "(\<exists>row. ReadModel_GetByID i (fst (run_projection env [c, ch, d] mx)) = Inr row \<and>
            dto_Email row = to_utf8 b \<and> dto_Status row = ''inactive'') \<and>
    (\<exists>row. ReadModel_GetByID i (fst (run_projection env [c, ch, d, c] mx)) = Inr row \<and>
            dto_Email row = to_utf8 a \<and> dto_Status row = ''active'') \<and>
    run_projection env [c, c, ch, ch, d, d] mx = run_projection env [c, ch, d] mx"
proof -
  obtain m x where mx: "mx = (m, x)" by (cases mx)
  let ?evs = "[CustomerCreated i n a t, CustomerEmailChanged i a b t', CustomerDeactivated i r t'']"
  let ?twice = "[CustomerCreated i n a t, CustomerCreated i n a t, CustomerEmailChanged i a b t', CustomerEmailChanged i a b t',
      CustomerDeactivated i r t'', CustomerDeactivated i r t'']"
  have 1: "run_projection env [c, ch, d] mx = (m\<lparr>rm_rows := foldl project1 (rm_rows m) (map event_utf8 ?evs)\<rparr>, x)"
    unfolding mx by (rule run_projection_spec) (use assms in simp_all)
  have 2: "run_projection env [c, ch, d, c] mx = (m\<lparr>rm_rows := foldl project1 (rm_rows m) (map event_utf8 (?evs @ [CustomerCreated i n a t]))\<rparr>, x)"
    unfolding mx by (rule run_projection_spec) (use assms in simp_all)
  have 3: "run_projection env [c, c, ch, ch, d, d] mx = (m\<lparr>rm_rows := foldl project1 (rm_rows m) (map event_utf8 ?twice)\<rparr>, x)"
    unfolding mx by (rule run_projection_spec) (use assms in simp_all)
  show ?thesis using assms(7) by (simp add: 1 2 3 ReadModel_GetByID_def)
qed

theorem redelivered_creation_reverts_the_row_witness:
  "\<exists>row. ReadModel_GetByID ''c-1'' (fst (run_projection demo_env
      (map demo_integration [CustomerCreated ''c-1'' ''Ada'' ''a@b.c'' 5, CustomerEmailChanged ''c-1'' ''a@b.c'' ''x@y.z'' 6,
         CustomerDeactivated ''c-1'' ''bye'' 7, CustomerCreated ''c-1'' ''Ada'' ''a@b.c'' 5]) (NewMemoryReadModel, []))) = Inr row \<and>
    dto_Email row = ''a@b.c'' \<and> dto_Status row = ''active''"
proof -
  have "valid_utf8 ''c-1''" "valid_utf8 ''a@b.c''" by (simp_all add: valid_utf8_ascii ascii_def)
  then show ?thesis
    using redelivered_creation_reverts_the_row
      [where i = "''c-1''" and n = "''Ada''" and a = "''a@b.c''" and b = "''x@y.z''" and r = "''bye''" and t = 5 and t' = 6 and t'' = 7
        and env = demo_env and mx = "(NewMemoryReadModel, [])",
       OF demo_integration_encodes demo_integration_encodes demo_integration_encodes]
    by (simp add: zero_time_def)
qed

end
