(* ===== verification/CustomerServer.thy ===== *)
theory CustomerServer
  imports CustomerCommands Projections
begin

text \<open>
  The gRPC delivery adapter of the customer context (\<open>internal/customer/interfaces/grpc/server.go\<close>): requests
  become commands and queries, results become responses, errors become statuses. The generated message types
  are records of the fields the adapter reads and writes; \<open>timestamppb.New\<close> and \<open>grpc.SetHeader\<close> belong to
  libraries outside the repository and are parameters.
\<close>

text \<open>A conversion to \<open>int32\<close> keeps the low 32 bits.\<close>

definition int32 :: "int \<Rightarrow> int" where
  "int32 x = (x + 2 ^ 31) mod 2 ^ 32 - 2 ^ 31"

lemma int32_id [wrap_simps]: "- (2 ^ 31) \<le> x \<Longrightarrow> x < 2 ^ 31 \<Longrightarrow> int32 x = x"
  by (simp add: int32_def)

definition HTTPStatusMetadataKey :: string where
  "HTTPStatusMetadataKey = ''x-http-code''"

definition LocationMetadataKey :: string where
  "LocationMetadataKey = ''location''"

record CreateCustomerRequest =
  creq_Name :: string
  creq_Email :: string

record CreateCustomerResponse =
  cresp_Id :: string

record GetCustomerRequest =
  greq_Id :: string

record ListCustomersRequest =
  lreq_Limit :: int
  lreq_Offset :: int

record ChangeCustomerEmailRequest =
  ereq_Id :: string
  ereq_Email :: string

record 'ts ProtoCustomer =
  pb_Id :: string
  pb_Name :: string
  pb_Email :: string
  pb_Status :: string
  pb_CreatedAt :: 'ts

record 'ts ListCustomersResponse =
  lresp_Items :: "'ts ProtoCustomer list"
  lresp_Total :: int
  lresp_Limit :: int
  lresp_Offset :: int

record ('w, 'ts) CustomerServer =
  srv_create :: "CreateCustomer \<Rightarrow> (CreateCustomerResult result, 'w) action"
  srv_changeEmail :: "ChangeCustomerEmail \<Rightarrow> (gerr option, 'w) action"
  srv_get :: "GetCustomer \<Rightarrow> (DtoCustomer result, 'w) action"
  srv_list :: "ListCustomers \<Rightarrow> (DtoCustomer Page_Result result, 'w) action"
  srv_SetHeader :: "(string \<times> string) list \<Rightarrow> 'w \<Rightarrow> gerr option \<times> 'w"
  srv_timestamp :: "gotime \<Rightarrow> 'ts"

definition mapError :: "gerr \<Rightarrow> gerr" where
  "mapError err =
    (if errors_Is err ErrNotFound then StatusError NotFound (error_text err)
     else if errors_Is err ErrConflict then StatusError AlreadyExists (error_text err)
     else if errors_Is err ErrValidation then StatusError InvalidArgument (error_text err)
     else if errors_Is err ErrPermission then StatusError PermissionDenied (error_text err)
     else StatusError Internal ''internal server error'')"

definition toProto :: "(gotime \<Rightarrow> 'ts) \<Rightarrow> DtoCustomer \<Rightarrow> 'ts ProtoCustomer" where
  "toProto ts c =
    \<lparr>pb_Id = dto_ID c, pb_Name = dto_Name c, pb_Email = dto_Email c, pb_Status = dto_Status c,
     pb_CreatedAt = ts (dto_CreatedAt c)\<rparr>"

definition Server_CreateCustomer ::
  "('w, 'ts) CustomerServer \<Rightarrow> CreateCustomerRequest \<Rightarrow> (CreateCustomerResponse result, 'w) action" where
  "Server_CreateCustomer srv req w =
    (case srv_create srv \<lparr>create_Name = creq_Name req, create_Email = creq_Email req\<rparr> w of
      (Panic p, w') \<Rightarrow> (Panic p, w')
    | (Return (Inl err), w') \<Rightarrow> (Return (Inl (mapError err)), w')
    | (Return (Inr res), w') \<Rightarrow>
        (let (_, w'') = srv_SetHeader srv
               [(HTTPStatusMetadataKey, ''201''), (LocationMetadataKey, ''/api/v1/customers/'' @ created_CustomerID res)] w'
         in (Return (Inr \<lparr>cresp_Id = created_CustomerID res\<rparr>), w'')))"

definition Server_GetCustomer ::
  "('w, 'ts) CustomerServer \<Rightarrow> GetCustomerRequest \<Rightarrow> ('ts ProtoCustomer result, 'w) action" where
  "Server_GetCustomer srv req w =
    (case srv_get srv \<lparr>get_CustomerID = greq_Id req\<rparr> w of
      (Panic p, w') \<Rightarrow> (Panic p, w')
    | (Return (Inl err), w') \<Rightarrow> (Return (Inl (mapError err)), w')
    | (Return (Inr res), w') \<Rightarrow> (Return (Inr (toProto (srv_timestamp srv) res)), w'))"

definition Server_ListCustomers ::
  "('w, 'ts) CustomerServer \<Rightarrow> ListCustomersRequest \<Rightarrow> ('ts ListCustomersResponse result, 'w) action" where
  "Server_ListCustomers srv req w =
    (case srv_list srv \<lparr>list_Page = Page_New (lreq_Limit req) (lreq_Offset req)\<rparr> w of
      (Panic p, w') \<Rightarrow> (Panic p, w')
    | (Return (Inl err), w') \<Rightarrow> (Return (Inl (mapError err)), w')
    | (Return (Inr res), w') \<Rightarrow>
        (Return (Inr \<lparr>lresp_Items = map (toProto (srv_timestamp srv)) (res_Items res), lresp_Total = int32 (res_Total res),
           lresp_Limit = int32 (res_Limit res), lresp_Offset = int32 (res_Offset res)\<rparr>), w'))"

definition Server_ChangeCustomerEmail ::
  "('w, 'ts) CustomerServer \<Rightarrow> ChangeCustomerEmailRequest \<Rightarrow> (unit result, 'w) action" where
  "Server_ChangeCustomerEmail srv req w =
    (case srv_changeEmail srv \<lparr>change_CustomerID = ereq_Id req, change_NewEmail = ereq_Email req\<rparr> w of
      (Panic p, w') \<Rightarrow> (Panic p, w')
    | (Return (Some err), w') \<Rightarrow> (Return (Inl (mapError err)), w')
    | (Return None, w') \<Rightarrow> (Return (Inr ()), w'))"

subsection \<open>Statuses\<close>

definition status_code :: "gerr \<Rightarrow> grpc_code option" where
  "status_code e = (case e of StatusError c m \<Rightarrow> Some c | _ \<Rightarrow> None)"

lemma mapError_status: "\<exists>c m. mapError err = StatusError c m"
  by (simp add: mapError_def)

text \<open>Every error leaves the adapter as a status whose code is decided by what the error is,
  however it is wrapped: a missing customer is NotFound, a conflict AlreadyExists, a rejected input
  InvalidArgument, a refused permission PermissionDenied. Any other error becomes Internal with a fixed text: nothing of
  an unexpected error reaches the caller.\<close>

theorem mapError_codes:
  "status_code (mapError (WrapError msg e)) = status_code (mapError e) \<and>
   (status_code (mapError err) = Some NotFound) = errors_Is err ErrNotFound \<and>
   (status_code (mapError err) = Some AlreadyExists) = (errors_Is err ErrConflict \<and> \<not> errors_Is err ErrNotFound) \<and>
   (status_code (mapError err) = Some InvalidArgument) =
     (errors_Is err ErrValidation \<and> \<not> errors_Is err ErrConflict \<and> \<not> errors_Is err ErrNotFound) \<and>
   (\<not> errors_Is err ErrNotFound \<and> \<not> errors_Is err ErrConflict \<and> \<not> errors_Is err ErrValidation \<and> \<not> errors_Is err ErrPermission) =
     (mapError err = StatusError Internal ''internal server error'')"
  by (simp add: mapError_def status_code_def)

end
