(* ===== verification/PlatformLog.thy ===== *)
theory PlatformLog
  imports AppConfig CustomerServer
begin

text \<open>
  Logging of the platform: the logger that \<open>internal/platform/observability\<close> builds from the configuration, and the
  request-scoped logger that \<open>internal/shared/infrastructure/logging\<close> carries in a context. A logger is its least level,
  its format and the attributes attached by \<open>With\<close>; records below its level are dropped, as \<open>log/slog\<close> does.
  Where the records go is the \<open>log_write\<close> of an environment.
\<close>

record Logger =
  lg_level :: log_level
  lg_json :: bool
  lg_attrs :: "(string \<times> log_attr) list"

fun level_number :: "log_level \<Rightarrow> int" where
  "level_number LevelDebug = - 4"
| "level_number LevelInfo = 0"
| "level_number LevelWarn = 4"
| "level_number LevelError = 8"

definition Enabled :: "Logger \<Rightarrow> log_level \<Rightarrow> bool" where
  "Enabled lg l \<longleftrightarrow> level_number (lg_level lg) \<le> level_number l"

definition Logger_With :: "Logger \<Rightarrow> (string \<times> log_attr) list \<Rightarrow> Logger" where
  "Logger_With lg as = lg\<lparr>lg_attrs := lg_attrs lg @ as\<rparr>"

definition Logger_Log :: "'w env \<Rightarrow> Logger \<Rightarrow> log_level \<Rightarrow> string \<Rightarrow> (string \<times> log_attr) list \<Rightarrow> 'w \<Rightarrow> 'w" where
  "Logger_Log env lg l msg as w = (if Enabled lg l then log_write env (log_rec l msg (lg_attrs lg @ as)) w else w)"

text \<open>\<open>NewLogger\<close>; what it returns is also the default logger from then on.\<close>

definition NewLogger :: "LogConfig \<Rightarrow> Logger" where
  "NewLogger cfg =
    \<lparr>lg_level =
       (if log_Level cfg = ''debug'' then LevelDebug else if log_Level cfg = ''warn'' then LevelWarn
        else if log_Level cfg = ''error'' then LevelError else LevelInfo),
     lg_json = (log_Format cfg = ''json''), lg_attrs = []\<rparr>"

subsection \<open>The logger of a context\<close>

text \<open>A context, as far as this package looks at it: the logger stored in it, if any.\<close>

record Context =
  ctx_logger :: "Logger option"

definition Background :: Context where
  "Background = \<lparr>ctx_logger = None\<rparr>"

definition logging_Into :: "Context \<Rightarrow> Logger \<Rightarrow> Context" where
  "logging_Into ctx lg = ctx\<lparr>ctx_logger := Some lg\<rparr>"

definition logging_From :: "Logger \<Rightarrow> Context \<Rightarrow> Logger" where
  "logging_From dlog ctx = (case ctx_logger ctx of Some l \<Rightarrow> l | None \<Rightarrow> dlog)"

definition logging_With :: "Logger \<Rightarrow> Context \<Rightarrow> (string \<times> log_attr) list \<Rightarrow> Context" where
  "logging_With dlog ctx args = logging_Into ctx (Logger_With (logging_From dlog ctx) args)"

lemma From_Into [simp]: "logging_From d (logging_Into ctx lg) = lg"
  by (simp add: logging_From_def logging_Into_def)

lemma From_With: "logging_From d (logging_With d ctx as) = Logger_With (logging_From d ctx) as"
  by (simp add: logging_With_def)

lemma Logger_With_With: "Logger_With (Logger_With lg as) bs = Logger_With lg (as @ bs)"
  by (simp add: Logger_With_def)

lemma Enabled_With [simp]: "Enabled (Logger_With lg as) l = Enabled lg l"
  by (simp add: Logger_With_def Enabled_def)

lemma Enabled_Error [simp]: "Enabled lg LevelError"
  by (cases "lg_level lg") (simp_all add: Enabled_def)

end
