(* ===== verification/HttpStack.thy ===== *)
theory HttpStack
  imports PlatformLog
begin

text \<open>
  The HTTP stack of \<open>internal/platform/httpx\<close>: the middleware that decorates every handler, and the parts of
  \<open>net/http\<close> it works on. A response writer is the connection's own or a \<open>statusWriter\<close> around another; those
  live at addresses in the state of the exchange, beside what has been sent. Only a write to a broken connection is
  left out: a permitted write takes all its bytes.
\<close>

subsection \<open>Headers, requests and responses of the standard library\<close>

definition token_char :: "char \<Rightarrow> bool" where
  "token_char c \<longleftrightarrow> c \<in> set ''!#$%&*+-.^_`|~0123456789abcdefghijklmnopqrstuvwxyzABCDEFGHIJKLMNOPQRSTUVWXYZ'' \<or> c = CHR 0x27"

definition upper_char :: "char \<Rightarrow> char" where
  "upper_char c = (if 97 \<le> (of_char c :: nat) \<and> (of_char c :: nat) \<le> 122 then char_of ((of_char c :: nat) - 32) else c)"

definition lower_char :: "char \<Rightarrow> char" where
  "lower_char c = (if 65 \<le> (of_char c :: nat) \<and> (of_char c :: nat) \<le> 90 then char_of ((of_char c :: nat) + 32) else c)"

fun canonical_chars :: "bool \<Rightarrow> string \<Rightarrow> string" where
  "canonical_chars up [] = []"
| "canonical_chars up (c # cs) = (if up then upper_char c else lower_char c) # canonical_chars (c = CHR ''-'') cs"

definition CanonicalHeaderKey :: "string \<Rightarrow> string" where
  "CanonicalHeaderKey s = (if list_all token_char s then canonical_chars True s else s)"

type_synonym Header = "string \<rightharpoonup> string list"

definition Header_Get :: "Header \<Rightarrow> string \<Rightarrow> string" where
  "Header_Get h k = (case h (CanonicalHeaderKey k) of Some (v # vs) \<Rightarrow> v | _ \<Rightarrow> [])"

definition Header_Set :: "string \<Rightarrow> string \<Rightarrow> Header \<Rightarrow> Header" where
  "Header_Set k v h = h(CanonicalHeaderKey k \<mapsto> [v])"

record Request =
  rq_Method :: string
  rq_Path :: string
  rq_Header :: Header
  rq_ctx :: Context

datatype writer = NetWriter | StatusWriter nat writer

record statusWriter =
  sw_status :: int
  sw_written :: int

text \<open>An exchange: the header map of the response, what was sent, and the status writers made on the way.\<close>

record Exchange =
  ex_header :: Header
  ex_sent :: "(int \<times> Header) option"
  ex_body :: string
  ex_writers :: "statusWriter list"

definition new_exchange :: Exchange where
  "new_exchange = \<lparr>ex_header = Map.empty, ex_sent = None, ex_body = [], ex_writers = []\<rparr>"

text \<open>The first final status is sent with the headers as they are then; a later one is superfluous and ignored.\<close>

definition net_WriteHeader :: "int \<Rightarrow> (unit, Exchange) action" where
  "net_WriteHeader code s =
    (if ex_sent s \<noteq> None then (Return (), s)
     else if code < 100 \<or> 999 < code then (Panic (''invalid WriteHeader code '' @ Itoa code), s)
     else if code < 200 \<and> code \<noteq> 101 then (Return (), s)
     else (Return (), s\<lparr>ex_sent := Some (code, ex_header s)\<rparr>))"

definition body_allowed :: "int \<Rightarrow> bool" where
  "body_allowed code \<longleftrightarrow> \<not> (100 \<le> code \<and> code \<le> 199) \<and> code \<noteq> 204 \<and> code \<noteq> 304"

definition net_Write :: "string \<Rightarrow> Exchange \<Rightarrow> (int \<times> gerr option) \<times> Exchange" where
  "net_Write b s =
    (let s1 = snd (net_WriteHeader 200 s)
     in if b = [] then ((0, None), s1)
        else if \<not> body_allowed (fst (the (ex_sent s1))) then
          ((0, Some (ErrorString ''http: request method or response status code does not allow body'')), s1)
        else ((int (length b), None), s1\<lparr>ex_body := ex_body s1 @ b\<rparr>))"

subsection \<open>The status writer\<close>

text \<open>\<open>WriteHeader\<close> and \<open>Write\<close> of a response writer; those of a \<open>statusWriter\<close> are the repository's.\<close>

definition sw_update :: "nat \<Rightarrow> (statusWriter \<Rightarrow> statusWriter) \<Rightarrow> Exchange \<Rightarrow> Exchange" where
  "sw_update i f s = s\<lparr>ex_writers := (ex_writers s)[i := f (ex_writers s ! i)]\<rparr>"

fun WriteHeader :: "writer \<Rightarrow> int \<Rightarrow> (unit, Exchange) action" where
  "WriteHeader NetWriter code s = net_WriteHeader code s"
| "WriteHeader (StatusWriter i w) code s = WriteHeader w code (sw_update i (\<lambda>x. x\<lparr>sw_status := code\<rparr>) s)"

fun Writer_Write :: "writer \<Rightarrow> string \<Rightarrow> Exchange \<Rightarrow> (int \<times> gerr option) \<times> Exchange" where
  "Writer_Write NetWriter b s = net_Write b s"
| "Writer_Write (StatusWriter i w) b s =
    (let ((n, err), s1) = Writer_Write w b s
     in ((n, err), sw_update i (\<lambda>x. x\<lparr>sw_written := wrap64 (sw_written x + n)\<rparr>) s1))"

subsection \<open>Middleware\<close>

type_synonym 'x http_handler = "writer \<Rightarrow> Request \<Rightarrow> (unit, Exchange \<times> 'x) action"
type_synonym 'x http_middleware = "'x http_handler \<Rightarrow> 'x http_handler"

text \<open>The loop of \<open>Apply\<close> runs from the last middleware to the first.\<close>

fun http_Apply :: "'x http_handler \<Rightarrow> 'x http_middleware list \<Rightarrow> 'x http_handler" where
  "http_Apply h [] = h"
| "http_Apply h (m # mw) = m (http_Apply h mw)"

definition RequestIDHeader :: string where
  "RequestIDHeader = ''X-Request-ID''"

definition RequestID :: "'x entropy \<Rightarrow> Logger \<Rightarrow> 'x http_middleware" where
  "RequestID rand logger next w r sx =
    (let rid0 = Header_Get (rq_Header r) RequestIDHeader
     in case (if rid0 = [] then New rand (snd sx) else (Return rid0, snd sx)) of
          (Panic p, x1) \<Rightarrow> (Panic p, (fst sx, x1))
        | (Return rid, x1) \<Rightarrow>
            (let s1 = (fst sx)\<lparr>ex_header := Header_Set RequestIDHeader rid (ex_header (fst sx))\<rparr>;
                 ctx = logging_Into (rq_ctx r) (Logger_With logger [(''request_id'', AttrText rid)])
             in next w (r\<lparr>rq_ctx := ctx\<rparr>) (s1, x1)))"

definition panic_body :: string where
  "panic_body =
    CHR 0x7B # [CHR 0x22] @ ''error'' @ [CHR 0x22] @ '':'' @ [CHR 0x7B, CHR 0x22] @ ''code'' @ [CHR 0x22] @ '':'' @ [CHR 0x22] @
    ''internal'' @ [CHR 0x22] @ '','' @ [CHR 0x22] @ ''message'' @ [CHR 0x22] @ '':'' @ [CHR 0x22] @ ''internal server error'' @
    [CHR 0x22, CHR 0x7D, CHR 0x7D]"

definition http_Recover :: "'x env \<Rightarrow> Logger \<Rightarrow> 'x http_middleware" where
  "http_Recover env dlog next w r sx =
    (case next w r sx of
      (Return u, sx') \<Rightarrow> (Return u, sx')
    | (Panic p, (s1, x1)) \<Rightarrow>
        (let x2 = Logger_Log env (logging_From dlog (rq_ctx r)) LevelError ''panic serving request''
               [(''method'', AttrText (rq_Method r)), (''path'', AttrText (rq_Path r)), (''panic'', AttrText p)] x1
         in case WriteHeader w 500 s1 of
              (Panic q, s2) \<Rightarrow> (Panic q, (s2, x2))
            | (Return u, s2) \<Rightarrow> (Return (), (snd (Writer_Write w panic_body s2), x2))))"

definition http_AccessLog :: "'x env \<Rightarrow> Logger \<Rightarrow> 'x http_middleware" where
  "http_AccessLog env dlog next w r sx =
    (let (start, x1) = clock_now env (snd sx);
         i = length (ex_writers (fst sx));
         s1 = (fst sx)\<lparr>ex_writers := ex_writers (fst sx) @ [\<lparr>sw_status = 200, sw_written = 0\<rparr>]\<rparr>
     in case next (StatusWriter i w) r (s1, x1) of
          (Panic p, sx2) \<Rightarrow> (Panic p, sx2)
        | (Return u, (s2, x2)) \<Rightarrow>
            (let (stop, x3) = clock_now env x2; sw = ex_writers s2 ! i
             in (Return (), (s2, Logger_Log env (logging_From dlog (rq_ctx r)) LevelInfo ''http request''
                  [(''method'', AttrText (rq_Method r)), (''path'', AttrText (rq_Path r)), (''status'', AttrInt (sw_status sw)),
                   (''bytes'', AttrInt (sw_written sw)), (''duration_ms'', AttrInt (Milliseconds (stop - start)))] x3))))"

subsection \<open>What a handler does to an exchange\<close>

text \<open>
  A handler talks to the client by operations on its writer; what it does otherwise it does to the rest of the state.
  \<open>scripted f\<close> is the handler that, for a request and a state, performs the operations that \<open>f\<close> gives and then
  returns or panics.
\<close>

datatype writer_op = SetHeader string string | SendStatus int | SendBytes string

fun run_op :: "writer \<Rightarrow> writer_op \<Rightarrow> (unit, Exchange) action" where
  "run_op w (SetHeader k v) s = (Return (), s\<lparr>ex_header := Header_Set k v (ex_header s)\<rparr>)"
| "run_op w (SendStatus c) s = WriteHeader w c s"
| "run_op w (SendBytes b) s = (Return (), snd (Writer_Write w b s))"

fun run_ops :: "writer \<Rightarrow> writer_op list \<Rightarrow> (unit, Exchange) action" where
  "run_ops w [] s = (Return (), s)"
| "run_ops w (oper # ops) s =
    (case run_op w oper s of (Panic p, s') \<Rightarrow> (Panic p, s') | (Return u, s') \<Rightarrow> run_ops w ops s')"

definition scripted :: "(Request \<Rightarrow> 'x \<Rightarrow> writer_op list \<times> string option \<times> 'x) \<Rightarrow> 'x http_handler" where
  "scripted f w r sx =
    (let (ops, p, x') = f r (snd sx)
     in case run_ops w ops (fst sx) of
          (Panic q, s') \<Rightarrow> (Panic q, (s', x'))
        | (Return u, s') \<Rightarrow> ((case p of None \<Rightarrow> Return () | Some q \<Rightarrow> Panic q), (s', x')))"

text \<open>The operations considered: final statuses, and no replacement of the request identifier.\<close>

fun op_ok :: "writer_op \<Rightarrow> bool" where
  "op_ok (SetHeader k v) = (CanonicalHeaderKey k \<noteq> ''X-Request-Id'')"
| "op_ok (SendStatus c) = (200 \<le> c \<and> c \<le> 999)"
| "op_ok (SendBytes b) = True"

text \<open>The status the client gets is the first one sent; the one the status writer remembers is the last one.\<close>

fun client_status :: "writer_op list \<Rightarrow> int option" where
  "client_status [] = None"
| "client_status (SetHeader k v # ops) = client_status ops"
| "client_status (SendStatus c # ops) = Some c"
| "client_status (SendBytes b # ops) = Some 200"

fun last_status :: "int \<Rightarrow> writer_op list \<Rightarrow> int" where
  "last_status st [] = st"
| "last_status st (SendStatus c # ops) = last_status c ops"
| "last_status st (SetHeader k v # ops) = last_status st ops"
| "last_status st (SendBytes b # ops) = last_status st ops"

definition first_of :: "'a option \<Rightarrow> 'a option \<Rightarrow> 'a option" where
  "first_of a b = (case a of None \<Rightarrow> b | Some c \<Rightarrow> Some c)"

definition tracked :: "string \<Rightarrow> int \<Rightarrow> Exchange \<Rightarrow> bool" where
  "tracked rid st s \<longleftrightarrow>
    ex_writers s = [\<lparr>sw_status = st, sw_written = wrap64 (int (length (ex_body s)))\<rparr>] \<and>
    ex_header s ''X-Request-Id'' = Some [rid] \<and>
    (\<forall>c h. ex_sent s = Some (c, h) \<longrightarrow> h ''X-Request-Id'' = Some [rid])"

abbreviation logged_writer :: writer where
  "logged_writer \<equiv> StatusWriter 0 NetWriter"

lemma WriteHeader_tracked:
  assumes "tracked rid st s" "200 \<le> c" "c \<le> 999"
  shows "\<exists>s'. WriteHeader logged_writer c s = (Return (), s') \<and> tracked rid c s' \<and>
    map_option fst (ex_sent s') = first_of (map_option fst (ex_sent s)) (Some c) \<and> ex_body s' = ex_body s"
  using assms by (auto simp: tracked_def net_WriteHeader_def sw_update_def first_of_def split: option.split)

lemma wrap64_add_left: "wrap64 (wrap64 a + b) = wrap64 (a + b)"
proof -
  have "(((a + 2 ^ 63) mod 2 ^ 64 - 2 ^ 63) + b + 2 ^ 63) mod (2 ^ 64 :: int) = (a + b + 2 ^ 63) mod 2 ^ 64"
    by (simp add: mod_simps algebra_simps)
  then show ?thesis by (simp add: wrap64_def)
qed

lemma wrap64_wrap64: "wrap64 (wrap64 a) = wrap64 a"
  using wrap64_add_left [of a 0] by simp

lemma Write_tracked:
  assumes "tracked rid st s"
  shows "tracked rid st (snd (Writer_Write logged_writer b s)) \<and>
    map_option fst (ex_sent (snd (Writer_Write logged_writer b s))) = first_of (map_option fst (ex_sent s)) (Some 200)"
  using assms
  by (auto simp: tracked_def net_Write_def net_WriteHeader_def sw_update_def first_of_def Let_def wrap64_add_left wrap64_wrap64
      split: option.split)

lemma run_ops_tracked:
  assumes "tracked rid st s" "list_all op_ok ops"
  shows "\<exists>s'. run_ops logged_writer ops s = (Return (), s') \<and> tracked rid (last_status st ops) s' \<and>
    map_option fst (ex_sent s') = first_of (map_option fst (ex_sent s)) (client_status ops)"
  using assms
proof (induction ops arbitrary: st s)
  case Nil
  then show ?case by (simp add: first_of_def split: option.split)
next
  case (Cons oper ops)
  show ?case
  proof (cases oper)
    case (SetHeader k v)
    let ?s = "s\<lparr>ex_header := Header_Set k v (ex_header s)\<rparr>"
    have "tracked rid st ?s" using Cons.prems SetHeader by (auto simp: tracked_def Header_Set_def)
    from Cons.IH [OF this] Cons.prems SetHeader show ?thesis by simp
  next
    case (SendStatus c)
    then obtain s1 where s1: "WriteHeader logged_writer c s = (Return (), s1)" "tracked rid c s1"
      "map_option fst (ex_sent s1) = first_of (map_option fst (ex_sent s)) (Some c)"
      using WriteHeader_tracked [OF Cons.prems(1), of c] Cons.prems(2) by auto
    from Cons.IH [OF s1(2)] Cons.prems(2) obtain s2 where "run_ops logged_writer ops s1 = (Return (), s2)"
      "tracked rid (last_status c ops) s2" "map_option fst (ex_sent s2) = first_of (map_option fst (ex_sent s1)) (client_status ops)"
      by auto
    with s1(1,3) SendStatus show ?thesis by (simp del: WriteHeader.simps add: first_of_def split: option.split)
  next
    case (SendBytes b)
    let ?s1 = "snd (Writer_Write logged_writer b s)"
    have s1: "tracked rid st ?s1" "map_option fst (ex_sent ?s1) = first_of (map_option fst (ex_sent s)) (Some 200)"
      using Write_tracked [OF Cons.prems(1), of b] by blast+
    from Cons.IH [OF s1(1)] Cons.prems(2) obtain s2 where "run_ops logged_writer ops ?s1 = (Return (), s2)"
      "tracked rid (last_status st ops) s2" "map_option fst (ex_sent s2) = first_of (map_option fst (ex_sent ?s1)) (client_status ops)"
      by auto
    with s1(2) SendBytes show ?thesis by (simp del: Writer_Write.simps add: first_of_def split: option.split)
  qed
qed

text \<open>The stack of the API process around a handler, for requests that arrive on a connection.\<close>

definition http_stack :: "'x env \<Rightarrow> 'x entropy \<Rightarrow> Logger \<Rightarrow> 'x http_handler \<Rightarrow> 'x http_handler" where
  "http_stack env rand logger h = http_Apply h [RequestID rand logger, http_AccessLog env logger, http_Recover env logger]"

definition panic_record :: "'x env \<Rightarrow> Logger \<Rightarrow> Request \<Rightarrow> string option \<Rightarrow> 'x \<Rightarrow> 'x" where
  "panic_record env lg r p x =
    (case p of None \<Rightarrow> x
     | Some q \<Rightarrow> Logger_Log env lg LevelError ''panic serving request''
         [(''method'', AttrText (rq_Method r)), (''path'', AttrText (rq_Path r)), (''panic'', AttrText q)] x)"

definition access_record :: "'x env \<Rightarrow> Logger \<Rightarrow> Request \<Rightarrow> int \<Rightarrow> int \<Rightarrow> gotime \<Rightarrow> 'x \<Rightarrow> 'x" where
  "access_record env lg r st n start x =
    (let (stop, x') = clock_now env x
     in Logger_Log env lg LevelInfo ''http request''
       [(''method'', AttrText (rq_Method r)), (''path'', AttrText (rq_Path r)), (''status'', AttrInt st),
        (''bytes'', AttrInt n), (''duration_ms'', AttrInt (Milliseconds (stop - start)))] x')"

lemma recover_scripted:
  assumes "tracked rid 200 s" "f r x = (ops, p, x')" "list_all op_ok ops"
  shows "\<exists>s'. http_Recover env dlog (scripted f) logged_writer r (s, x) =
      (Return (), (s', panic_record env (logging_From dlog (rq_ctx r)) r p x')) \<and>
    tracked rid (if p = None then last_status 200 ops else 500) s' \<and>
    map_option fst (ex_sent s') = first_of (map_option fst (ex_sent s)) (first_of (client_status ops) (if p = None then None else Some 500))"
proof -
  obtain s1 where s1: "run_ops logged_writer ops s = (Return (), s1)" "tracked rid (last_status 200 ops) s1"
    "map_option fst (ex_sent s1) = first_of (map_option fst (ex_sent s)) (client_status ops)"
    using run_ops_tracked [OF assms(1,3)] by blast
  show ?thesis
  proof (cases p)
    case None
    then show ?thesis using s1 assms(2)
      by (auto simp: http_Recover_def scripted_def panic_record_def first_of_def split: option.splits)
  next
    case (Some q)
    obtain s2 where s2: "WriteHeader logged_writer 500 s1 = (Return (), s2)" "tracked rid 500 s2"
      "map_option fst (ex_sent s2) = first_of (map_option fst (ex_sent s1)) (Some 500)"
      using WriteHeader_tracked [OF s1(2), of 500] by auto
    let ?s3 = "snd (Writer_Write logged_writer panic_body s2)"
    have s3: "tracked rid 500 ?s3" "map_option fst (ex_sent ?s3) = map_option fst (ex_sent s2)"
      using Write_tracked [OF s2(2), of panic_body] s2(3) by (auto simp: first_of_def split: option.splits)
    have "http_Recover env dlog (scripted f) logged_writer r (s, x) =
        (Return (), (?s3, panic_record env (logging_From dlog (rq_ctx r)) r p x'))"
      using s1(1) s2(1) assms(2) Some
      by (simp del: Writer_Write.simps WriteHeader.simps add: http_Recover_def scripted_def panic_record_def)
    moreover have "map_option fst (ex_sent ?s3) =
        first_of (map_option fst (ex_sent s)) (first_of (client_status ops) (Some 500))"
      using s3(2) s2(3) s1(3) by (simp add: first_of_def split: option.split)
    ultimately show ?thesis using s3(1) Some by auto
  qed
qed

lemma canonical_id: "CanonicalHeaderKey RequestIDHeader = ''X-Request-Id''"
  by code_simp

lemma RequestID_step:
  assumes "(if Header_Get (rq_Header r) RequestIDHeader = [] then New rand x else (Return (Header_Get (rq_Header r) RequestIDHeader), x)) =
      (Return rid, x0)"
  shows "RequestID rand logger next w r (s, x) =
    next w (r\<lparr>rq_ctx := logging_Into (rq_ctx r) (Logger_With logger [(''request_id'', AttrText rid)])\<rparr>)
      (s\<lparr>ex_header := (ex_header s)(''X-Request-Id'' \<mapsto> [rid])\<rparr>, x0)"
  unfolding RequestID_def Let_def snd_conv assms by (simp add: canonical_id Header_Set_def)

lemma AccessLog_once:
  assumes "clock_now env x = (start, x1)" "ex_writers s = []"
    and "next logged_writer r (s\<lparr>ex_writers := [\<lparr>sw_status = 200, sw_written = 0\<rparr>]\<rparr>, x1) = (Return (), (s', x2))"
    and "tracked rid st s'"
  shows "http_AccessLog env dlog next NetWriter r (s, x) =
    (Return (), (s', access_record env (logging_From dlog (rq_ctx r)) r st (wrap64 (int (length (ex_body s')))) start x2))"
  using assms by (simp add: http_AccessLog_def access_record_def tracked_def Let_def split: prod.split)

lemma http_stack_run:
  assumes "rand_ok rand" "\<And>r x. list_all op_ok (fst (f r x))"
  shows "\<exists>rid x0 s'. (if Header_Get (rq_Header r) ''X-Request-ID'' = [] then length rid = 36
      else rid = Header_Get (rq_Header r) ''X-Request-ID'' \<and> x0 = x) \<and>
    (let lg = Logger_With logger [(''request_id'', AttrText rid)]; r' = r\<lparr>rq_ctx := logging_Into (rq_ctx r) lg\<rparr>;
         (start, x1) = clock_now env x0; (ops, p, x2) = f r' x1
     in http_stack env rand logger (scripted f) NetWriter r (new_exchange, x) =
          (Return (), (s', access_record env lg r (if p = None then last_status 200 ops else 500) (wrap64 (int (length (ex_body s'))))
             start (panic_record env lg r p x2))) \<and>
        map_option fst (ex_sent s') = first_of (client_status ops) (if p = None then None else Some 500)) \<and>
    (case ex_sent s' of None \<Rightarrow> ex_header s' ''X-Request-Id'' = Some [rid] | Some (c, h) \<Rightarrow> h ''X-Request-Id'' = Some [rid])"
proof -
  have "\<exists>rid x0. (if Header_Get (rq_Header r) RequestIDHeader = [] then New rand x else (Return (Header_Get (rq_Header r) RequestIDHeader), x)) =
      (Return rid, x0) \<and> (if Header_Get (rq_Header r) RequestIDHeader = [] then length rid = 36
      else rid = Header_Get (rq_Header r) RequestIDHeader \<and> x0 = x)"
    by (rule rand_okE [OF assms(1), of x]) (simp add: New_def uuid_text_def Let_def)
  then obtain rid x0 where rid: "(if Header_Get (rq_Header r) RequestIDHeader = [] then New rand x
        else (Return (Header_Get (rq_Header r) RequestIDHeader), x)) = (Return rid, x0)"
    "if Header_Get (rq_Header r) RequestIDHeader = [] then length rid = 36
      else rid = Header_Get (rq_Header r) RequestIDHeader \<and> x0 = x" by blast
  define lg r' where "lg = Logger_With logger [(''request_id'', AttrText rid)]" and "r' = r\<lparr>rq_ctx := logging_Into (rq_ctx r) lg\<rparr>"
  obtain start x1 where c: "clock_now env x0 = (start, x1)" by fastforce
  obtain ops p x2 where f: "f r' x1 = (ops, p, x2)" by (cases "f r' x1") auto
  let ?s0 = "new_exchange\<lparr>ex_header := [''X-Request-Id'' \<mapsto> [rid]], ex_writers := [\<lparr>sw_status = 200, sw_written = 0\<rparr>]\<rparr>"
  have t: "tracked rid 200 ?s0" by (simp add: tracked_def new_exchange_def wrap64_id)
  have ok: "list_all op_ok ops" using assms(2) [of r' x1] f by simp
  obtain s' where s': "http_Recover env logger (scripted f) logged_writer r' (?s0, x1) =
      (Return (), (s', panic_record env (logging_From logger (rq_ctx r')) r' p x2))"
    "tracked rid (if p = None then last_status 200 ops else 500) s'"
    "map_option fst (ex_sent s') = first_of (map_option fst (ex_sent ?s0)) (first_of (client_status ops) (if p = None then None else Some 500))"
    using recover_scripted [where f = f, OF t f ok] by blast
  have lg: "logging_From logger (rq_ctx r') = lg" "rq_Method r' = rq_Method r" "rq_Path r' = rq_Path r"
    by (simp_all add: r'_def)
  have a: "http_AccessLog env logger (http_Recover env logger (scripted f)) NetWriter r'
      (new_exchange\<lparr>ex_header := [''X-Request-Id'' \<mapsto> [rid]]\<rparr>, x0) =
      (Return (), (s', access_record env (logging_From logger (rq_ctx r')) r' (if p = None then last_status 200 ops else 500)
        (wrap64 (int (length (ex_body s')))) start (panic_record env (logging_From logger (rq_ctx r')) r' p x2)))"
    by (rule AccessLog_once [OF c _ _ s'(2)]) (use s'(1) in \<open>simp_all add: new_exchange_def\<close>)
  have "http_stack env rand logger (scripted f) NetWriter r (new_exchange, x) =
      http_AccessLog env logger (http_Recover env logger (scripted f)) NetWriter r'
        (new_exchange\<lparr>ex_header := [''X-Request-Id'' \<mapsto> [rid]]\<rparr>, x0)"
    by (simp add: http_stack_def RequestID_step [OF rid(1)] r'_def lg_def new_exchange_def)
  then have "http_stack env rand logger (scripted f) NetWriter r (new_exchange, x) =
      (Return (), (s', access_record env lg r (if p = None then last_status 200 ops else 500) (wrap64 (int (length (ex_body s'))))
             start (panic_record env lg r p x2)))"
    by (simp add: a lg panic_record_def access_record_def split: option.split)
  moreover have "map_option fst (ex_sent s') = first_of (client_status ops) (if p = None then None else Some 500)"
    using s'(3) by (simp add: new_exchange_def first_of_def)
  moreover have "case ex_sent s' of None \<Rightarrow> ex_header s' ''X-Request-Id'' = Some [rid] | Some (c, h) \<Rightarrow> h ''X-Request-Id'' = Some [rid]"
    using s'(2) by (auto simp: tracked_def split: option.split)
  ultimately show ?thesis
    using rid(2) c f by (intro exI [of _ rid] exI [of _ x0] exI [of _ s']) (simp add: RequestIDHeader_def lg_def r'_def Let_def)
qed


text \<open>A handler that has already answered 200 when it panics: the client keeps its 200, the log says 500.\<close>

definition demo_panicking :: "Request \<Rightarrow> string list \<Rightarrow> writer_op list \<times> string option \<times> string list" where
  "demo_panicking r x = ([SendBytes ''ok''], Some ''boom'', x @ [''handled''])"

definition demo_request :: Request where
  "demo_request = \<lparr>rq_Method = ''GET'', rq_Path = ''/healthz'', rq_Header = [''X-Request-Id'' \<mapsto> [''r-1'']], rq_ctx = Background\<rparr>"


end
