(* ===== verification/GrpcStack.thy ===== *)
theory GrpcStack
  imports HttpStack
begin

text \<open>
  The gRPC stack of \<open>internal/platform/grpcx\<close>: the interceptors around every unary call, and the two hooks by which a call
  steers its REST transcoding. An interceptor takes the request, the method name, the handler and the state;
  \<open>ChainUnaryInterceptor\<close> of the gRPC library nests them with the first one outermost. The name
  \<open>status.Code(err).String()\<close> that the library gives to a result is a parameter.
\<close>

type_synonym ('q, 'r, 'w) unary_handler = "'q \<Rightarrow> ('r result, 'w) action"
type_synonym ('q, 'r, 'w) interceptor = "'q \<Rightarrow> string \<Rightarrow> ('q, 'r, 'w) unary_handler \<Rightarrow> ('r result, 'w) action"

definition grpc_Recovery :: "'w env \<Rightarrow> Logger \<Rightarrow> ('q, 'r, 'w) interceptor" where
  "grpc_Recovery env logger req rpc handler w =
    (case handler req w of
      (Return res, w') \<Rightarrow> (Return res, w')
    | (Panic p, w') \<Rightarrow>
        (Return (Inl (StatusError Internal ''internal server error'')),
         Logger_Log env logger LevelError ''panic serving rpc'' [(''method'', AttrText rpc), (''panic'', AttrText p)] w'))"

definition grpc_AccessLog :: "'w env \<Rightarrow> Logger \<Rightarrow> (gerr option \<Rightarrow> string) \<Rightarrow> ('q, 'r, 'w) interceptor" where
  "grpc_AccessLog env logger code_name req rpc handler w =
    (let (start, w1) = clock_now env w
     in case handler req w1 of
          (Panic p, w2) \<Rightarrow> (Panic p, w2)
        | (Return res, w2) \<Rightarrow>
            (let (stop, w3) = clock_now env w2
             in (Return res, Logger_Log env logger LevelInfo ''grpc request''
                  [(''method'', AttrText rpc),
                   (''code'', AttrText (code_name (case res of Inl err \<Rightarrow> Some err | Inr _ \<Rightarrow> None))),
                   (''duration_ms'', AttrInt (Milliseconds (stop - start)))] w3)))"

fun ChainUnary :: "('q, 'r, 'w) interceptor list \<Rightarrow> string \<Rightarrow> ('q, 'r, 'w) unary_handler \<Rightarrow> ('q, 'r, 'w) unary_handler" where
  "ChainUnary [] rpc h = h"
| "ChainUnary (i # is) rpc h = (\<lambda>req. i req rpc (ChainUnary is rpc h))"

definition grpc_stack :: "'w env \<Rightarrow> Logger \<Rightarrow> (gerr option \<Rightarrow> string) \<Rightarrow> string \<Rightarrow> ('q, 'r, 'w) unary_handler \<Rightarrow> ('q, 'r, 'w) unary_handler" where
  "grpc_stack env logger code_name = ChainUnary [grpc_Recovery env logger, grpc_AccessLog env logger code_name]"

text \<open>Records kept in a journal beside the state, so that one can say which were written.\<close>

definition journal_env :: "'x env \<Rightarrow> (log_record list \<times> 'x) env" where
  "journal_env env =
    \<lparr>clock_now = \<lambda>(l, x). (let (t, x') = clock_now env x in (t, (l, x'))), log_write = \<lambda>r (l, x). (l @ [r], log_write env r x)\<rparr>"

lemma journal_Log:
  "fst (Logger_Log (journal_env env) lg l msg as w) = fst w @ (if Enabled lg l then [log_rec l msg (lg_attrs lg @ as)] else [])"
  by (cases w) (simp add: Logger_Log_def journal_env_def)

lemma journal_clock: "fst (snd (clock_now (journal_env env) w)) = fst w"
  by (cases w) (simp add: journal_env_def split: prod.split)

text \<open>A unary call never panics out of the interceptors, and its result is the handler's. A handler that returns
  leaves one access record with the name of its code; one that panics is answered with Internal and a fixed text and
  leaves one error record, but no access record: recovery stands outside the access log, unlike in the HTTP stack.\<close>

theorem grpc_stack_contract:
  assumes "h req (snd (clock_now (journal_env env) w)) = (res, w')"
  shows "\<exists>w'' d. grpc_stack (journal_env env) logger code_name rpc h req w =
      (Return (case res of Return r \<Rightarrow> r | Panic p \<Rightarrow> Inl (StatusError Internal ''internal server error'')), w'') \<and>
    fst w'' = fst w' @
      (case res of
        Panic p \<Rightarrow> [log_rec LevelError ''panic serving rpc'' (lg_attrs logger @ [(''method'', AttrText rpc), (''panic'', AttrText p)])]
      | Return r \<Rightarrow>
          if Enabled logger LevelInfo
          then [log_rec LevelInfo ''grpc request'' (lg_attrs logger @
            [(''method'', AttrText rpc), (''code'', AttrText (code_name (case r of Inl err \<Rightarrow> Some err | Inr _ \<Rightarrow> None))),
             (''duration_ms'', AttrInt d)])]
          else [])"
proof -
  obtain start w1 where s: "clock_now (journal_env env) w = (start, w1)" by (rule prod.exhaust)
  then have h: "h req w1 = (res, w')" using assms by simp
  obtain stop w3 where t: "clock_now (journal_env env) w' = (stop, w3)" by (rule prod.exhaust)
  have f: "fst w3 = fst w'" using journal_clock [of env w'] t by simp
  show ?thesis
  proof (cases res)
    case (Return r)
    then show ?thesis
      using s h t f
      by (intro exI [of _ "snd (grpc_stack (journal_env env) logger code_name rpc h req w)"] exI [of _ "Milliseconds (stop - start)"])
         (simp add: grpc_stack_def grpc_Recovery_def grpc_AccessLog_def journal_Log)
  next
    case (Panic p)
    then show ?thesis
      using s h
      by (intro exI [of _ "snd (grpc_stack (journal_env env) logger code_name rpc h req w)"] exI [of _ 0])
         (simp add: grpc_stack_def grpc_Recovery_def grpc_AccessLog_def journal_Log)
  qed
qed

theorem grpc_stack_contract_witness:
  "\<exists>w''. grpc_stack (journal_env demo_env) (NewLogger \<lparr>log_Level = ''info'', log_Format = ''json''\<rparr>) (\<lambda>_. ''OK'') ''/m''
      (\<lambda>(n :: nat) w. (Panic ''boom'', w)) 5 ([], []) =
      (Return (Inl (StatusError Internal ''internal server error'') :: nat result), w'') \<and>
    map log_msg (fst w'') = [''panic serving rpc'']"
  using grpc_stack_contract [where h = "\<lambda>(n :: nat) w. (Panic ''boom'' :: nat result outcome, w)" and req = 5 and env = demo_env and w = "([], [])"
      and logger = "NewLogger \<lparr>log_Level = ''info'', log_Format = ''json''\<rparr>" and code_name = "\<lambda>_. ''OK''" and rpc = "''/m''", OF refl]
  by (auto simp: journal_clock log_rec_def)

subsection \<open>Transcoding hooks\<close>

text \<open>The metadata of a call, when the gateway has one: the values of each key.\<close>

definition StatusCodeOption :: "(string \<Rightarrow> string list) option \<Rightarrow> writer \<Rightarrow> (gerr option, Exchange) action" where
  "StatusCodeOption md w s =
    (case md of
      None \<Rightarrow> (Return None, s)
    | Some get \<Rightarrow>
        (case get HTTPStatusMetadataKey of
          [] \<Rightarrow> (Return None, s)
        | v # vs \<Rightarrow>
            (case Atoi v of
              (_, Some err) \<Rightarrow> (Return None, s)
            | (code, None) \<Rightarrow> (case WriteHeader w code s of (Panic p, s') \<Rightarrow> (Panic p, s') | (Return u, s') \<Rightarrow> (Return None, s')))))"

definition OutgoingHeaderMatcher :: "string \<Rightarrow> string \<times> bool" where
  "OutgoingHeaderMatcher key = (if key = LocationMetadataKey then (''Location'', True) else ([], False))"

text \<open>
  The response to a call that set its headers once, as the gateway composes it: the matched headers, then the
  hook, on a fresh exchange.
\<close>

definition forward_headers :: "(string \<times> string) list \<Rightarrow> Exchange \<Rightarrow> Exchange" where
  "forward_headers kvs s =
    fold (\<lambda>(k, v) s. case OutgoingHeaderMatcher k of (n, True) \<Rightarrow> s\<lparr>ex_header := Header_Set n v (ex_header s)\<rparr> | _ \<Rightarrow> s) kvs s"

definition values_of :: "(string \<times> string) list \<Rightarrow> string \<Rightarrow> string list" where
  "values_of kvs k = map snd (filter (\<lambda>kv. fst kv = k) kvs)"

lemma canonical_location: "CanonicalHeaderKey ''Location'' = ''Location''"
  by code_simp

lemma atoi_created: "Atoi ''201'' = (201, None)"
  by code_simp

text \<open>Over REST a created customer is answered with status 201 and the address of the new resource. The call
  sets its headers once, after the command has succeeded and never on an error; of these the gateway's hooks turn the status into
  the response's and forward the location alone, so that the status key does not leak as a header.\<close>

theorem rest_creation_is_201:
  assumes "srv_create srv \<lparr>create_Name = n, create_Email = e\<rparr> w = (Return res, w')"
    and "\<And>md w. srv_SetHeader srv md w = (None, setmd md w)"
  shows "case res of
      Inl err \<Rightarrow> Server_CreateCustomer srv \<lparr>creq_Name = n, creq_Email = e\<rparr> w = (Return (Inl (mapError err)), w')
    | Inr r \<Rightarrow>
        (\<exists>md s. Server_CreateCustomer srv \<lparr>creq_Name = n, creq_Email = e\<rparr> w = (Return (Inr \<lparr>cresp_Id = created_CustomerID r\<rparr>), setmd md w') \<and>
          StatusCodeOption (Some (values_of md)) NetWriter (forward_headers md new_exchange) = (Return None, s) \<and>
          ex_sent s = Some (201, [''Location'' \<mapsto> [''/api/v1/customers/'' @ created_CustomerID r]]))"
proof (cases res)
  case (Inl err)
  then show ?thesis using assms(1) by (simp add: Server_CreateCustomer_def)
next
  case (Inr r)
  let ?md = "[(HTTPStatusMetadataKey, ''201''), (LocationMetadataKey, ''/api/v1/customers/'' @ created_CustomerID r)]"
  have k: "HTTPStatusMetadataKey \<noteq> LocationMetadataKey" by (simp add: HTTPStatusMetadataKey_def LocationMetadataKey_def)
  have "Server_CreateCustomer srv \<lparr>creq_Name = n, creq_Email = e\<rparr> w = (Return (Inr \<lparr>cresp_Id = created_CustomerID r\<rparr>), setmd ?md w')"
    using assms Inr by (simp add: Server_CreateCustomer_def)
  moreover have "forward_headers ?md new_exchange = new_exchange\<lparr>ex_header := [''Location'' \<mapsto> [''/api/v1/customers/'' @ created_CustomerID r]]\<rparr>"
    using k by (simp add: forward_headers_def OutgoingHeaderMatcher_def Header_Set_def canonical_location new_exchange_def)
  moreover have "values_of ?md HTTPStatusMetadataKey = [''201'']" using k by (simp add: values_of_def)
  ultimately show ?thesis
    using Inr
    by (intro iffD2 [OF sum.case_eq_if] ) (auto intro!: exI [of _ ?md] simp: StatusCodeOption_def atoi_created net_WriteHeader_def new_exchange_def)
qed

theorem rest_creation_is_201_witness:
  "let srv = \<lparr>srv_create = \<lambda>_ (w :: (string \<times> string) list list). (Return (Inr \<lparr>created_CustomerID = ''c-1''\<rparr>), w),
      srv_changeEmail = \<lambda>_ w. (Return None, w), srv_get = \<lambda>_ w. (Return (Inl ErrNotFound), w),
      srv_list = \<lambda>_ w. (Return (Inl ErrNotFound), w), srv_SetHeader = \<lambda>md w. (None, w @ [md]), srv_timestamp = \<lambda>t. t\<rparr>
   in \<exists>md s. Server_CreateCustomer srv \<lparr>creq_Name = ''Ada'', creq_Email = ''a@b.c''\<rparr> [] = (Return (Inr \<lparr>cresp_Id = ''c-1''\<rparr>), [md]) \<and>
     StatusCodeOption (Some (values_of md)) NetWriter (forward_headers md new_exchange) = (Return None, s) \<and>
     ex_sent s = Some (201, [''Location'' \<mapsto> [''/api/v1/customers/c-1'']])"
  using rest_creation_is_201 [where srv = "\<lparr>srv_create = \<lambda>_ (w :: (string \<times> string) list list). (Return (Inr \<lparr>created_CustomerID = ''c-1''\<rparr>), w),
      srv_changeEmail = \<lambda>_ w. (Return None, w), srv_get = \<lambda>_ w. (Return (Inl ErrNotFound), w),
      srv_list = \<lambda>_ w. (Return (Inl ErrNotFound), w), srv_SetHeader = \<lambda>md w. (None, w @ [md]), srv_timestamp = \<lambda>t. t\<rparr>"
      and n = "''Ada''" and e = "''a@b.c''" and w = "[]" and w' = "[]" and res = "Inr \<lparr>created_CustomerID = ''c-1''\<rparr>"
      and setmd = "\<lambda>md w. w @ [md]"]
  by (auto simp: Let_def)

end
