(* ===== verification/Postgres.thy ===== *)
theory Postgres
  imports UnitOfWork Projections
begin

text \<open>
  The Postgres side of the customer context: the repository
  (\<open>internal/customer/infrastructure/persistence/postgres/repository.go\<close>) and the read model
  (\<open>internal/customer/infrastructure/projections/postgres_read_model.go\<close>). The database and its driver are not part
  of the repository: a connection is a parameter, three functions from a statement, its arguments and the
  world. What the server documents of the statements used here, on the tables of \<open>migrations/\<close>, are the
  hypotheses \<open>customers_table\<close> and \<open>reads_table\<close>. Any statement may fail; a timestamp is stored with the precision
  \<open>ts\<close> of the column.
\<close>

datatype sql_value = SqlText string | SqlInt int | SqlTime gotime | SqlBool bool

record 'w SqlConn =
  sql_QueryRow :: "string \<Rightarrow> sql_value list \<Rightarrow> 'w \<Rightarrow> sql_value list result \<times> 'w"
  sql_Query :: "string \<Rightarrow> sql_value list \<Rightarrow> 'w \<Rightarrow> (sql_value list list \<times> gerr option) result \<times> 'w"
  sql_Exec :: "string \<Rightarrow> sql_value list \<Rightarrow> 'w \<Rightarrow> int result \<times> 'w"

definition ErrNoRows :: gerr where
  "ErrNoRows = ErrorString ''sql: no rows in result set''"

definition scan_error :: gerr where
  "scan_error = ErrorString ''sql: Scan error''"

text \<open>A statement's text: lines, each after a newline and two tabs.\<close>

definition sql_text :: "string list \<Rightarrow> string" where
  "sql_text ls = concat (map (\<lambda>l. [CHR 0x0A, CHR 0x09, CHR 0x09] @ l) ls)"

definition tab :: "string \<Rightarrow> string" where
  "tab l = CHR 0x09 # l"

subsection \<open>The repository\<close>

definition find_sql :: string where
  "find_sql = sql_text [''SELECT id, name, email, status, created_at, version'', ''FROM customers WHERE id = $1'']"

definition save_sql :: string where
  "save_sql = sql_text
    [''INSERT INTO customers (id, name, email, status, created_at, version)'', ''VALUES ($1, $2, $3, $4, $5, $6)'',
     ''ON CONFLICT (id) DO UPDATE SET'', tab ''name = EXCLUDED.name,'', tab ''email = EXCLUDED.email,'',
     tab ''status = EXCLUDED.status,'', tab ''version = EXCLUDED.version'', ''WHERE customers.version < EXCLUDED.version'']"

definition exists_sql :: string where
  "exists_sql = ''SELECT EXISTS(SELECT 1 FROM customers WHERE email = $1)''"

text \<open>\<open>conn\<close>: the transaction the context carries, else the pool.\<close>

definition pg_conn :: "'w SqlConn \<Rightarrow> ('k, 'w SqlConn) ctx_value list \<Rightarrow> 'w SqlConn" where
  "pg_conn db ctx = (case FromContext ctx of Some tx \<Rightarrow> tx | None \<Rightarrow> db)"

fun scan_snapshot :: "sql_value list \<Rightarrow> Snapshot result" where
  "scan_snapshot [SqlText i, SqlText n, SqlText e, SqlText st, SqlTime t, SqlInt v] =
    Inr \<lparr>snap_ID = i, snap_Name = n, snap_Email = e, snap_Status = st, snap_CreatedAt = t, snap_Version = v\<rparr>"
| "scan_snapshot vs = Inl scan_error"

definition pg_FindByID ::
  "(nat \<Rightarrow> nat) \<Rightarrow> 'w SqlConn \<Rightarrow> ('k, 'w SqlConn) ctx_value list \<Rightarrow> CustomerID \<Rightarrow> 'w \<Rightarrow> Customer result \<times> 'w" where
  "pg_FindByID ul db ctx i w =
    (let (row, w') = sql_QueryRow (pg_conn db ctx) find_sql [SqlText (CustomerID_String i)] w
     in case (case row of Inl err \<Rightarrow> Inl err | Inr vs \<Rightarrow> scan_snapshot vs) of
          Inl err \<Rightarrow> ((if errors_Is err ErrNoRows then Inl ErrNotFound else Inl err), w')
        | Inr s \<Rightarrow> (FromSnapshot ul s, w'))"

definition save_args :: "Snapshot \<Rightarrow> sql_value list" where
  "save_args s = [SqlText (snap_ID s), SqlText (snap_Name s), SqlText (snap_Email s), SqlText (snap_Status s),
     SqlTime (snap_CreatedAt s), SqlInt (snap_Version s)]"

definition pg_Save :: "'w SqlConn \<Rightarrow> ('k, 'w SqlConn) ctx_value list \<Rightarrow> Customer \<Rightarrow> 'w \<Rightarrow> gerr option \<times> 'w" where
  "pg_Save db ctx customer w =
    (let s = ToSnapshot customer
     in case sql_Exec (pg_conn db ctx) save_sql (save_args s) w of
          (Inl err, w') \<Rightarrow> (Some err, w')
        | (Inr n, w') \<Rightarrow> ((if n = 0 then Some ErrConflict else None), w'))"

definition pg_ExistsByEmail ::
  "'w SqlConn \<Rightarrow> ('k, 'w SqlConn) ctx_value list \<Rightarrow> Email \<Rightarrow> 'w \<Rightarrow> bool result \<times> 'w" where
  "pg_ExistsByEmail db ctx email w =
    (case sql_QueryRow (pg_conn db ctx) exists_sql [SqlText (Email_String email)] w of
      (Inl err, w') \<Rightarrow> (Inl err, w')
    | (Inr [SqlBool b], w') \<Rightarrow> (Inr b, w')
    | (Inr _, w') \<Rightarrow> (Inl scan_error, w'))"

text \<open>
  What the server documents. \<open>tbl\<close> is the content of the table that the connection sees. A read gives the row
  under the key, or \<open>ErrNoRows\<close> only if there is none. The upsert inserts, or, when the row's version
  is less than the new one, sets the four columns it names; otherwise it touches no row. The unique index on the address
  refuses a second holder, with an error that is not one of the program's own.
\<close>

definition customer_columns :: "Snapshot \<Rightarrow> sql_value list" where
  "customer_columns s = [SqlText (snap_ID s), SqlText (snap_Name s), SqlText (snap_Email s), SqlText (snap_Status s),
     SqlTime (snap_CreatedAt s), SqlInt (snap_Version s)]"

definition newer :: "rows \<Rightarrow> Snapshot \<Rightarrow> bool" where
  "newer m s \<longleftrightarrow> (case m (snap_ID s) of None \<Rightarrow> True | Some old \<Rightarrow> snap_Version old < snap_Version s)"

definition upsert :: "(gotime \<Rightarrow> gotime) \<Rightarrow> rows \<Rightarrow> Snapshot \<Rightarrow> rows" where
  "upsert ts m s = m(snap_ID s \<mapsto> s\<lparr>snap_CreatedAt :=
    (case m (snap_ID s) of None \<Rightarrow> ts (snap_CreatedAt s) | Some old \<Rightarrow> snap_CreatedAt old)\<rparr>)"

definition foreign :: "gerr \<Rightarrow> bool" where
  "foreign e \<longleftrightarrow> list_all (\<lambda>t. \<not> errors_Is e t) [ErrNotFound, ErrConflict, ErrValidation, ErrPermission]"

definition customers_table :: "(gotime \<Rightarrow> gotime) \<Rightarrow> 'w SqlConn \<Rightarrow> ('w \<Rightarrow> rows) \<Rightarrow> bool" where
  "customers_table ts conn tbl \<longleftrightarrow>
    (\<forall>w i r w'. sql_QueryRow conn find_sql [SqlText i] w = (r, w') \<longrightarrow> tbl w' = tbl w \<and>
      (case r of Inr vs \<Rightarrow> \<exists>s. tbl w i = Some s \<and> vs = customer_columns s
       | Inl e \<Rightarrow> foreign e \<and> (errors_Is e ErrNoRows \<longrightarrow> tbl w i = None))) \<and>
    (\<forall>w a r w'. sql_QueryRow conn exists_sql [SqlText a] w = (r, w') \<longrightarrow> tbl w' = tbl w \<and>
      (\<forall>vs. r = Inr vs \<longrightarrow> vs = [SqlBool (email_taken (tbl w) a)])) \<and>
    (\<forall>w s r w'. sql_Exec conn save_sql (save_args s) w = (r, w') \<longrightarrow>
      (case r of Inl e \<Rightarrow> tbl w' = tbl w \<and> foreign e
       | Inr n \<Rightarrow> if newer (tbl w) s then n = 1 \<and> email_free_for (tbl w) (snap_ID s) (snap_Email s) \<and> tbl w' = upsert ts (tbl w) s
                 else n = 0 \<and> tbl w' = tbl w))"

lemma scan_columns: "scan_snapshot (customer_columns s) = Inr s"
  by (simp add: customer_columns_def)

lemma table_find:
  assumes "customers_table ts (pg_conn db ctx) tbl" "pg_FindByID ul db ctx i w = (r, w')"
  shows "tbl w' = tbl w" "r = Inr c \<Longrightarrow> \<exists>s. tbl w (CustomerID_String i) = Some s \<and> FromSnapshot ul s = Inr c"
    "tbl w (CustomerID_String i) = None \<Longrightarrow> \<exists>e. r = Inl e"
proof -
  obtain row where q: "sql_QueryRow (pg_conn db ctx) find_sql [SqlText (CustomerID_String i)] w = (row, w')"
    using assms(2) by (cases "sql_QueryRow (pg_conn db ctx) find_sql [SqlText (CustomerID_String i)] w")
      (auto simp: pg_FindByID_def split: sum.splits)
  have t: "tbl w' = tbl w \<and> (case row of Inr vs \<Rightarrow> \<exists>s. tbl w (CustomerID_String i) = Some s \<and> vs = customer_columns s
      | Inl e \<Rightarrow> foreign e \<and> (errors_Is e ErrNoRows \<longrightarrow> tbl w (CustomerID_String i) = None))"
    using assms(1) q unfolding customers_table_def by blast
  then show "tbl w' = tbl w" by blast
  note s = scan_columns
  show "r = Inr c \<Longrightarrow> \<exists>s. tbl w (CustomerID_String i) = Some s \<and> FromSnapshot ul s = Inr c"
    using assms(2) q t s by (auto simp: pg_FindByID_def split: sum.splits if_splits)
  show "tbl w (CustomerID_String i) = None \<Longrightarrow> \<exists>e. r = Inl e"
    using assms(2) q t by (auto simp: pg_FindByID_def split: sum.splits if_splits)
qed

lemma table_save:
  assumes "customers_table ts (pg_conn db ctx) tbl" "pg_Save db ctx c w = (r, w')"
  shows "if r = None then newer (tbl w) (ToSnapshot c) \<and> email_free_for (tbl w) (CustomerID_String (c_id c)) (Email_String (c_email c)) \<and>
        tbl w' = upsert ts (tbl w) (ToSnapshot c)
     else tbl w' = tbl w \<and> (r = Some ErrConflict \<and> \<not> newer (tbl w) (ToSnapshot c) \<or> (\<exists>e. r = Some e \<and> foreign e))"
proof -
  obtain x where q: "sql_Exec (pg_conn db ctx) save_sql (save_args (ToSnapshot c)) w = (x, w')"
    using assms(2) by (cases "sql_Exec (pg_conn db ctx) save_sql (save_args (ToSnapshot c)) w")
      (auto simp: pg_Save_def split: sum.splits)
  have "case x of Inl e \<Rightarrow> tbl w' = tbl w \<and> foreign e
       | Inr n \<Rightarrow> if newer (tbl w) (ToSnapshot c) then n = 1 \<and> email_free_for (tbl w) (snap_ID (ToSnapshot c)) (snap_Email (ToSnapshot c)) \<and> tbl w' = upsert ts (tbl w) (ToSnapshot c)
                 else n = 0 \<and> tbl w' = tbl w"
    using assms(1) q unfolding customers_table_def by blast
  then show ?thesis
    using assms(2) q by (cases x) (auto simp: pg_Save_def ToSnapshot_def Let_def split: if_splits)
qed

lemma table_exists:
  assumes "customers_table ts (pg_conn db ctx) tbl" "pg_ExistsByEmail db ctx e w = (r, w')"
  shows "tbl w' = tbl w \<and> (\<forall>b. r = Inr b \<longrightarrow> b = email_taken (tbl w) (Email_String e))"
proof -
  obtain x where q: "sql_QueryRow (pg_conn db ctx) exists_sql [SqlText (Email_String e)] w = (x, w')"
    using assms(2) by (cases "sql_QueryRow (pg_conn db ctx) exists_sql [SqlText (Email_String e)] w")
      (auto simp: pg_ExistsByEmail_def split: sum.splits list.splits sql_value.splits)
  then have "tbl w' = tbl w \<and> (\<forall>vs. x = Inr vs \<longrightarrow> vs = [SqlBool (email_taken (tbl w) (Email_String e))])"
    using assms(1) unfolding customers_table_def by blast
  then show ?thesis using assms(2) q by (auto simp: pg_ExistsByEmail_def split: sum.splits)
qed

lemma upsert_unique:
  "unique_emails m \<Longrightarrow> email_free_for m (snap_ID s) (snap_Email s) \<Longrightarrow> unique_emails (upsert ts m s)"
  by (simp add: upsert_def unique_emails_upd)



subsection \<open>The read model\<close>

definition created_sql :: string where
  "created_sql = sql_text
    [''INSERT INTO customer_reads (id, name, email, status, created_at)'', ''VALUES ($1, $2, $3, '' @ CHR 0x27 # ''active'' @ CHR 0x27 # '', $4)'',
     ''ON CONFLICT (id) DO UPDATE SET'', tab ''name  = EXCLUDED.name,'', tab ''email = EXCLUDED.email'']"

definition email_sql :: string where
  "email_sql = ''UPDATE customer_reads SET email = $2 WHERE id = $1''"

definition deactivate_sql :: string where
  "deactivate_sql = ''UPDATE customer_reads SET status = '' @ CHR 0x27 # ''inactive'' @ CHR 0x27 # '' WHERE id = $1''"

definition get_sql :: string where
  "get_sql = ''SELECT id, name, email, status, created_at FROM customer_reads WHERE id = $1''"

definition list_sql :: string where
  "list_sql = sql_text
    [''SELECT id, name, email, status, created_at'', ''FROM customer_reads'', ''ORDER BY created_at, id'', ''LIMIT $1 OFFSET $2'']"

definition count_sql :: string where
  "count_sql = ''SELECT COUNT(*) FROM customer_reads''"

text \<open>What a handler returns is the error of its statement.\<close>

definition exec_err :: "'w SqlConn \<Rightarrow> string \<Rightarrow> sql_value list \<Rightarrow> (gerr option, 'w) action" where
  "exec_err db q args w =
    (case sql_Exec db q args w of (Inl err, w') \<Rightarrow> (Return (Some err), w') | (Inr n, w') \<Rightarrow> (Return None, w'))"

definition pg_onCreated :: "'w env \<Rightarrow> 'w SqlConn \<Rightarrow> 'w handler" where
  "pg_onCreated env db e w =
    (case unmarshal_strings [''id'', ''name'', ''email''] (ev_Payload e) of
      Inl err \<Rightarrow> (Return (Some err), w)
    | Inr p \<Rightarrow>
        (let (at, w1) = nonZero env (ev_OccurredAt e) w
         in exec_err db created_sql [SqlText (p ''id''), SqlText (p ''name''), SqlText (p ''email''), SqlTime at] w1))"

definition pg_onEmailChanged :: "'w SqlConn \<Rightarrow> 'w handler" where
  "pg_onEmailChanged db e w =
    (case unmarshal_strings [''id'', ''new_email''] (ev_Payload e) of
      Inl err \<Rightarrow> (Return (Some err), w)
    | Inr p \<Rightarrow> exec_err db email_sql [SqlText (p ''id''), SqlText (p ''new_email'')] w)"

definition pg_onDeactivated :: "'w SqlConn \<Rightarrow> 'w handler" where
  "pg_onDeactivated db e w =
    (case unmarshal_strings [''id''] (ev_Payload e) of
      Inl err \<Rightarrow> (Return (Some err), w)
    | Inr p \<Rightarrow> exec_err db deactivate_sql [SqlText (p ''id'')] w)"

definition pg_Register :: "('b, 'w) subscribe_fn \<Rightarrow> 'w env \<Rightarrow> 'w SqlConn \<Rightarrow> 'b \<Rightarrow> 'w \<Rightarrow> gerr option \<times> 'b \<times> 'w" where
  "pg_Register sub env db bus w =
    (case sub EventCustomerCreated (Some (pg_onCreated env db)) bus w of
      (Some err, bw) \<Rightarrow> (Some err, bw)
    | (None, bus1, w1) \<Rightarrow>
        (case sub EventCustomerEmailChanged (Some (pg_onEmailChanged db)) bus1 w1 of
          (Some err, bw) \<Rightarrow> (Some err, bw)
        | (None, bus2, w2) \<Rightarrow> sub EventCustomerDeactivated (Some (pg_onDeactivated db)) bus2 w2))"

lemma pg_Register_all: "pg_Register sub env db =
    register_all sub [(EventCustomerCreated, pg_onCreated env db), (EventCustomerEmailChanged, pg_onEmailChanged db),
      (EventCustomerDeactivated, pg_onDeactivated db)]"
  by (auto simp: pg_Register_def fun_eq_iff split: prod.split option.split)

fun scan_row :: "sql_value list \<Rightarrow> DtoCustomer result" where
  "scan_row [SqlText i, SqlText n, SqlText e, SqlText st, SqlTime t] =
    Inr \<lparr>dto_ID = i, dto_Name = n, dto_Email = e, dto_Status = st, dto_CreatedAt = t\<rparr>"
| "scan_row vs = Inl scan_error"

definition pg_GetByID :: "'w SqlConn \<Rightarrow> string \<Rightarrow> 'w \<Rightarrow> DtoCustomer result \<times> 'w" where
  "pg_GetByID db i w =
    (let (row, w') = sql_QueryRow db get_sql [SqlText i] w
     in case (case row of Inl err \<Rightarrow> Inl err | Inr vs \<Rightarrow> scan_row vs) of
          Inl err \<Rightarrow> ((if errors_Is err ErrNoRows then Inl ErrNotFound else Inl err), w')
        | Inr c \<Rightarrow> (Inr c, w'))"

fun scan_rows :: "sql_value list list \<Rightarrow> DtoCustomer list \<Rightarrow> DtoCustomer list result" where
  "scan_rows [] items = Inr items"
| "scan_rows (vs # vss) items = (case scan_row vs of Inl err \<Rightarrow> Inl err | Inr c \<Rightarrow> scan_rows vss (items @ [c]))"

definition pg_List :: "'w SqlConn \<Rightarrow> Page \<Rightarrow> (DtoCustomer Page_Result result, 'w) action" where
  "pg_List db page w =
    (case sql_Query db list_sql [SqlInt (page_Limit page), SqlInt (page_Offset page)] w of
      (Inl err, w1) \<Rightarrow> (Return (Inl err), w1)
    | (Inr (vss, rows_Err), w1) \<Rightarrow>
        if page_Limit page < 0 then (Panic ''runtime error: makeslice: cap out of range'', w1)
        else (case scan_rows vss [] of
          Inl err \<Rightarrow> (Return (Inl err), w1)
        | Inr items \<Rightarrow>
            (case rows_Err of
              Some err \<Rightarrow> (Return (Inl err), w1)
            | None \<Rightarrow>
                (case sql_QueryRow db count_sql [] w1 of
                  (Inl err, w2) \<Rightarrow> (Return (Inl err), w2)
                | (Inr [SqlInt n], w2) \<Rightarrow>
                    (Return (Inr \<lparr>res_Items = items, res_Total = n, res_Limit = page_Limit page, res_Offset = page_Offset page\<rparr>), w2)
                | (Inr _, w2) \<Rightarrow> (Return (Inl scan_error), w2)))))"

text \<open>
  What the server documents of these statements, with \<open>rt\<close> the content of the table. The listing is a window of the
  rows in the order \<open>before\<close>: by time of creation, then by identifier in the collation of the column.
\<close>

definition row_columns :: "DtoCustomer \<Rightarrow> sql_value list" where
  "row_columns c = [SqlText (dto_ID c), SqlText (dto_Name c), SqlText (dto_Email c), SqlText (dto_Status c), SqlTime (dto_CreatedAt c)]"

type_synonym read_rows = "string \<rightharpoonup> DtoCustomer"

definition upsert_row :: "(gotime \<Rightarrow> gotime) \<Rightarrow> string \<Rightarrow> string \<Rightarrow> string \<Rightarrow> gotime \<Rightarrow> read_rows \<Rightarrow> read_rows" where
  "upsert_row ts i n e t m = m(i \<mapsto>
    (case m i of
      None \<Rightarrow> \<lparr>dto_ID = i, dto_Name = n, dto_Email = e, dto_Status = ''active'', dto_CreatedAt = ts t\<rparr>
    | Some row \<Rightarrow> row\<lparr>dto_Name := n, dto_Email := e\<rparr>))"

definition update_row :: "string \<Rightarrow> (DtoCustomer \<Rightarrow> DtoCustomer) \<Rightarrow> read_rows \<Rightarrow> read_rows" where
  "update_row i f m = (case m i of None \<Rightarrow> m | Some row \<Rightarrow> m(i \<mapsto> f row))"

definition listing :: "(DtoCustomer \<Rightarrow> DtoCustomer \<Rightarrow> bool) \<Rightarrow> read_rows \<Rightarrow> DtoCustomer list \<Rightarrow> bool" where
  "listing before m all \<longleftrightarrow> sorted_wrt before all \<and> set all = ran m \<and> length all = card (dom m)"

definition statement_effect :: "'w SqlConn \<Rightarrow> ('w \<Rightarrow> read_rows) \<Rightarrow> string \<Rightarrow> sql_value list \<Rightarrow> (read_rows \<Rightarrow> read_rows) \<Rightarrow> bool" where
  "statement_effect db rt q args f \<longleftrightarrow>
    (\<forall>w r w'. sql_Exec db q args w = (r, w') \<longrightarrow> rt w' = (case r of Inl e \<Rightarrow> rt w | Inr n \<Rightarrow> f (rt w)))"

definition reads_table ::
  "(gotime \<Rightarrow> gotime) \<Rightarrow> (DtoCustomer \<Rightarrow> DtoCustomer \<Rightarrow> bool) \<Rightarrow> 'w SqlConn \<Rightarrow> ('w \<Rightarrow> read_rows) \<Rightarrow> bool" where
  "reads_table ts before db rt \<longleftrightarrow>
    (\<forall>i n e t. statement_effect db rt created_sql [SqlText i, SqlText n, SqlText e, SqlTime t] (upsert_row ts i n e t)) \<and>
    (\<forall>i e. statement_effect db rt email_sql [SqlText i, SqlText e] (update_row i (\<lambda>row. row\<lparr>dto_Email := e\<rparr>))) \<and>
    (\<forall>i. statement_effect db rt deactivate_sql [SqlText i] (update_row i (\<lambda>row. row\<lparr>dto_Status := ''inactive''\<rparr>))) \<and>
    (\<forall>w i r w'. sql_QueryRow db get_sql [SqlText i] w = (r, w') \<longrightarrow> rt w' = rt w \<and>
      (case r of Inr vs \<Rightarrow> \<exists>row. rt w i = Some row \<and> vs = row_columns row
       | Inl e \<Rightarrow> foreign e \<and> (errors_Is e ErrNoRows \<longrightarrow> rt w i = None))) \<and>
    (\<forall>w l off r w'. sql_Query db list_sql [SqlInt l, SqlInt off] w = (r, w') \<longrightarrow> rt w' = rt w \<and>
      (\<forall>vss. r = Inr (vss, None) \<longrightarrow>
        (\<exists>all. listing before (rt w) all \<and> vss = map row_columns (take (nat l) (drop (nat off) all))))) \<and>
    (\<forall>w r w'. sql_QueryRow db count_sql [] w = (r, w') \<longrightarrow> rt w' = rt w \<and>
      (\<forall>vs. r = Inr vs \<longrightarrow> vs = [SqlInt (int (card (dom (rt w))))]))"

lemma reads_tableD:
  assumes "reads_table ts before db rt"
  shows reads_created: "statement_effect db rt created_sql [SqlText i, SqlText n, SqlText e, SqlTime t] (upsert_row ts i n e t)"
    and reads_email: "statement_effect db rt email_sql [SqlText i, SqlText e] (update_row i (\<lambda>row. row\<lparr>dto_Email := e\<rparr>))"
    and reads_deactivated: "statement_effect db rt deactivate_sql [SqlText i] (update_row i (\<lambda>row. row\<lparr>dto_Status := ''inactive''\<rparr>))"
    and reads_list: "sql_Query db list_sql [SqlInt l, SqlInt off] w = (Inr (vss, None), w') \<Longrightarrow>
      rt w' = rt w \<and> (\<exists>all. listing before (rt w) all \<and> vss = map row_columns (take (nat l) (drop (nat off) all)))"
    and reads_count: "sql_QueryRow db count_sql [] w = (Inr vs, w') \<Longrightarrow> rt w' = rt w \<and> vs = [SqlInt (int (card (dom (rt w))))]"
proof -
  note r = assms [unfolded reads_table_def]
  show "statement_effect db rt created_sql [SqlText i, SqlText n, SqlText e, SqlTime t] (upsert_row ts i n e t)"
    using r [THEN conjunct1] by blast
  show "statement_effect db rt email_sql [SqlText i, SqlText e] (update_row i (\<lambda>row. row\<lparr>dto_Email := e\<rparr>))"
    using r [THEN conjunct2, THEN conjunct1] by blast
  show "statement_effect db rt deactivate_sql [SqlText i] (update_row i (\<lambda>row. row\<lparr>dto_Status := ''inactive''\<rparr>))"
    using r [THEN conjunct2, THEN conjunct2, THEN conjunct1] by blast
  show "sql_Query db list_sql [SqlInt l, SqlInt off] w = (Inr (vss, None), w') \<Longrightarrow>
      rt w' = rt w \<and> (\<exists>all. listing before (rt w) all \<and> vss = map row_columns (take (nat l) (drop (nat off) all)))"
    using r [THEN conjunct2, THEN conjunct2, THEN conjunct2, THEN conjunct2, THEN conjunct1] by blast
  show "sql_QueryRow db count_sql [] w = (Inr vs, w') \<Longrightarrow> rt w' = rt w \<and> vs = [SqlInt (int (card (dom (rt w))))]"
    using r [THEN conjunct2, THEN conjunct2, THEN conjunct2, THEN conjunct2, THEN conjunct2] by blast
qed

lemma exec_effect:
  assumes "statement_effect db rt q args f" "exec_err db q args w = (r, w')"
  shows "r = Return None \<and> rt w' = f (rt w) \<or> (\<exists>err. r = Return (Some err)) \<and> rt w' = rt w"
  using assms by (auto simp: exec_err_def statement_effect_def split: prod.splits sum.splits)

text \<open>The handler the bus runs for an event of each name, and what it does to the rows.\<close>

definition pg_handler :: "'w env \<Rightarrow> 'w SqlConn \<Rightarrow> 'w handler" where
  "pg_handler env db e =
    (if ev_Name e = EventCustomerCreated then pg_onCreated env db e
     else if ev_Name e = EventCustomerEmailChanged then pg_onEmailChanged db e
     else pg_onDeactivated db e)"

fun pg_project1 :: "(gotime \<Rightarrow> gotime) \<Rightarrow> read_rows \<Rightarrow> customer_event \<Rightarrow> read_rows" where
  "pg_project1 ts m (CustomerCreated i n e t) = upsert_row ts i n e t m"
| "pg_project1 ts m (CustomerEmailChanged i old new t) = update_row i (\<lambda>row. row\<lparr>dto_Email := new\<rparr>) m"
| "pg_project1 ts m (CustomerDeactivated i r t) = update_row i (\<lambda>row. row\<lparr>dto_Status := ''inactive''\<rparr>) m"

lemma pg_project1_fresh:
  "ts (customer_OccurredAt e) = customer_OccurredAt e \<Longrightarrow> (\<And>i n a t. e = CustomerCreated i n a t \<Longrightarrow> m i = None) \<Longrightarrow>
    pg_project1 ts m e = project1 m e"
  by (cases e) (auto simp: upsert_row_def update_row_def split: option.split)

lemma pg_handler_effect:
  assumes "reads_table ts before db rt" "encodes e ie" "customer_OccurredAt e \<noteq> zero_time" "pg_handler env db ie w = (r, w')"
  shows "r = Return None \<and> rt w' = pg_project1 ts (rt w) (event_utf8 e) \<or> (\<exists>err. r = Return (Some err)) \<and> rt w' = rt w"
proof (cases e)
  case (CustomerCreated i n a t)
  then have "pg_handler env db ie w = exec_err db created_sql [SqlText (to_utf8 i), SqlText (to_utf8 n), SqlText (to_utf8 a), SqlTime t] w"
    using assms(2,3) by (simp add: pg_handler_def encodes_def integration_name_def event_names pg_onCreated_def read_created nonZero_def)
  with assms(4) exec_effect [OF reads_created [OF assms(1)]] CustomerCreated show ?thesis by simp
next
  case (CustomerEmailChanged i x y t)
  then have "pg_handler env db ie w = exec_err db email_sql [SqlText (to_utf8 i), SqlText (to_utf8 y)] w"
    using assms(2) by (simp add: pg_handler_def encodes_def integration_name_def event_names pg_onEmailChanged_def read_changed_address)
  with assms(4) exec_effect [OF reads_email [OF assms(1)]] CustomerEmailChanged show ?thesis by simp
next
  case (CustomerDeactivated i x t)
  then have "pg_handler env db ie w = exec_err db deactivate_sql [SqlText (to_utf8 i)] w"
    using assms(2) by (simp add: pg_handler_def encodes_def integration_name_def event_names pg_onDeactivated_def read_deactivated_id)
  with assms(4) exec_effect [OF reads_deactivated [OF assms(1)]] CustomerDeactivated show ?thesis by simp
qed

lemma scan_rows_columns: "scan_rows (map row_columns rows) items = Inr (items @ rows)"
  by (induction rows arbitrary: items) (simp_all add: row_columns_def)



subsection \<open>A server that never fails\<close>

text \<open>The two tables as a map of customers and a list of read rows; it meets everything assumed of the server.\<close>

definition reads_of :: "DtoCustomer list \<Rightarrow> read_rows" where
  "reads_of xs i = List.find (\<lambda>row. dto_ID row = i) xs"

definition set_row :: "string \<Rightarrow> (DtoCustomer \<Rightarrow> DtoCustomer) \<Rightarrow> DtoCustomer list \<Rightarrow> DtoCustomer list" where
  "set_row i f xs = map (\<lambda>row. if dto_ID row = i then f row else row) xs"

definition ordered_rows :: "DtoCustomer list \<Rightarrow> DtoCustomer list" where
  "ordered_rows xs = sort_Slice row_before (range_map (remdups (map dto_ID xs)) (reads_of xs))"

definition demo_row_query :: "string \<Rightarrow> sql_value list \<Rightarrow> rows \<times> DtoCustomer list \<Rightarrow> sql_value list result" where
  "demo_row_query q args w =
    (if q = count_sql then Inr [SqlInt (int (length (ordered_rows (snd w))))]
     else case args of
       [SqlText a] \<Rightarrow>
         (if q = find_sql then (case fst w a of None \<Rightarrow> Inl ErrNoRows | Some s \<Rightarrow> Inr (customer_columns s))
          else if q = exists_sql then Inr [SqlBool (email_taken (fst w) a)]
          else if q = get_sql then (case reads_of (snd w) a of None \<Rightarrow> Inl ErrNoRows | Some row \<Rightarrow> Inr (row_columns row))
          else Inl scan_error)
     | _ \<Rightarrow> Inl scan_error)"

fun demo_save :: "sql_value list \<Rightarrow> rows \<Rightarrow> int result \<times> rows" where
  "demo_save [SqlText i, SqlText n, SqlText e, SqlText st, SqlTime t, SqlInt v] m =
    (let s = \<lparr>snap_ID = i, snap_Name = n, snap_Email = e, snap_Status = st, snap_CreatedAt = t, snap_Version = v\<rparr>
     in if \<not> newer m s then (Inr 0, m)
        else if email_free_for m i e then (Inr 1, upsert id m s)
        else (Inl (ErrorString ''duplicate key value violates unique constraint''), m))"
| "demo_save args m = (Inl scan_error, m)"

fun demo_reads :: "string \<Rightarrow> sql_value list \<Rightarrow> DtoCustomer list \<Rightarrow> int result \<times> DtoCustomer list" where
  "demo_reads q [SqlText i, SqlText n, SqlText e, SqlTime t] xs =
    (Inr 1, if reads_of xs i = None
      then xs @ [\<lparr>dto_ID = i, dto_Name = n, dto_Email = e, dto_Status = ''active'', dto_CreatedAt = t\<rparr>]
      else set_row i (\<lambda>row. row\<lparr>dto_Name := n, dto_Email := e\<rparr>) xs)"
| "demo_reads q [SqlText i, SqlText e] xs = (Inr 1, set_row i (\<lambda>row. row\<lparr>dto_Email := e\<rparr>) xs)"
| "demo_reads q [SqlText i] xs = (Inr 1, set_row i (\<lambda>row. row\<lparr>dto_Status := ''inactive''\<rparr>) xs)"
| "demo_reads q args xs = (Inl scan_error, xs)"

definition demo_conn :: "(rows \<times> DtoCustomer list) SqlConn" where
  "demo_conn =
    \<lparr>sql_QueryRow = \<lambda>q args w. (demo_row_query q args w, w),
     sql_Query = \<lambda>q args w.
       ((case args of
           [SqlInt l, SqlInt off] \<Rightarrow> Inr (map row_columns (take (nat l) (drop (nat off) (ordered_rows (snd w)))), None)
         | _ \<Rightarrow> Inl scan_error), w),
     sql_Exec = \<lambda>q args w.
       (if q = save_sql then (let (r, m) = demo_save args (fst w) in (r, (m, snd w)))
        else (let (r, xs) = demo_reads q args (snd w) in (r, (fst w, xs))))\<rparr>"

lemma statements_distinct:
  "find_sql \<noteq> count_sql" "exists_sql \<noteq> count_sql" "get_sql \<noteq> count_sql" "exists_sql \<noteq> find_sql" "get_sql \<noteq> find_sql"
  "get_sql \<noteq> exists_sql" "created_sql \<noteq> save_sql" "email_sql \<noteq> save_sql" "deactivate_sql \<noteq> save_sql"
  by (simp_all add: find_sql_def count_sql_def exists_sql_def get_sql_def created_sql_def save_sql_def email_sql_def
      deactivate_sql_def sql_text_def tab_def)

lemma foreign_demo: "foreign ErrNoRows" "foreign (ErrorString m)" "foreign scan_error"
  by (simp_all add: foreign_def ErrNoRows_def scan_error_def)

lemma demo_customers_table: "customers_table id demo_conn fst"
proof -
  have "case r of Inl e \<Rightarrow> m' = m \<and> foreign e
       | Inr n \<Rightarrow> if newer m s then n = 1 \<and> email_free_for m (snap_ID s) (snap_Email s) \<and> m' = upsert id m s else n = 0 \<and> m' = m"
    if "demo_save (save_args s) m = (r, m')" for s m r m'
    using that by (cases s) (auto simp: save_args_def foreign_demo Let_def split: if_splits)
  note 1 = this
  have 2: "case r of Inl e \<Rightarrow> fst w' = fst w \<and> foreign e
       | Inr n \<Rightarrow> if newer (fst w) s then n = 1 \<and> email_free_for (fst w) (snap_ID s) (snap_Email s) \<and> fst w' = upsert id (fst w) s
                 else n = 0 \<and> fst w' = fst w"
    if e: "sql_Exec demo_conn save_sql (save_args s) w = (r, w')" for w s r w'
  proof -
    obtain m' where m': "demo_save (save_args s) (fst w) = (r, m')" "w' = (m', snd w)"
      using e by (auto simp: demo_conn_def split: prod.splits)
    show ?thesis using 1 [OF m'(1)] m'(2) by (cases r) simp_all
  qed
  show ?thesis
    unfolding customers_table_def
  proof (intro conjI allI impI)
    fix w i r w' assume "sql_QueryRow demo_conn find_sql [SqlText i] w = (r, w')"
    then show "fst w' = fst w" "case r of Inr vs \<Rightarrow> \<exists>s. fst w i = Some s \<and> vs = customer_columns s
       | Inl e \<Rightarrow> foreign e \<and> (errors_Is e ErrNoRows \<longrightarrow> fst w i = None)"
      by (auto simp: demo_conn_def demo_row_query_def statements_distinct foreign_demo split: option.splits)
  next
    fix w a r w' assume "sql_QueryRow demo_conn exists_sql [SqlText a] w = (r, w')"
    then show "fst w' = fst w" "\<And>vs. r = Inr vs \<Longrightarrow> vs = [SqlBool (email_taken (fst w) a)]"
      by (auto simp: demo_conn_def demo_row_query_def statements_distinct)
  qed (rule 2)
qed

lemma reads_of_set_row:
  "(\<And>row. dto_ID row = i \<Longrightarrow> dto_ID (f row) = i) \<Longrightarrow> reads_of (set_row i f xs) = update_row i f (reads_of xs)"
  by (induction xs) (auto simp: reads_of_def set_row_def update_row_def fun_eq_iff split: option.splits)

lemma reads_of_append: "reads_of xs i = None \<Longrightarrow> dto_ID r = i \<Longrightarrow> reads_of (xs @ [r]) = (reads_of xs)(i \<mapsto> r)"
  by (induction xs) (auto simp: reads_of_def fun_eq_iff)

lemma ordered_listing: "listing row_before (reads_of xs) (ordered_rows xs)"
proof -
  let ?m = "\<lparr>rm_rows = reads_of xs\<rparr>"
  have i: "rm_inv ?m" by (auto simp: rm_inv_def reads_of_def find_Some_iff)
  have "reads_of xs i = None \<longleftrightarrow> i \<notin> dto_ID ` set xs" for i by (auto simp: reads_of_def find_None_iff)
  then have e: "enumerates (remdups (map dto_ID xs)) (rm_rows ?m)" by (auto simp: enumerates_def dom_def)
  show ?thesis using listed_rows [OF i e] by (simp add: listing_def ordered_rows_def)
qed

lemma demo_reads_table: "reads_table id row_before demo_conn (\<lambda>w. reads_of (snd w))"
proof -
  have "statement_effect demo_conn (\<lambda>w. reads_of (snd w)) created_sql [SqlText i, SqlText n, SqlText e, SqlTime t] (upsert_row id i n e t)" for i n e t
    by (auto simp: statement_effect_def demo_conn_def statements_distinct reads_of_append reads_of_set_row upsert_row_def update_row_def
        split: option.split if_splits)
  moreover have "statement_effect demo_conn (\<lambda>w. reads_of (snd w)) email_sql [SqlText i, SqlText e] (update_row i (\<lambda>row. row\<lparr>dto_Email := e\<rparr>))" for i e
    by (auto simp: statement_effect_def demo_conn_def statements_distinct reads_of_set_row)
  moreover have "statement_effect demo_conn (\<lambda>w. reads_of (snd w)) deactivate_sql [SqlText i] (update_row i (\<lambda>row. row\<lparr>dto_Status := ''inactive''\<rparr>))" for i
    by (auto simp: statement_effect_def demo_conn_def statements_distinct reads_of_set_row)
  moreover have "length (ordered_rows xs) = card (dom (reads_of xs))" for xs using ordered_listing by (simp add: listing_def)
  ultimately show ?thesis
    unfolding reads_table_def
    by (intro conjI)
       (auto simp: demo_conn_def demo_row_query_def statements_distinct foreign_demo split: option.splits intro!: exI [of _ "ordered_rows _"] ordered_listing)
qed

abbreviation plain_ctx :: "(nat, (rows \<times> DtoCustomer list) SqlConn) ctx_value list" where
  "plain_ctx \<equiv> []"

lemma demo_conn_plain [simp]: "pg_conn demo_conn plain_ctx = demo_conn"
  by (simp add: pg_conn_def)

lemma demo_save_eval: "pg_Save demo_conn plain_ctx c (m, xs) =
    (let (r, m') = demo_save (save_args (ToSnapshot c)) m
     in ((case r of Inl err \<Rightarrow> Some err | Inr n \<Rightarrow> if n = 0 then Some ErrConflict else None), (m', xs)))"
  unfolding pg_Save_def demo_conn_plain Let_def
  by (auto simp: demo_conn_def split: prod.split sum.split)

lemma demo_insert: "pg_Save demo_conn plain_ctx ada (Map.empty, []) = (None, ([''c-1'' \<mapsto> ToSnapshot ada], []))"
  by (simp add: demo_save_eval save_args_def ToSnapshot_def ada_def ada_email_def newer_def email_free_for_def upsert_def)




lemma demo_list: "\<exists>res. pg_List demo_conn (Page_New 1 0) w = (Return (Inr res), w)"
  by (simp add: pg_List_def demo_conn_def demo_row_query_def scan_rows_columns Page_New_def DefaultLimit_def MaxLimit_def)


end
