(* ===== verification/Notification.thy ===== *)
theory Notification
  imports Projections
begin

text \<open>
  The notification context (\<open>internal/notification\<close>): the handler that turns a created customer into a welcome, the sender
  that only logs, and the module that subscribes the handler. The port \<open>NotificationService\<close> is a function of the
  address and the name.
\<close>

type_synonym 'w notification_service = "string \<Rightarrow> string \<Rightarrow> (gerr option, 'w) action"

definition LogSender_SendWelcome :: "'w env \<Rightarrow> 'w notification_service" where
  "LogSender_SendWelcome env toEmail name w =
    (Return None, log_write env (log_rec LevelInfo ''welcome email sent'' [(''to'', AttrText toEmail), (''name'', AttrText name)]) w)"

definition notification_EventCustomerCreated :: string where
  "notification_EventCustomerCreated = ''customer.v1.created''"

definition CustomerCreated_Handle :: "'w notification_service \<Rightarrow> 'w handler" where
  "CustomerCreated_Handle sendWelcome e w =
    (case unmarshal_strings [''id'', ''name'', ''email''] (ev_Payload e) of
      Inl err \<Rightarrow> (Return (Some err), w)
    | Inr p \<Rightarrow> sendWelcome (p ''email'') (p ''name'') w)"

record 'w NotificationModule =
  mod_customerCreated :: "'w handler"

definition notification_New :: "'w env \<Rightarrow> 'w notification_service option \<Rightarrow> 'w NotificationModule" where
  "notification_New env sender =
    \<lparr>mod_customerCreated = CustomerCreated_Handle (case sender of None \<Rightarrow> LogSender_SendWelcome env | Some s \<Rightarrow> s)\<rparr>"

definition notification_RegisterSubscriptions :: "('b, 'w) subscribe_fn \<Rightarrow> 'w NotificationModule \<Rightarrow> 'b \<Rightarrow> 'w \<Rightarrow> gerr option \<times> 'b \<times> 'w" where
  "notification_RegisterSubscriptions sub m bus = sub notification_EventCustomerCreated (Some (mod_customerCreated m)) bus"



end
