(* ===== verification/OrderContext.thy ===== *)
theory OrderContext
  imports CustomerServer
begin

text \<open>
  The order context (\<open>internal/order\<close>): its aggregate, the in-memory repository, the synchronous check of the
  customer through the customer context's public contract, the command handler and the gRPC adapter, wired as
  \<open>module.go\<close> does. The reading of a gRPC status out of an error (\<open>status.FromError\<close>) belongs to a library outside
  the repository and is a parameter. With it stand the domain layers of the two contexts that are only
  skeletons, \<open>internal/identity\<close> and \<open>internal/payment\<close>.
\<close>

subsection \<open>Domain\<close>

datatype OrderID = OrderID (OrderID_String: string)

definition NewOrderID :: "string \<Rightarrow> OrderID result" where
  "NewOrderID v = (if v = '''' then Inl (Invalid ''order id must not be empty'') else Inr (OrderID v))"

datatype OrderPlaced = OrderPlaced (placed_OrderID: string) (placed_CustomerID: string) (placed_At: gotime)

definition OrderPlaced_EventName :: "OrderPlaced \<Rightarrow> string" where
  "OrderPlaced_EventName e = ''order.placed''"

definition OrderPlaced_OccurredAt :: "OrderPlaced \<Rightarrow> gotime" where
  "OrderPlaced_OccurredAt e = placed_At e"

definition OrderPlaced_AggregateID :: "OrderPlaced \<Rightarrow> string" where
  "OrderPlaced_AggregateID e = placed_OrderID e"

record Order = "OrderPlaced AggregateRoot" +
  o_id :: OrderID
  o_customerID :: string
  o_placedAt :: gotime

definition Place :: "OrderID \<Rightarrow> string \<Rightarrow> gotime \<Rightarrow> Order result" where
  "Place i customerID now =
    (if customerID = '''' then Inl (Invalid ''order requires a customer'')
     else Inr (RecordEvent (OrderPlaced (OrderID_String i) customerID now)
       \<lparr>root_events = [], o_id = i, o_customerID = customerID, o_placedAt = now\<rparr>))"

subsection \<open>Repository and ports\<close>

record OrderRepository =
  or_byID :: "string \<rightharpoonup> Order"

definition order_New :: OrderRepository where
  "order_New = \<lparr>or_byID = Map.empty\<rparr>"

definition order_FindByID :: "OrderID \<Rightarrow> OrderRepository \<Rightarrow> Order result" where
  "order_FindByID i r = (case or_byID r (OrderID_String i) of None \<Rightarrow> Inl ErrNotFound | Some ord \<Rightarrow> Inr ord)"

definition order_Save :: "Order \<Rightarrow> OrderRepository \<Rightarrow> gerr option \<times> OrderRepository" where
  "order_Save ord r = (None, r\<lparr>or_byID := (or_byID r)(OrderID_String (o_id ord) \<mapsto> ord)\<rparr>)"

record 'w OrderDeps =
  od_FindByID :: "OrderID \<Rightarrow> (Order result, 'w) action"
  od_Save :: "Order \<Rightarrow> (gerr option, 'w) action"
  od_Now :: "'w \<Rightarrow> gotime \<times> 'w"
  od_NewID :: "(string, 'w) action"
  od_Verify :: "string \<Rightarrow> (gerr option, 'w) action"

text \<open>The verifier calls \<open>GetCustomer\<close> of the customer service and translates its NotFound.\<close>

definition Verifier_Verify ::
  "(gerr \<Rightarrow> grpc_code option) \<Rightarrow> (GetCustomerRequest \<Rightarrow> ('ts ProtoCustomer result, 'w) action) \<Rightarrow> string \<Rightarrow> (gerr option, 'w) action" where
  "Verifier_Verify from_error getCustomer customerID w =
    (case getCustomer \<lparr>greq_Id = customerID\<rparr> w of
      (Panic p, w') \<Rightarrow> (Panic p, w')
    | (Return (Inr _), w') \<Rightarrow> (Return None, w')
    | (Return (Inl err), w') \<Rightarrow>
        if from_error err = Some NotFound then (Return (Some ErrNotFound), w') else (Return (Some err), w'))"

subsection \<open>The command and its delivery\<close>

record PlaceOrder =
  place_CustomerID :: string

record PlaceOrderResult =
  por_OrderID :: string

definition PlaceOrder_Handle :: "'w OrderDeps \<Rightarrow> PlaceOrder \<Rightarrow> (PlaceOrderResult result, 'w) action" where
  "PlaceOrder_Handle d cmd w =
    (case od_Verify d (place_CustomerID cmd) w of
      (Panic p, w1) \<Rightarrow> (Panic p, w1)
    | (Return (Some err), w1) \<Rightarrow> (Return (Inl err), w1)
    | (Return None, w1) \<Rightarrow>
        (case od_NewID d w1 of
          (Panic p, w2) \<Rightarrow> (Panic p, w2)
        | (Return v, w2) \<Rightarrow>
            (case NewOrderID v of
              Inl err \<Rightarrow> (Return (Inl err), w2)
            | Inr i \<Rightarrow>
                (let (now, w3) = od_Now d w2 in
                 case Place i (place_CustomerID cmd) now of
                   Inl err \<Rightarrow> (Return (Inl err), w3)
                 | Inr ord \<Rightarrow>
                     (case od_Save d ord w3 of
                       (Panic p, w4) \<Rightarrow> (Panic p, w4)
                     | (Return (Some err), w4) \<Rightarrow> (Return (Inl err), w4)
                     | (Return None, w4) \<Rightarrow> (Return (Inr \<lparr>por_OrderID = OrderID_String i\<rparr>), w4))))))"

record PlaceOrderRequest =
  preq_CustomerId :: string

record PlaceOrderResponse =
  presp_Id :: string

text \<open>The adapter's own copy of the error mapping.\<close>

definition order_mapError :: "gerr \<Rightarrow> gerr" where
  "order_mapError err =
    (if errors_Is err ErrNotFound then StatusError NotFound (error_text err)
     else if errors_Is err ErrConflict then StatusError AlreadyExists (error_text err)
     else if errors_Is err ErrValidation then StatusError InvalidArgument (error_text err)
     else if errors_Is err ErrPermission then StatusError PermissionDenied (error_text err)
     else StatusError Internal ''internal server error'')"

definition Server_PlaceOrder :: "'w OrderDeps \<Rightarrow> PlaceOrderRequest \<Rightarrow> (PlaceOrderResponse result, 'w) action" where
  "Server_PlaceOrder d req w =
    (case PlaceOrder_Handle d \<lparr>place_CustomerID = preq_CustomerId req\<rparr> w of
      (Panic p, w') \<Rightarrow> (Panic p, w')
    | (Return (Inl err), w') \<Rightarrow> (Return (Inl (order_mapError err)), w')
    | (Return (Inr res), w') \<Rightarrow> (Return (Inr \<lparr>presp_Id = por_OrderID res\<rparr>), w'))"

text \<open>
  \<open>New\<close> of the module: an absent repository is the in-memory one, which is the first component of the state.
\<close>

definition on_fst :: "('r \<Rightarrow> 'a \<times> 'r) \<Rightarrow> ('a, 'r \<times> 'w) action" where
  "on_fst f rw = (let (a, r') = f (fst rw) in (Return a, (r', snd rw)))"

definition order_Module_New ::
  "((OrderID \<Rightarrow> (Order result, OrderRepository \<times> 'w) action) \<times> (Order \<Rightarrow> (gerr option, OrderRepository \<times> 'w) action)) option \<Rightarrow>
    (OrderRepository \<times> 'w \<Rightarrow> gotime \<times> (OrderRepository \<times> 'w)) \<Rightarrow> (string, OrderRepository \<times> 'w) action \<Rightarrow>
    (string \<Rightarrow> (gerr option, OrderRepository \<times> 'w) action) \<Rightarrow> (OrderRepository \<times> 'w) OrderDeps" where
  "order_Module_New repo clk ids verify =
    (let (find, save) =
       (case repo of
          None \<Rightarrow> (\<lambda>i. on_fst (\<lambda>r. (order_FindByID i r, r)), \<lambda>ord. on_fst (order_Save ord))
        | Some fs \<Rightarrow> fs)
     in \<lparr>od_FindByID = find, od_Save = save, od_Now = clk, od_NewID = ids, od_Verify = verify\<rparr>)"

subsection \<open>Skeleton contexts\<close>

datatype UserID = UserID (UserID_String: string)

definition NewUserID :: "string \<Rightarrow> UserID result" where
  "NewUserID v = (if v = '''' then Inl (Invalid ''user id must not be empty'') else Inr (UserID v))"

datatype UserRegistered = UserRegistered (reg_UserID: string) (reg_Email: string) (reg_At: gotime)

definition UserRegistered_EventName :: "UserRegistered \<Rightarrow> string" where
  "UserRegistered_EventName e = ''identity.user_registered''"

record User = "UserRegistered AggregateRoot" +
  u_id :: UserID
  u_email :: string
  u_passwordHash :: string
  u_registeredAt :: gotime

datatype PaymentID = PaymentID (PaymentID_String: string)

definition NewPaymentID :: "string \<Rightarrow> PaymentID result" where
  "NewPaymentID v = (if v = '''' then Inl (Invalid ''payment id must not be empty'') else Inr (PaymentID v))"

datatype PaymentCompleted = PaymentCompleted (pay_PaymentID: string) (pay_OrderID: string) (pay_At: gotime)

definition PaymentCompleted_EventName :: "PaymentCompleted \<Rightarrow> string" where
  "PaymentCompleted_EventName e = ''payment.completed''"

record Payment = "PaymentCompleted AggregateRoot" +
  p_id :: PaymentID
  p_orderID :: string
  p_amountCents :: int
  p_currency :: string
  p_completedAt :: gotime

subsection \<open>Placing an order\<close>

text \<open>
  The order service on the default wiring. Beside the orders the state holds the customer context's read model, from which
  the customer service answers, and the rest of the world.
\<close>

definition memory_get :: "string list \<Rightarrow> GetCustomer \<Rightarrow> (DtoCustomer result, MemoryReadModel \<times> 'x) action" where
  "memory_get keys q w = (Return (GetCustomer_Handle (memory_queries keys) q (fst w)), w)"

definition memory_orders ::
  "'x env \<Rightarrow> 'x entropy \<Rightarrow> (gerr \<Rightarrow> grpc_code option) \<Rightarrow> (MemoryReadModel \<times> 'x, 'ts) CustomerServer \<Rightarrow>
    (OrderRepository \<times> MemoryReadModel \<times> 'x) OrderDeps" where
  "memory_orders env rand from_error srv =
    order_Module_New None (System_Now (env_beside (env_beside env))) (UUID_NewID (rand_beside (rand_beside rand)))
      (\<lambda>i. beside (Verifier_Verify from_error (Server_GetCustomer srv) i))"

lemma verify_memory:
  assumes "srv_get srv = memory_get keys" "\<And>c m. from_error (StatusError c m) = Some c"
  shows "Verifier_Verify from_error (Server_GetCustomer srv) i (rm, x) =
    (Return (if rm_rows rm i = None then Some ErrNotFound else None), (rm, x))"
  using assms
  by (auto simp: Verifier_Verify_def Server_GetCustomer_def memory_get_def GetCustomer_Handle_def memory_queries_def
      ReadModel_GetByID_def CustomerServer.mapError_def split: option.split)


definition demo_customers :: "(MemoryReadModel \<times> string list, gotime) CustomerServer" where
  "demo_customers =
    \<lparr>srv_create = \<lambda>_ w. (Return (Inl ErrPermission), w), srv_changeEmail = \<lambda>_ w. (Return (Some ErrPermission), w),
     srv_get = memory_get [''a'', ''b''], srv_list = \<lambda>_ w. (Return (Inl ErrPermission), w),
     srv_SetHeader = \<lambda>_ w. (None, w), srv_timestamp = id\<rparr>"


end
