(* ===== verification/Bootstrap.thy ===== *)
theory Bootstrap
  imports KafkaConsumer GrpcStack Postgres Notification OrderContext
begin

text \<open>
  The composition root, \<open>internal/bootstrap\<close>, with the modules' registrations and the connection pool of
  \<open>internal/platform/database\<close>: which implementation is chosen from the configuration, in what order everything is built and
  what is closed when a step fails. \<open>'w\<close> is the state all of it acts on and \<open>'db\<close> a handle on a pool of \<open>database/sql\<close>,
  whose functions are a record, a parameter; so are the client library of Kafka and the gateway's generated registration.
\<close>

subsection \<open>The pool\<close>

record ('db, 'w) SqlDriver =
  drv_Open :: "string \<Rightarrow> string \<Rightarrow> 'w \<Rightarrow> 'db result \<times> 'w"
  drv_SetMaxOpenConns :: "'db \<Rightarrow> int \<Rightarrow> 'w \<Rightarrow> 'w"
  drv_SetMaxIdleConns :: "'db \<Rightarrow> int \<Rightarrow> 'w \<Rightarrow> 'w"
  drv_SetConnMaxLifetime :: "'db \<Rightarrow> int \<Rightarrow> 'w \<Rightarrow> 'w"
  drv_Ping :: "'db \<Rightarrow> 'w \<Rightarrow> gerr option \<times> 'w"
  drv_Close :: "'db \<Rightarrow> 'w \<Rightarrow> gerr option \<times> 'w"

definition database_Open :: "('db, 'w) SqlDriver \<Rightarrow> DatabaseConfig \<Rightarrow> 'w \<Rightarrow> 'db result \<times> 'w" where
  "database_Open drv cfg w =
    (case drv_Open drv ''pgx'' (db_DSN cfg) w of
      (Inl err, w1) \<Rightarrow> (Inl err, w1)
    | (Inr db, w1) \<Rightarrow>
        (let w2 = drv_SetMaxOpenConns drv db (db_MaxOpenConns cfg) w1;
             w3 = drv_SetMaxIdleConns drv db (db_MaxIdleConns cfg) w2;
             w4 = drv_SetConnMaxLifetime drv db (db_ConnMaxLifetime cfg) w3
         in case drv_Ping drv db w4 of
              (Some err, w5) \<Rightarrow> (Inl err, snd (drv_Close drv db w5))
            | (None, w5) \<Rightarrow> (Inr db, w5)))"

subsection \<open>Persistence\<close>

datatype 'db unit_of_work_impl = NoopUnitOfWork | SqlUnitOfWork 'db
datatype 'db repository_impl = MemoryRepository | PostgresRepository 'db
datatype 'db read_model_impl = MemoryReads | PostgresReads 'db

record 'db persistence =
  ps_db :: "'db option"
  ps_unitOfWork :: "'db unit_of_work_impl"
  ps_customerRepo :: "'db repository_impl"
  ps_customerReadModel :: "'db read_model_impl"

definition newPersistence ::
  "'w env \<Rightarrow> ('db, 'w) SqlDriver \<Rightarrow> Config \<Rightarrow> Logger \<Rightarrow> 'w \<Rightarrow> 'db persistence result \<times> 'w" where
  "newPersistence env drv cfg lg w =
    (if \<not> UseDatabase cfg then
       (Inr \<lparr>ps_db = None, ps_unitOfWork = NoopUnitOfWork, ps_customerRepo = MemoryRepository, ps_customerReadModel = MemoryReads\<rparr>,
        Logger_Log env lg LevelInfo ''persistence: in-memory'' [] w)
     else case database_Open drv (app_Database cfg) (Logger_Log env lg LevelInfo ''persistence: postgres'' [] w) of
       (Inl err, w') \<Rightarrow> (Inl err, w')
     | (Inr db, w') \<Rightarrow>
         (Inr \<lparr>ps_db = Some db, ps_unitOfWork = SqlUnitOfWork db, ps_customerRepo = PostgresRepository db,
            ps_customerReadModel = PostgresReads db\<rparr>, w'))"

definition persistence_close :: "('db, 'w) SqlDriver \<Rightarrow> 'db persistence \<Rightarrow> 'w \<Rightarrow> gerr option \<times> 'w" where
  "persistence_close drv p w = (case ps_db p of Some db \<Rightarrow> drv_Close drv db w | None \<Rightarrow> (None, w))"

subsection \<open>The bus\<close>

datatype 'w AnyBus = LocalBus "'w Bus" | KafkaBus "'w KBus"

fun AnyBus_Subscribe :: "('w AnyBus, 'w) subscribe_fn" where
  "AnyBus_Subscribe n h (LocalBus b) w = (let (err, b', w') = Subscribe n h b w in (err, LocalBus b', w'))"
| "AnyBus_Subscribe n h (KafkaBus b) w = (let (err, b', w') = KBus_Subscribe n h b w in (err, KafkaBus b', w'))"

fun AnyBus_Publish :: "'w AnyBus \<Rightarrow> 'w publisher" where
  "AnyBus_Publish (LocalBus b) = Bus_Publish b"
| "AnyBus_Publish (KafkaBus b) = KBus_Publish b"

fun AnyBus_dispatch :: "'w AnyBus \<Rightarrow> string \<Rightarrow> 'w handler list" where
  "AnyBus_dispatch (LocalBus b) n = handlers_of b n"
| "AnyBus_dispatch (KafkaBus b) n = handlersFor b (TopicFor b n) n"

fun AnyBus_mw :: "'w AnyBus \<Rightarrow> 'w middleware list" where
  "AnyBus_mw (LocalBus b) = bus_mw b"
| "AnyBus_mw (KafkaBus b) = kb_mw b"

lemma AnyBus_Subscribe_eq:
  "AnyBus_Subscribe n h (LocalBus lb) w =
    (fst (Subscribe n h lb w), LocalBus (fst (snd (Subscribe n h lb w))), snd (snd (Subscribe n h lb w)))"
  "AnyBus_Subscribe n h (KafkaBus kb) w =
    (fst (KBus_Subscribe n h kb w), KafkaBus (fst (snd (KBus_Subscribe n h kb w))), snd (snd (KBus_Subscribe n h kb w)))"
  by (simp_all split: prod.split)

interpretation any_subscriber: subscriber AnyBus_Subscribe AnyBus_dispatch AnyBus_mw
proof unfold_locales
  fix n m :: string and h :: "'a handler" and b w
  assume n: "n \<noteq> []"
  show "fst (AnyBus_Subscribe n (Some h) b w) = None"
    using local_subscriber.accepts [OF n] kafka_subscriber.accepts [OF n]
    by (cases b) (simp_all only: AnyBus_Subscribe_eq fst_conv)
  assume m: "m \<noteq> []"
  show "AnyBus_dispatch (fst (snd (AnyBus_Subscribe n (Some h) b w))) m =
      (if m = n then AnyBus_dispatch b m @ [Chain h (AnyBus_mw b)] else AnyBus_dispatch b m)"
    using local_subscriber.dispatches [OF n m] kafka_subscriber.dispatches [OF n m]
    by (cases b) (simp_all only: AnyBus_Subscribe_eq fst_conv snd_conv AnyBus_dispatch.simps AnyBus_mw.simps)
next
  fix n :: string and h :: "'a handler" and b w
  show "AnyBus_mw (fst (snd (AnyBus_Subscribe n (Some h) b w))) = AnyBus_mw b"
    using local_subscriber.same_mw kafka_subscriber.same_mw
    by (cases b) (simp_all only: AnyBus_Subscribe_eq fst_conv snd_conv AnyBus_mw.simps)
qed

definition newBus ::
  "'w env \<Rightarrow> ((string \<rightharpoonup> string) \<Rightarrow> string list) \<Rightarrow> 'w KafkaIO \<Rightarrow> Config \<Rightarrow> Logger \<Rightarrow> 'w \<Rightarrow> 'w AnyBus \<times> 'w" where
  "newBus env ord io cfg lg w =
    (let mw = [Recover env, Logging env]; k = app_Kafka cfg
     in if UseKafka cfg then
          (KafkaBus (KBus_New ord
             \<lparr>cfg_Brokers = kfk_Brokers k, cfg_GroupID = kfk_GroupID k, cfg_TopicFor = None, cfg_MaxRetries = kfk_MaxRetries k,
              cfg_Backoff = Some (ExponentialBackoff (kfk_RetryBaseDelay k) (kfk_RetryMaxDelay k)), cfg_RetryTopicFor = None,
              cfg_DLQTopicFor = None, cfg_Codec = None\<rparr> env io mw),
           Logger_Log env lg LevelInfo ''event bus: kafka'' [(''brokers'', AttrTexts (kfk_Brokers k))] w)
        else (LocalBus (Bus_New env mw), Logger_Log env lg LevelInfo ''event bus: in-process'' [] w))"

subsection \<open>Modules\<close>

text \<open>What the customer module is given, and what \<open>New\<close> of the module makes of it.\<close>

record 'w CustomerPorts =
  cp_FindByID :: "CustomerID \<Rightarrow> (Customer result, 'w) action"
  cp_Save :: "Customer \<Rightarrow> (gerr option, 'w) action"
  cp_ExistsByEmail :: "Email \<Rightarrow> (bool result, 'w) action"
  cp_Within :: "'w body \<Rightarrow> 'w body"
  cp_GetByID :: "string \<Rightarrow> (DtoCustomer result, 'w) action"
  cp_List :: "Page \<Rightarrow> (DtoCustomer Page_Result result, 'w) action"
  cp_Register :: "'w AnyBus \<Rightarrow> 'w \<Rightarrow> gerr option \<times> 'w AnyBus \<times> 'w"

definition customer_Deps :: "'w env \<Rightarrow> 'w entropy \<Rightarrow> 'w publisher \<Rightarrow> 'w CustomerPorts \<Rightarrow> 'w Deps" where
  "customer_Deps env rand outboxPub p =
    \<lparr>dep_FindByID = cp_FindByID p, dep_Save = cp_Save p, dep_ExistsByEmail = cp_ExistsByEmail p, dep_Within = cp_Within p,
     dep_Publish = Dispatcher_Publish rand outboxPub, dep_Now = System_Now env, dep_NewID = UUID_NewID rand\<rparr>"

definition customer_Module_New ::
  "(nat \<Rightarrow> nat) \<Rightarrow> ((string \<times> string) list \<Rightarrow> 'w \<Rightarrow> gerr option \<times> 'w) \<Rightarrow> (gotime \<Rightarrow> 'ts) \<Rightarrow>
    'w env \<Rightarrow> 'w entropy \<Rightarrow> 'w publisher \<Rightarrow> 'w CustomerPorts \<Rightarrow> ('w, 'ts) CustomerServer" where
  "customer_Module_New ul setHeader ts env rand outboxPub p =
    (let d = customer_Deps env rand outboxPub p
     in \<lparr>srv_create = CreateCustomer_Handle ul d, srv_changeEmail = ChangeCustomerEmail_Handle ul d,
         srv_get = (\<lambda>q. cp_GetByID p (get_CustomerID q)), srv_list = (\<lambda>q. cp_List p (list_Page q)),
         srv_SetHeader = setHeader, srv_timestamp = ts\<rparr>)"

definition customer_RegisterSubscriptions :: "'w env \<Rightarrow> 'w CustomerPorts \<Rightarrow> 'w AnyBus \<Rightarrow> 'w \<Rightarrow> gerr option \<times> 'w AnyBus \<times> 'w" where
  "customer_RegisterSubscriptions env p bus w =
    (case cp_Register p bus w of
      (Some err, bw) \<Rightarrow> (Some err, bw)
    | (None, bus', w') \<Rightarrow> InboundHandlers_Register AnyBus_Subscribe env bus' w')"

record ('w, 'ts) modules =
  mods_customer :: "('w, 'ts) CustomerServer"
  mods_notification :: "'w NotificationModule"
  mods_order :: "(OrderRepository \<times> 'w) OrderDeps"

definition newModules ::
  "(nat \<Rightarrow> nat) \<Rightarrow> ((string \<times> string) list \<Rightarrow> 'w \<Rightarrow> gerr option \<times> 'w) \<Rightarrow> (gotime \<Rightarrow> 'ts) \<Rightarrow> (gerr \<Rightarrow> grpc_code option) \<Rightarrow>
    'w env \<Rightarrow> 'w entropy \<Rightarrow> 'w publisher \<Rightarrow> 'w CustomerPorts \<Rightarrow> ('w, 'ts) modules" where
  "newModules ul setHeader ts from_error env rand outboxPub p =
    (let srv = customer_Module_New ul setHeader ts env rand outboxPub p
     in \<lparr>mods_customer = srv, mods_notification = notification_New env None,
         mods_order = order_Module_New None (System_Now (env_beside env)) (UUID_NewID (rand_beside rand))
           (\<lambda>i. beside (Verifier_Verify from_error (Server_GetCustomer srv) i))\<rparr>)"

definition registerSubscriptions ::
  "'w env \<Rightarrow> 'w CustomerPorts \<Rightarrow> ('w, 'ts) modules \<Rightarrow> 'w AnyBus \<Rightarrow> 'w \<Rightarrow> gerr option \<times> 'w AnyBus \<times> 'w" where
  "registerSubscriptions env p mods bus w =
    (case customer_RegisterSubscriptions env p bus w of
      (Some err, bw) \<Rightarrow> (Some err, bw)
    | (None, bus', w') \<Rightarrow> notification_RegisterSubscriptions AnyBus_Subscribe (mods_notification mods) bus' w')"

subsection \<open>The application\<close>

record ('db, 'w, 'ts) Application =
  app_cfg :: Config
  app_logger :: Logger
  app_bus :: "'w AnyBus"
  app_relay :: "'w Relay"
  app_persistence :: "'db persistence"
  app_modules :: "('w, 'ts) modules"

text \<open>
  \<open>Build\<close>. The relay holds the bus by reference, so it publishes to the bus with every subscription, the one at the
  end. \<open>ports\<close> gives the functions of the chosen implementations, \<open>gateway\<close> the result of the two generated
  registrations, of which the second is not tried after a failure of the first.
\<close>

definition Build ::
  "'w env \<Rightarrow> 'w entropy \<Rightarrow> (nat \<Rightarrow> nat) \<Rightarrow> ((string \<times> string) list \<Rightarrow> 'w \<Rightarrow> gerr option \<times> 'w) \<Rightarrow> (gotime \<Rightarrow> 'ts) \<Rightarrow>
    (gerr \<Rightarrow> grpc_code option) \<Rightarrow> ((string \<rightharpoonup> string) \<Rightarrow> string list) \<Rightarrow> 'w KafkaIO \<Rightarrow> ('db, 'w) SqlDriver \<Rightarrow> 'w Store \<Rightarrow>
    ('db persistence \<Rightarrow> 'w CustomerPorts) \<Rightarrow> gerr option \<Rightarrow> Config \<Rightarrow> 'w \<Rightarrow> ('db, 'w, 'ts) Application result \<times> 'w" where
  "Build env rand ul setHeader ts from_error ord io drv store ports gateway cfg w =
    (let lg = NewLogger (app_Log cfg);
         w1 = Logger_Log env lg LevelInfo ''building application'' [(''env'', AttrText (app_Env cfg))] w;
         (bus, w2) = newBus env ord io cfg lg w1
     in case newPersistence env drv cfg lg w2 of
          (Inl err, w3) \<Rightarrow> (Inl err, w3)
        | (Inr p, w3) \<Rightarrow>
            (let mods = newModules ul setHeader ts from_error env rand (Publisher_Publish store) (ports p)
             in case gateway of
                  Some err \<Rightarrow> (Inl err, snd (persistence_close drv p w3))
                | None \<Rightarrow>
                    (case registerSubscriptions env (ports p) mods bus w3 of
                      (Some err, _, w4) \<Rightarrow> (Inl err, snd (persistence_close drv p w4))
                    | (None, bus', w4) \<Rightarrow>
                        (Inr \<lparr>app_cfg = cfg, app_logger = lg, app_bus = bus',
                           app_relay = NewRelay store (AnyBus_Publish bus') env
                             \<lparr>opt_Interval = obx_PollInterval (app_Outbox cfg), opt_BatchSize = obx_BatchSize (app_Outbox cfg)\<rparr>,
                           app_persistence = p, app_modules = mods\<rparr>, w4))))"

definition DrainOutbox :: "('db, 'w, 'ts) Application \<Rightarrow> (int \<times> gerr option, 'w) action" where
  "DrainOutbox a = Drain (app_relay a)"

definition app_Close :: "('db, 'w) SqlDriver \<Rightarrow> ('db, 'w, 'ts) Application \<Rightarrow> 'w \<Rightarrow> gerr option \<times> 'w" where
  "app_Close drv a w =
    (let w1 = (case app_bus a of LocalBus b \<Rightarrow> w | KafkaBus b \<Rightarrow> snd (KBus_Close b w))
     in persistence_close drv (app_persistence a) w1)"

subsection \<open>The implementations of the ports\<close>

text \<open>In memory: the repository and the read model are the first and the third component of the state.\<close>

type_synonym 'x memory_world = "(MemoryReadModel \<times> 'x) memory"

definition memory_ports :: "'x env \<Rightarrow> (nat \<Rightarrow> nat) \<Rightarrow> string list \<Rightarrow> 'x memory_world CustomerPorts" where
  "memory_ports env ul keys =
    \<lparr>cp_FindByID = \<lambda>i w. (Return (mem_FindByID ul i (fst w)), w),
     cp_Save = \<lambda>c w. (Return (fst (mem_Save c (fst w))), (snd (mem_Save c (fst w)), snd w)),
     cp_ExistsByEmail = \<lambda>e w. (Return (mem_ExistsByEmail e (fst w)), w),
     cp_Within = Noop_Within,
     cp_GetByID = \<lambda>i w. (Return (ReadModel_GetByID i (fst (snd (snd w)))), w),
     cp_List = \<lambda>p w. (ReadModel_List keys p (fst (snd (snd w))), w),
     cp_Register = register_all AnyBus_Subscribe (map (\<lambda>s. (fst s, \<lambda>e. beside (beside (snd s e))))
       [(EventCustomerCreated, onCreated env), (EventCustomerEmailChanged, onEmailChanged), (EventCustomerDeactivated, onDeactivated)])\<rparr>"

definition pg_ports :: "'w env \<Rightarrow> (nat \<Rightarrow> nat) \<Rightarrow> 'w DB \<Rightarrow> 'w SqlConn \<Rightarrow> 'w CustomerPorts" where
  "pg_ports env ul db conn =
    \<lparr>cp_FindByID = \<lambda>i w. (let (r, w') = pg_FindByID ul conn ([] :: (unit, 'w SqlConn) ctx_value list) i w in (Return r, w')),
     cp_Save = \<lambda>c w. (let (r, w') = pg_Save conn ([] :: (unit, 'w SqlConn) ctx_value list) c w in (Return r, w')),
     cp_ExistsByEmail = \<lambda>e w. (let (r, w') = pg_ExistsByEmail conn ([] :: (unit, 'w SqlConn) ctx_value list) e w in (Return r, w')),
     cp_Within = SQL_Within db,
     cp_GetByID = \<lambda>i w. (let (r, w') = pg_GetByID conn i w in (Return r, w')),
     cp_List = pg_List conn,
     cp_Register = pg_Register AnyBus_Subscribe env conn\<rparr>"

subsection \<open>What is built\<close>

text \<open>A read model registers its three handlers.\<close>

definition registers_reads :: "'w CustomerPorts \<Rightarrow> 'w handler \<Rightarrow> 'w handler \<Rightarrow> 'w handler \<Rightarrow> bool" where
  "registers_reads p hc he hx \<longleftrightarrow> cp_Register p = register_all AnyBus_Subscribe
    [(EventCustomerCreated, hc), (EventCustomerEmailChanged, he), (EventCustomerDeactivated, hx)]"

lemma pg_registers_reads: "registers_reads (pg_ports env ul db conn) (pg_onCreated env conn) (pg_onEmailChanged conn) (pg_onDeactivated conn)"
  by (simp add: registers_reads_def pg_ports_def pg_Register_all)

lemma memory_registers_reads: "registers_reads (memory_ports env ul keys) (\<lambda>e. beside (beside (onCreated env e)))
    (\<lambda>e. beside (beside (onEmailChanged e))) (\<lambda>e. beside (beside (onDeactivated e)))"
  by (simp add: registers_reads_def memory_ports_def)

definition subscriptions :: "'w env \<Rightarrow> 'w handler \<Rightarrow> 'w handler \<Rightarrow> 'w handler \<Rightarrow> (string \<times> 'w handler) list" where
  "subscriptions env hc he hx =
    [(EventCustomerCreated, hc), (EventCustomerEmailChanged, he), (EventCustomerDeactivated, hx),
     (''order.v1.placed'', onOrderPlaced env), (notification_EventCustomerCreated, CustomerCreated_Handle (LogSender_SendWelcome env))]"

lemma registerSubscriptions_all:
  assumes "registers_reads p hc he hx"
  shows "registerSubscriptions env p (newModules ul sh ts fe env rand pub p') bus w = register_all AnyBus_Subscribe (subscriptions env hc he hx) bus w"
proof -
  have "register_all sub (s # ss) b v = (case sub (fst s) (Some (snd s)) b v of (Some err, bw) \<Rightarrow> (Some err, bw) | (None, b', v') \<Rightarrow> register_all sub ss b' v')"
    for sub and s :: "string \<times> 'a handler" and ss b v by simp
  have split: "subscriptions env hc he hx =
      [(EventCustomerCreated, hc), (EventCustomerEmailChanged, he), (EventCustomerDeactivated, hx)] @
      ([(''order.v1.placed'', onOrderPlaced env)] @ [(notification_EventCustomerCreated, CustomerCreated_Handle (LogSender_SendWelcome env))])"
    by (simp add: subscriptions_def)
  have one: "register_all sub [s] b v = sub (fst s) (Some (snd s)) b v" for sub and s :: "string \<times> 'a handler" and b v
    by (simp split: prod.split option.split)
  show ?thesis
    unfolding split register_all_append one
    by (simp only: registerSubscriptions_def customer_RegisterSubscriptions_def assms [unfolded registers_reads_def]
        InboundHandlers_Register_def notification_RegisterSubscriptions_def newModules_def notification_New_def Let_def
        modules.simps NotificationModule.simps option.case fst_conv snd_conv)
       (simp split: prod.split option.split)
qed

lemma subscriptions_named: "list_all (\<lambda>s. fst s \<noteq> []) (subscriptions env hc he hx)"
  by (simp add: subscriptions_def event_names notification_EventCustomerCreated_def)

lemma newBus_empty: "m \<noteq> [] \<Longrightarrow> AnyBus_dispatch (fst (newBus env ord io cfg lg w)) m = []"
  "AnyBus_mw (fst (newBus env ord io cfg lg w)) = [Recover env, Logging env]"
  "(\<exists>kb. fst (newBus env ord io cfg lg w) = KafkaBus kb) = UseKafka cfg"
  by (simp_all add: newBus_def Let_def Bus_New_def KBus_New_def handlers_of_def handlersFor_def bindings_of_def)

lemma AnyBus_Subscribe_kind: "(\<exists>kb. fst (snd (AnyBus_Subscribe n h b w)) = KafkaBus kb) = (\<exists>kb. b = KafkaBus kb)"
  by (cases b) (simp_all add: AnyBus_Subscribe_eq del: AnyBus_Subscribe.simps)

lemma register_all_kind:
  "register_all AnyBus_Subscribe subs b w = (err, b', w') \<Longrightarrow> (\<exists>kb. b' = KafkaBus kb) = (\<exists>kb. b = KafkaBus kb)"
proof (induction subs arbitrary: b w)
  case (Cons s subs)
  obtain e b1 w1 where s: "AnyBus_Subscribe (fst s) (Some (snd s)) b w = (e, b1, w1)"
    by (cases "AnyBus_Subscribe (fst s) (Some (snd s)) b w") auto
  then have "(\<exists>kb. b1 = KafkaBus kb) = (\<exists>kb. b = KafkaBus kb)"
    using AnyBus_Subscribe_kind [of "fst s" "Some (snd s)" b w] by simp
  then show ?case using Cons s by (cases e) auto
qed simp

lemma newPersistence_kind:
  "newPersistence env drv cfg lg w = (Inr p, w') \<Longrightarrow> (ps_db p \<noteq> None) = UseDatabase cfg \<and> (ps_customerReadModel p = MemoryReads) = (\<not> UseDatabase cfg)"
  by (auto simp: newPersistence_def split: if_splits prod.splits sum.splits)

text \<open>The steps of a \<open>Build\<close> that succeeds.\<close>

lemma Build_steps:
  assumes "Build env rand ul sh ts fe ord io drv store ports gateway cfg w = (Inr app, w')"
    and "\<And>p. registers_reads (ports p) hc he hx"
  obtains bus w2 p w3 where
    "newBus env ord io cfg (NewLogger (app_Log cfg)) (Logger_Log env (NewLogger (app_Log cfg)) LevelInfo ''building application''
       [(''env'', AttrText (app_Env cfg))] w) = (bus, w2)"
    "newPersistence env drv cfg (NewLogger (app_Log cfg)) w2 = (Inr p, w3)"
    "register_all AnyBus_Subscribe (subscriptions env hc he hx) bus w3 = (None, app_bus app, w')"
    "app_relay app = NewRelay store (AnyBus_Publish (app_bus app)) env
       \<lparr>opt_Interval = obx_PollInterval (app_Outbox cfg), opt_BatchSize = obx_BatchSize (app_Outbox cfg)\<rparr>"
    "app_persistence app = p" "app_modules app = newModules ul sh ts fe env rand (Publisher_Publish store) (ports p)"
proof -
  let ?lg = "NewLogger (app_Log cfg)"
  let ?w1 = "Logger_Log env ?lg LevelInfo ''building application'' [(''env'', AttrText (app_Env cfg))] w"
  obtain bus w2 where b: "newBus env ord io cfg ?lg ?w1 = (bus, w2)" by (rule prod.exhaust)
  obtain p w3 where p: "newPersistence env drv cfg ?lg w2 = (Inr p, w3)"
    using assms(1) b by (cases "newPersistence env drv cfg ?lg w2") (auto simp: Build_def Let_def split: sum.splits)
  let ?mods = "newModules ul sh ts fe env rand (Publisher_Publish store) (ports p)"
  have r: "registerSubscriptions env (ports p) ?mods bus w3 = (None, app_bus app, w')"
    "app_relay app = NewRelay store (AnyBus_Publish (app_bus app)) env
       \<lparr>opt_Interval = obx_PollInterval (app_Outbox cfg), opt_BatchSize = obx_BatchSize (app_Outbox cfg)\<rparr>"
    "app_persistence app = p" "app_modules app = ?mods"
    using assms(1) b p by (auto simp: Build_def Let_def split: option.splits prod.splits)
  have "register_all AnyBus_Subscribe (subscriptions env hc he hx) bus w3 = (None, app_bus app, w')"
    using r(1) registerSubscriptions_all [OF assms(2)] by metis
  from that [OF b p this r(2-4)] show thesis .
qed

text \<open>Which handlers, in which order, the registered bus gives an event to.\<close>

definition wired_handlers :: "'w env \<Rightarrow> 'w handler \<Rightarrow> 'w handler \<Rightarrow> 'w handler \<Rightarrow> string \<Rightarrow> 'w handler list" where
  "wired_handlers env hc he hx m = map (\<lambda>h. Recover env (Logging env h))
    (if m = EventCustomerCreated then [hc, CustomerCreated_Handle (LogSender_SendWelcome env)]
     else if m = EventCustomerEmailChanged then [he] else if m = EventCustomerDeactivated then [hx]
     else if m = ''order.v1.placed'' then [onOrderPlaced env] else [])"

lemma registered_handlers:
  assumes "register_all AnyBus_Subscribe (subscriptions env hc he hx) (fst (newBus env ord io cfg lg w)) w3 = (None, bus', w4)" "m \<noteq> []"
  shows "AnyBus_dispatch bus' m = wired_handlers env hc he hx m"
proof -
  have "AnyBus_dispatch bus' m = map (\<lambda>s. Recover env (Logging env (snd s))) (filter (\<lambda>s. fst s = m) (subscriptions env hc he hx))"
    using any_subscriber.register_all_ok [OF subscriptions_named, of env hc he hx "fst (newBus env ord io cfg lg w)" w3] assms(1)
      newBus_empty(1) [OF assms(2), of env ord io cfg lg w] newBus_empty(2) [of env ord io cfg lg w] assms(2) by auto
  moreover have "filter (\<lambda>s. fst s = m) (subscriptions env hc he hx) = map (\<lambda>h. (m, h))
      (if m = EventCustomerCreated then [hc, CustomerCreated_Handle (LogSender_SendWelcome env)]
       else if m = EventCustomerEmailChanged then [he] else if m = EventCustomerDeactivated then [hx]
       else if m = ''order.v1.placed'' then [onOrderPlaced env] else [])"
    by (auto simp: subscriptions_def event_names notification_EventCustomerCreated_def)
  ultimately show ?thesis by (simp add: wired_handlers_def)
qed

text \<open>Property C31: what \<open>Build\<close> returns is wired completely, whichever implementations the configuration chooses. A Kafka
  bus is used exactly when brokers are configured and a database exactly when a DSN is. Every handler of every context is
  subscribed on that bus, inside recovery and logging: a created customer goes to the projection and then to the welcome, the
  other customer events to the projection, placed orders to the customer context, and nothing else to anyone. The
  relay publishes to the same bus, in positive batches.\<close>

theorem build_wires_every_context:
  assumes "Build env rand ul sh ts fe ord io drv store ports gateway cfg w = (Inr app, w')"
    and "\<And>p. registers_reads (ports p) hc he hx" "m \<noteq> []"
  shows "(\<exists>kb. app_bus app = KafkaBus kb) = UseKafka cfg \<and> (ps_db (app_persistence app) \<noteq> None) = UseDatabase cfg \<and>
    AnyBus_dispatch (app_bus app) m = map (\<lambda>h. Recover env (Logging env h))
      (if m = EventCustomerCreated then [hc, CustomerCreated_Handle (LogSender_SendWelcome env)]
       else if m = EventCustomerEmailChanged then [he] else if m = EventCustomerDeactivated then [hx]
       else if m = ''order.v1.placed'' then [onOrderPlaced env] else []) \<and>
    relay_publisher (app_relay app) = AnyBus_Publish (app_bus app) \<and> 0 < relay_batchSize (app_relay app)"
proof -
  obtain bus w2 p w3 where b: "newBus env ord io cfg (NewLogger (app_Log cfg)) (Logger_Log env (NewLogger (app_Log cfg)) LevelInfo
      ''building application'' [(''env'', AttrText (app_Env cfg))] w) = (bus, w2)"
    "newPersistence env drv cfg (NewLogger (app_Log cfg)) w2 = (Inr p, w3)"
    "register_all AnyBus_Subscribe (subscriptions env hc he hx) bus w3 = (None, app_bus app, w')"
    "app_relay app = NewRelay store (AnyBus_Publish (app_bus app)) env
       \<lparr>opt_Interval = obx_PollInterval (app_Outbox cfg), opt_BatchSize = obx_BatchSize (app_Outbox cfg)\<rparr>" "app_persistence app = p"
    by (rule Build_steps [OF assms(1,2)])
  have "(\<exists>kb. bus = KafkaBus kb) = UseKafka cfg" using newBus_empty(3) b(1) by (metis fst_conv)
  moreover have "AnyBus_dispatch (app_bus app) m = wired_handlers env hc he hx m"
    using registered_handlers [OF _ assms(3)] b(1,3) by (metis fst_conv)
  ultimately show ?thesis
    using register_all_kind [OF b(3)] newPersistence_kind [OF b(2)] b(4,5) by (simp add: relay_bounds wired_handlers_def)
qed

text \<open>
  A small world to build in: the in-memory state over a list of names, a Kafka client and a database driver that do
  nothing but, for the driver, count the pools that are open.
\<close>

type_synonym demo_world = "(nat list \<times> string list) memory_world"

definition counting_env :: "(nat list \<times> string list) env" where
  "counting_env = env_beside demo_env"

definition small_env :: "demo_world env" where
  "small_env = env_beside (env_beside (env_beside counting_env))"

definition small_rand :: "demo_world entropy" where
  "small_rand w = (Inr demo_bytes, w)"

definition small_io :: "demo_world KafkaIO" where
  "small_io = \<lparr>io_WriteMessages = \<lambda>_ w. (None, w), io_FetchMessage = \<lambda>_ w. (Inl ErrNotFound, w), io_CommitMessages = \<lambda>_ _ w. (None, w),
     io_CloseReader = \<lambda>_ w. (None, w), io_CloseWriter = \<lambda>w. (None, w), io_ctx_Err = \<lambda>_. None, io_ctx_Done = \<lambda>w. w,
     io_wait = \<lambda>_ w. (True, w), io_ErrGroupClosed = ErrNotFound\<rparr>"

text \<open>The numbers of the pools that are open; a new one takes a number that none of them has.\<close>

definition pools_of :: "demo_world \<Rightarrow> nat list" where
  "pools_of w = fst (snd (snd (snd w)))"

definition with_pools :: "(nat list \<Rightarrow> nat list) \<Rightarrow> demo_world \<Rightarrow> demo_world" where
  "with_pools f w = (case w of (r, s, m, ps, l) \<Rightarrow> (r, s, m, f ps, l))"

definition small_setup :: "Config \<Rightarrow> (nat persistence \<Rightarrow> demo_world CustomerPorts) \<Rightarrow> (nat, demo_world) SqlDriver \<Rightarrow>
    demo_world \<Rightarrow> (nat, demo_world, gotime) Application result \<times> demo_world" where
  "small_setup cfg ports drv = Build small_env small_rand id (\<lambda>_ w. (None, w)) id status_code (\<lambda>_. []) small_io drv
     \<lparr>store_Add = \<lambda>_ w. (Return None, w), store_FetchPending = \<lambda>_ w. (Return (Inr []), w),
      store_MarkPublished = \<lambda>_ w. (Return None, w), store_MarkFailed = \<lambda>_ _ w. (Return None, w)\<rparr> ports None cfg"

definition small_ports :: "nat persistence \<Rightarrow> demo_world CustomerPorts" where
  "small_ports p = memory_ports counting_env id []"

definition unreachable_driver :: "(nat, demo_world) SqlDriver" where
  "unreachable_driver =
    \<lparr>drv_Open = \<lambda>_ _ w. (let db = Suc (sum_list (pools_of w)) in (Inr db, with_pools ((#) db) w)),
     drv_SetMaxOpenConns = \<lambda>_ _ w. w, drv_SetMaxIdleConns = \<lambda>_ _ w. w, drv_SetConnMaxLifetime = \<lambda>_ _ w. w,
     drv_Ping = \<lambda>_ w. (Some (ErrorString ''connection refused''), w),
     drv_Close = \<lambda>db w. (None, with_pools (removeAll db) w)\<rparr>"

lemma Build_registers:
  assumes "registers_reads (ports p) hc he hx" "newPersistence env drv cfg (NewLogger (app_Log cfg))
      (snd (newBus env ord io cfg (NewLogger (app_Log cfg)) (Logger_Log env (NewLogger (app_Log cfg)) LevelInfo ''building application''
        [(''env'', AttrText (app_Env cfg))] w))) = (Inr p, w3)"
  shows "\<exists>app w'. Build env rand ul sh ts fe ord io drv store ports None cfg w = (Inr app, w')"
proof -
  let ?lg = "NewLogger (app_Log cfg)"
  let ?w1 = "Logger_Log env ?lg LevelInfo ''building application'' [(''env'', AttrText (app_Env cfg))] w"
  obtain bus w2 where b: "newBus env ord io cfg ?lg ?w1 = (bus, w2)" by (rule prod.exhaust)
  obtain bus' w4 where "register_all AnyBus_Subscribe (subscriptions env hc he hx) bus w3 = (None, bus', w4)"
    using any_subscriber.register_all_ok [OF subscriptions_named, of env hc he hx bus w3] by blast
  then have "registerSubscriptions env (ports p) (newModules ul sh ts fe env rand (Publisher_Publish store) (ports p)) bus w3 = (None, bus', w4)"
    using registerSubscriptions_all [OF assms(1)] by metis
  then show ?thesis using assms(2) b by (simp add: Build_def Let_def)
qed

lemma Build_refused:
  assumes "\<And>lg w. fst (newPersistence env drv cfg lg w) = Inl err"
  shows "\<exists>w'. Build env rand ul sh ts fe ord io drv store ports gateway cfg w = (Inl err, w')"
proof -
  let ?w1 = "Logger_Log env (NewLogger (app_Log cfg)) LevelInfo ''building application'' [(''env'', AttrText (app_Env cfg))] w"
  obtain bus w2 where b: "newBus env ord io cfg (NewLogger (app_Log cfg)) ?w1 = (bus, w2)" by (rule prod.exhaust)
  obtain w3 where "newPersistence env drv cfg (NewLogger (app_Log cfg)) w2 = (Inl err, w3)"
    using assms [of "NewLogger (app_Log cfg)" w2] by (metis prod.collapse)
  then show ?thesis using b by (simp add: Build_def Let_def)
qed

theorem build_wires_every_context_witness:
  "\<exists>app w'. small_setup Default small_ports unreachable_driver (mem_New, NewMemoryStore, NewMemoryReadModel, [], []) = (Inr app, w') \<and>
    length (AnyBus_dispatch (app_bus app) ''customer.v1.created'') = 2 \<and> ps_db (app_persistence app) = None"
proof -
  have r: "registers_reads (small_ports p) (\<lambda>e. beside (beside (onCreated counting_env e)))
    (\<lambda>e. beside (beside (onEmailChanged e))) (\<lambda>e. beside (beside (onDeactivated e)))" for p
    by (simp add: small_ports_def memory_registers_reads)
  have d: "\<not> UseDatabase Default" by (simp add: UseDatabase_def Default_def)
  have p: "newPersistence env drv Default lg w = (Inr \<lparr>ps_db = None, ps_unitOfWork = NoopUnitOfWork, ps_customerRepo = MemoryRepository,
      ps_customerReadModel = MemoryReads\<rparr>, Logger_Log env lg LevelInfo ''persistence: in-memory'' [] w)" for env :: "demo_world env" and drv lg w
    using d by (simp add: newPersistence_def)
  obtain app w' where a: "small_setup Default small_ports unreachable_driver (mem_New, NewMemoryStore, NewMemoryReadModel, [], []) = (Inr app, w')"
    unfolding small_setup_def using Build_registers [where ports = small_ports, OF r p] by blast
  have "length (AnyBus_dispatch (app_bus app) ''customer.v1.created'') = 2 \<and> ps_db (app_persistence app) = None"
    using build_wires_every_context [OF a [unfolded small_setup_def] r, of "''customer.v1.created''"] d
    by (simp add: EventCustomerCreated_def)
  with a show ?thesis by blast
qed

subsection \<open>Pools\<close>

text \<open>What \<open>database/sql\<close> documents of a pool: opening one that succeeds adds it to the open ones, closing removes it.\<close>

definition pool_laws :: "('db, 'w) SqlDriver \<Rightarrow> ('w \<Rightarrow> 'db set) \<Rightarrow> bool" where
  "pool_laws drv live \<longleftrightarrow>
    (\<forall>d dsn w r w'. drv_Open drv d dsn w = (r, w') \<longrightarrow>
      (case r of Inl e \<Rightarrow> live w' = live w | Inr db \<Rightarrow> db \<notin> live w \<and> live w' = insert db (live w))) \<and>
    (\<forall>db n w. live (drv_SetMaxOpenConns drv db n w) = live w \<and> live (drv_SetMaxIdleConns drv db n w) = live w \<and>
      live (drv_SetConnMaxLifetime drv db n w) = live w) \<and>
    (\<forall>db w. live (snd (drv_Ping drv db w)) = live w) \<and> (\<forall>db w. live (snd (drv_Close drv db w)) = live w - {db})"

lemma pool_lawsD:
  assumes "pool_laws drv live"
  shows "drv_Open drv d dsn w = (Inl e, w') \<Longrightarrow> live w' = live w"
    and "drv_Open drv d dsn w = (Inr db, w') \<Longrightarrow> db \<notin> live w \<and> live w' = insert db (live w)"
    and "live (drv_SetMaxOpenConns drv db n w) = live w" "live (drv_SetMaxIdleConns drv db n w) = live w"
    "live (drv_SetConnMaxLifetime drv db n w) = live w" "live (snd (drv_Ping drv db w)) = live w"
    "live (snd (drv_Close drv db w)) = live w - {db}"
proof -
  note p = assms [unfolded pool_laws_def]
  show "drv_Open drv d dsn w = (Inl e, w') \<Longrightarrow> live w' = live w" using p [THEN conjunct1] by fastforce
  show "drv_Open drv d dsn w = (Inr db, w') \<Longrightarrow> db \<notin> live w \<and> live w' = insert db (live w)" using p [THEN conjunct1] by fastforce
qed (use assms in \<open>simp_all add: pool_laws_def\<close>)

lemma database_Open_pool:
  assumes "pool_laws drv live" "database_Open drv cfg w = (r, w')"
  shows "case r of Inl e \<Rightarrow> live w' = live w | Inr db \<Rightarrow> db \<notin> live w \<and> live w' = insert db (live w)"
proof -
  note l = pool_lawsD [OF assms(1)]
  show ?thesis
  proof (cases "drv_Open drv ''pgx'' (db_DSN cfg) w")
    case (Pair r0 w1)
    show ?thesis
    proof (cases r0)
      case (Inl e)
      then show ?thesis using assms(2) Pair l(1) by (auto simp: database_Open_def)
    next
      case (Inr db)
      define w4 where "w4 = drv_SetConnMaxLifetime drv db (db_ConnMaxLifetime cfg) (drv_SetMaxIdleConns drv db (db_MaxIdleConns cfg)
        (drv_SetMaxOpenConns drv db (db_MaxOpenConns cfg) w1))"
      have w4: "db \<notin> live w" "live w4 = insert db (live w)" using l(2) [of "''pgx''" "db_DSN cfg" w db w1] Pair Inr by (simp_all add: w4_def l(3-5))
      obtain e w5 where ping: "drv_Ping drv db w4 = (e, w5)" by (rule prod.exhaust)
      have w5: "live w5 = insert db (live w)" using l(6) [of db w4] ping w4 by simp
      show ?thesis
        using assms(2) Pair Inr ping w4 w5 l(7) [of db w5]
        by (cases e) (auto simp: database_Open_def Let_def w4_def [symmetric])
    qed
  qed
qed

text \<open>Registering handlers only writes to the log of the bus.\<close>

fun built_on :: "'w env \<Rightarrow> 'w KafkaIO \<Rightarrow> 'w AnyBus \<Rightarrow> bool" where
  "built_on env io (LocalBus b) = (bus_env b = env)"
| "built_on env io (KafkaBus b) = (kb_env b = env \<and> kb_io b = io)"

lemma subscribe_pool:
  assumes "\<And>r w. live (log_write env r w) = live w" "built_on env io b"
  shows "live (snd (snd (AnyBus_Subscribe n (Some h) b w))) = live w \<and> built_on env io (fst (snd (AnyBus_Subscribe n (Some h) b w)))"
  using assms by (cases b) (auto simp: AnyBus_Subscribe_eq Subscribe_def KBus_Subscribe_def Let_def simp del: AnyBus_Subscribe.simps)

lemma register_all_pool:
  assumes "\<And>r w. live (log_write env r w) = live w" "built_on env io b" "register_all AnyBus_Subscribe subs b w = (e, b', w')"
  shows "live w' = live w \<and> built_on env io b'"
  using assms(2,3)
proof (induction subs arbitrary: b w)
  case (Cons s subs)
  obtain e1 b1 w1 where s: "AnyBus_Subscribe (fst s) (Some (snd s)) b w = (e1, b1, w1)"
    by (cases "AnyBus_Subscribe (fst s) (Some (snd s)) b w") auto
  have "live w1 = live w" "built_on env io b1"
    using subscribe_pool [where live = live, OF assms(1) Cons.prems(1), of "fst s" "snd s" w] s by simp_all
  then show ?case using Cons s by (cases e1) auto
qed simp

lemma newPersistence_pool:
  assumes "pool_laws drv live" "\<And>r w. live (log_write env r w) = live w" "newPersistence env drv cfg lg w = (rp, w')"
  shows "case rp of Inl err \<Rightarrow> live w' = live w
    | Inr ps \<Rightarrow> (case ps_db ps of None \<Rightarrow> live w' = live w | Some db \<Rightarrow> db \<notin> live w \<and> live w' = insert db (live w))"
proof (cases "UseDatabase cfg")
  case True
  have log: "live (Logger_Log env lg l msg as v) = live v" for l msg as v by (simp add: Logger_Log_def assms(2))
  obtain r where o: "database_Open drv (app_Database cfg) (Logger_Log env lg LevelInfo ''persistence: postgres'' [] w) = (r, w')"
    and r: "case rp of Inl err \<Rightarrow> r = Inl err | Inr ps \<Rightarrow> \<exists>db. r = Inr db \<and> ps_db ps = Some db"
    using assms(3) True by (auto simp: newPersistence_def split: prod.splits sum.splits)
  from database_Open_pool [OF assms(1) o] r show ?thesis by (auto simp: log split: sum.splits)
qed (use assms in \<open>auto simp: newPersistence_def Logger_Log_def\<close>)

text \<open>Property C32: no connection pool is lost. When \<open>Build\<close> fails, at whatever step, the pools open afterwards are those
  that were open before: a pool that was opened but could not be used has been closed. When it succeeds exactly the
  application's own pool has been added, none in the in-memory profile, and closing the application removes it again.\<close>

theorem build_leaks_no_pool:
  assumes "pool_laws drv live" "\<And>r w. live (log_write env r w) = live w" "\<And>b w. kb_io b = io \<Longrightarrow> live (snd (KBus_Close b w)) = live w"
    and "\<And>p. registers_reads (ports p) hc he hx"
    and "Build env rand ul sh ts fe ord io drv store ports gateway cfg w = (res, w')"
  shows "case res of Inl err \<Rightarrow> live w' = live w
    | Inr app \<Rightarrow> (case ps_db (app_persistence app) of None \<Rightarrow> live w' = live w | Some db \<Rightarrow> db \<notin> live w \<and> live w' = insert db (live w)) \<and>
        live (snd (app_Close drv app w')) = live w"
proof -
  let ?lg = "NewLogger (app_Log cfg)"
  let ?w1 = "Logger_Log env ?lg LevelInfo ''building application'' [(''env'', AttrText (app_Env cfg))] w"
  have lg: "live (Logger_Log env lg l msg as v) = live v" for lg l msg as v by (simp add: Logger_Log_def assms(2))
  obtain bus w2 where b: "newBus env ord io cfg ?lg ?w1 = (bus, w2)" by (rule prod.exhaust)
  have w2: "live w2 = live w" "built_on env io bus"
    using b by (auto simp: newBus_def Let_def Bus_New_def KBus_New_def lg split: if_splits)
  obtain rp w3 where p: "newPersistence env drv cfg ?lg w2 = (rp, w3)" by (rule prod.exhaust)
  note pool = newPersistence_pool [OF assms(1,2) p, unfolded w2(1)]
  show ?thesis
  proof (cases rp)
    case (Inl err)
    then have "res = Inl err" "w' = w3" using assms(5) b p by (simp_all add: Build_def Let_def)
    then show ?thesis using pool Inl by simp
  next
    case (Inr ps)
    have w3: "case ps_db ps of None \<Rightarrow> live w3 = live w | Some db \<Rightarrow> db \<notin> live w \<and> live w3 = insert db (live w)"
      using pool Inr by simp
    have close: "live (snd (persistence_close drv ps v)) = live w" if "live v = live w3" for v
      using w3 that pool_lawsD(7) [OF assms(1)] by (auto simp: persistence_close_def split: option.splits)
    let ?mods = "newModules ul sh ts fe env rand (Publisher_Publish store) (ports ps)"
    obtain e bus' w4 where r: "registerSubscriptions env (ports ps) ?mods bus w3 = (e, bus', w4)" by (metis prod_cases3)
    have w4: "live w4 = live w3" "built_on env io bus'"
      using register_all_pool [where live = live, OF assms(2) w2(2)] r registerSubscriptions_all [OF assms(4)] by metis+
    show ?thesis
    proof (cases gateway)
      case (Some err)
      then have "res = Inl err" "w' = snd (persistence_close drv ps w3)" using assms(5) b p Inr by (simp_all add: Build_def Let_def)
      then show ?thesis using close by simp
    next
      case None
      show ?thesis
      proof (cases e)
        case (Some err)
        then have "res = Inl err" "w' = snd (persistence_close drv ps w4)" using assms(5) b p Inr None r by (simp_all add: Build_def Let_def)
        then show ?thesis using close w4 by simp
      next
        case e: None
        then obtain app where app: "res = Inr app" "w' = w4" "app_persistence app = ps" "app_bus app = bus'"
          using assms(5) b p Inr None r by (auto simp: Build_def Let_def)
        have "live (snd (app_Close drv app w')) = live w"
          using close [of "case bus' of LocalBus b \<Rightarrow> w4 | KafkaBus b \<Rightarrow> snd (KBus_Close b w4)"] app w4 assms(3)
          by (cases bus') (simp_all add: app_Close_def)
        then show ?thesis using app w3 w4 by (auto split: option.splits)
      qed
    qed
  qed
qed

lemma unreachable_driver_laws: "pool_laws unreachable_driver (\<lambda>w. set (pools_of w))"
proof -
  have "Suc (sum_list xs) \<notin> set xs" for xs :: "nat list" using member_le_sum_list [of "Suc (sum_list xs)" xs] by auto
  then show ?thesis
    by (auto simp: pool_laws_def unreachable_driver_def with_pools_def pools_of_def Let_def split: sum.splits)
qed

text \<open>With a database that cannot be reached, the build fails with its error and the pool it had opened is closed.\<close>

theorem build_leaks_no_pool_witness:
  "\<exists>w'. small_setup (Default\<lparr>app_Database := (app_Database Default)\<lparr>db_DSN := ''postgres://db''\<rparr>\<rparr>) small_ports unreachable_driver
      (mem_New, NewMemoryStore, NewMemoryReadModel, [7], []) = (Inl (ErrorString ''connection refused''), w') \<and> set (pools_of w') = {7}"
proof -
  let ?cfg = "Default\<lparr>app_Database := (app_Database Default)\<lparr>db_DSN := ''postgres://db''\<rparr>\<rparr>"
  let ?w = "(mem_New, NewMemoryStore, NewMemoryReadModel, [7], []) :: demo_world"
  have r: "registers_reads (small_ports p) (\<lambda>e. beside (beside (onCreated counting_env e)))
    (\<lambda>e. beside (beside (onEmailChanged e))) (\<lambda>e. beside (beside (onDeactivated e)))" for p
    by (simp add: small_ports_def memory_registers_reads)
  have log: "set (pools_of (log_write small_env rc w)) = set (pools_of w)" for rc w
    by (cases w) (simp add: small_env_def counting_env_def env_beside_def pools_of_def)
  have rs: "close_readers small_io rs w = ([], w)" for rs w by (induction rs arbitrary: w) (simp_all add: small_io_def)
  have io: "kb_io b = small_io \<Longrightarrow> set (pools_of (snd (KBus_Close b w))) = set (pools_of w)" for b w
    by (simp add: KBus_Close_def rs) (simp add: small_io_def)
  have np: "fst (newPersistence small_env unreachable_driver ?cfg lg w) = Inl (ErrorString ''connection refused'')" for lg w
    by (simp add: newPersistence_def UseDatabase_def database_Open_def unreachable_driver_def Let_def)
  obtain w' where b: "small_setup ?cfg small_ports unreachable_driver ?w = (Inl (ErrorString ''connection refused''), w')"
    unfolding small_setup_def using Build_refused [OF np] by blast
  from build_leaks_no_pool [where live = "\<lambda>w. set (pools_of w)", OF unreachable_driver_laws log io r b [unfolded small_setup_def]] b show ?thesis
    by (simp add: pools_of_def)
qed

end
