(* ===== verification/Processes.thy ===== *)
theory Processes
  imports Bootstrap
begin

text \<open>
  The processes: the HTTP and gRPC servers' lifecycle (\<open>internal/platform/httpx/server.go\<close>,
  \<open>internal/platform/grpcx/server.go\<close>), the probes and the background loops of the application
  (\<open>internal/bootstrap/application.go\<close>) and the two \<open>main\<close> packages that run them (\<open>cmd/api\<close>, \<open>cmd/worker\<close>).
  Goroutines appear by what they send: an input lists, in order, what a select or a channel receives. The listeners
  and the graceful shutdowns of \<open>net/http\<close> and gRPC are functions on the state, parameters.
\<close>

definition Canceled :: gerr where
  "Canceled = ErrorString ''context canceled''"

definition ErrServerClosed :: gerr where
  "ErrServerClosed = ErrorString ''http: Server closed''"

subsection \<open>Servers\<close>

record HttpServer =
  hsv_Addr :: string
  hsv_ReadTimeout :: int
  hsv_ReadHeaderTimeout :: int
  hsv_WriteTimeout :: int
  hsv_IdleTimeout :: int
  hsv_shutdownTimeout :: int
  hsv_logger :: Logger

definition http_New :: "HTTPConfig \<Rightarrow> Logger \<Rightarrow> HttpServer" where
  "http_New cfg lg =
    \<lparr>hsv_Addr = http_Addr cfg, hsv_ReadTimeout = http_ReadTimeout cfg, hsv_ReadHeaderTimeout = http_ReadTimeout cfg,
     hsv_WriteTimeout = http_WriteTimeout cfg, hsv_IdleTimeout = 60 * Second, hsv_shutdownTimeout = http_ShutdownTimeout cfg,
     hsv_logger = lg\<rparr>"

text \<open>What happens to a running server, in order: its serving goroutine ends, or the context is cancelled.\<close>

datatype server_event = Served "gerr option" | Cancelled

text \<open>The result is \<open>None\<close> while \<open>Run\<close> still waits. The goroutine sends only a real failure.\<close>

fun http_Run_loop :: "'w env \<Rightarrow> (int \<Rightarrow> 'w \<Rightarrow> gerr option \<times> 'w) \<Rightarrow> HttpServer \<Rightarrow> server_event list \<Rightarrow> 'w \<Rightarrow> gerr option option \<times> 'w" where
  "http_Run_loop env shutdown s [] w = (None, w)"
| "http_Run_loop env shutdown s (Served None # evs) w = http_Run_loop env shutdown s evs w"
| "http_Run_loop env shutdown s (Served (Some err) # evs) w =
    (if errors_Is err ErrServerClosed then http_Run_loop env shutdown s evs w else (Some (Some err), w))"
| "http_Run_loop env shutdown s (Cancelled # evs) w =
    (let (err, w') = shutdown (hsv_shutdownTimeout s) (Logger_Log env (hsv_logger s) LevelInfo ''http server shutting down'' [] w)
     in (Some err, w'))"

definition http_Run :: "'w env \<Rightarrow> (int \<Rightarrow> 'w \<Rightarrow> gerr option \<times> 'w) \<Rightarrow> HttpServer \<Rightarrow> server_event list \<Rightarrow> 'w \<Rightarrow> gerr option option \<times> 'w" where
  "http_Run env shutdown s evs w =
    http_Run_loop env shutdown s evs (Logger_Log env (hsv_logger s) LevelInfo ''http server listening'' [(''addr'', AttrText (hsv_Addr s))] w)"

record GrpcServer =
  gsv_addr :: string
  gsv_logger :: Logger

definition grpc_New :: "GRPCConfig \<Rightarrow> Logger \<Rightarrow> GrpcServer" where
  "grpc_New cfg lg = \<lparr>gsv_addr = grpc_Addr cfg, gsv_logger = lg\<rparr>"

definition grpc_Run ::
  "'w env \<Rightarrow> (string \<Rightarrow> 'w \<Rightarrow> gerr option \<times> 'w) \<Rightarrow> ('w \<Rightarrow> 'w) \<Rightarrow> GrpcServer \<Rightarrow> server_event list \<Rightarrow> 'w \<Rightarrow> gerr option option \<times> 'w" where
  "grpc_Run env listen gracefulStop s evs w =
    (case listen (gsv_addr s) w of
      (Some err, w1) \<Rightarrow> (Some (Some err), w1)
    | (None, w1) \<Rightarrow>
        (let w2 = Logger_Log env (gsv_logger s) LevelInfo ''grpc server listening'' [(''addr'', AttrText (gsv_addr s))] w1
         in case evs of
              [] \<Rightarrow> (None, w2)
            | Served err # _ \<Rightarrow> (Some err, w2)
            | Cancelled # _ \<Rightarrow> (Some None, gracefulStop (Logger_Log env (gsv_logger s) LevelInfo ''grpc server shutting down'' [] w2))))"

subsection \<open>Probes\<close>

text \<open>\<open>writeJSON\<close> of a map of strings, whose keys the encoder sorts, with the newline it ends every value with.\<close>

definition writeJSON :: "writer \<Rightarrow> int \<Rightarrow> (string \<times> string) list \<Rightarrow> (unit, Exchange) action" where
  "writeJSON w status kvs = run_ops w
    [SetHeader ''Content-Type'' ''application/json; charset=utf-8'', SendStatus status, SendBytes (marshal_strings kvs @ [CHR 0x0A])]"

definition healthz :: "'x http_handler" where
  "healthz w r sx = (let (res, s') = writeJSON w 200 [(''status'', ''ok'')] (fst sx) in (res, (s', snd sx)))"

definition readyz :: "('db, 'x) SqlDriver \<Rightarrow> 'db persistence \<Rightarrow> 'x http_handler" where
  "readyz drv p w r sx =
    (case ps_db p of
      None \<Rightarrow> (let (res, s') = writeJSON w 200 [(''status'', ''ready'')] (fst sx) in (res, (s', snd sx)))
    | Some db \<Rightarrow>
        (case drv_Ping drv db (snd sx) of
          (Some err, x') \<Rightarrow>
            (let (res, s') = writeJSON w 503 [(''detail'', error_text err), (''status'', ''unavailable'')] (fst sx) in (res, (s', x')))
        | (None, x') \<Rightarrow> (let (res, s') = writeJSON w 200 [(''status'', ''ready'')] (fst sx) in (res, (s', x')))))"

definition readyz_script :: "('db, 'x) SqlDriver \<Rightarrow> 'db persistence \<Rightarrow> Request \<Rightarrow> 'x \<Rightarrow> writer_op list \<times> string option \<times> 'x" where
  "readyz_script drv p r x =
    (let (err, x') = (case ps_db p of None \<Rightarrow> (None, x) | Some db \<Rightarrow> drv_Ping drv db x);
         (status, kvs) = (case err of None \<Rightarrow> (200, [(''status'', ''ready'')])
           | Some e \<Rightarrow> (503, [(''detail'', error_text e), (''status'', ''unavailable'')]))
     in ([SetHeader ''Content-Type'' ''application/json; charset=utf-8'', SendStatus status, SendBytes (marshal_strings kvs @ [CHR 0x0A])],
         None, x'))"

lemma readyz_scripted: "readyz drv p = scripted (readyz_script drv p)"
  by (auto simp: readyz_def scripted_def readyz_script_def writeJSON_def fun_eq_iff Let_def split: option.split prod.split outcome.split)

lemma content_type: "CanonicalHeaderKey ''Content-Type'' = ''Content-Type''"
  by code_simp

lemma readyz_script_ok: "list_all op_ok (fst (readyz_script drv p r x))"
  by (auto simp: readyz_script_def content_type Let_def split: option.split prod.split)

text \<open>The readiness probe tells the truth about the database. Asked through the whole HTTP stack, it answers 503 when
  a database is configured and does not answer a ping, and 200 otherwise, always so in the in-memory profile; the ping is
  made once, on this request, and the answer is logged with the same status.\<close>

theorem readyz_reports_the_database:
  assumes "rand_ok rand"
  shows "\<exists>x0 s' h n start x' lg. http_stack env rand logger (readyz drv p) NetWriter r (new_exchange, x) =
      (Return (), (s', access_record env lg r
        (case ps_db p of Some db \<Rightarrow> (if fst (drv_Ping drv db x0) = None then 200 else 503) | None \<Rightarrow> 200) n start x')) \<and>
    ex_sent s' = Some (case ps_db p of Some db \<Rightarrow> (if fst (drv_Ping drv db x0) = None then 200 else 503) | None \<Rightarrow> 200, h) \<and>
    x' = (case ps_db p of Some db \<Rightarrow> snd (drv_Ping drv db x0) | None \<Rightarrow> x0)"
proof -
  obtain rid x0 s' where run: "let lg = Logger_With logger [(''request_id'', AttrText rid)]; r' = r\<lparr>rq_ctx := logging_Into (rq_ctx r) lg\<rparr>;
         (start, x1) = clock_now env x0; (ops, p', x2) = readyz_script drv p r' x1
     in http_stack env rand logger (readyz drv p) NetWriter r (new_exchange, x) =
          (Return (), (s', access_record env lg r (if p' = None then last_status 200 ops else 500) (wrap64 (int (length (ex_body s'))))
             start (panic_record env lg r p' x2))) \<and>
        map_option fst (ex_sent s') = first_of (client_status ops) (if p' = None then None else Some 500)"
    using http_stack_run [where f = "readyz_script drv p" and r = r and logger = logger and env = env and x = x, OF assms readyz_script_ok]
    unfolding readyz_scripted by blast
  obtain start x1 where c: "clock_now env x0 = (start, x1)" by (rule prod.exhaust)
  show ?thesis
    using run c
    by (cases "case ps_db p of None \<Rightarrow> (None, x1) | Some db \<Rightarrow> drv_Ping drv db x1"; cases "ps_db p"; cases "ex_sent s'")
       (auto simp: readyz_script_def Let_def panic_record_def first_of_def split: option.splits intro!: exI [of _ x1], blast+)
qed

definition demo_pinged :: "(nat, string list) SqlDriver" where
  "demo_pinged =
    \<lparr>drv_Open = \<lambda>_ _ w. (Inr 0, w), drv_SetMaxOpenConns = \<lambda>_ _ w. w, drv_SetMaxIdleConns = \<lambda>_ _ w. w, drv_SetConnMaxLifetime = \<lambda>_ _ w. w,
     drv_Ping = \<lambda>_ w. (Some (ErrorString ''down''), w @ [''ping'']), drv_Close = \<lambda>_ w. (None, w)\<rparr>"

theorem readyz_reports_the_database_witness:
  "\<exists>s' x' h. http_stack demo_env demo_rand (NewLogger \<lparr>log_Level = ''error'', log_Format = ''text''\<rparr>)
      (readyz demo_pinged \<lparr>ps_db = Some 0, ps_unitOfWork = SqlUnitOfWork 0, ps_customerRepo = PostgresRepository 0, ps_customerReadModel = PostgresReads 0\<rparr>)
      NetWriter (demo_request\<lparr>rq_Path := ''/readyz''\<rparr>) (new_exchange, []) = (Return (), (s', x')) \<and> ex_sent s' = Some (503, h)"
  using readyz_reports_the_database [OF demo_rand_ok, of demo_env "NewLogger \<lparr>log_Level = ''error'', log_Format = ''text''\<rparr>" demo_pinged
      "\<lparr>ps_db = Some 0, ps_unitOfWork = SqlUnitOfWork 0, ps_customerRepo = PostgresRepository 0, ps_customerReadModel = PostgresReads 0\<rparr>"
      "demo_request\<lparr>rq_Path := ''/readyz''\<rparr>" "[]"]
  by (auto simp: demo_pinged_def)

subsection \<open>Loops and exit\<close>

text \<open>An error other than the end of the context.\<close>

definition real_error :: "gerr option \<Rightarrow> bool" where
  "real_error e \<longleftrightarrow> (case e of None \<Rightarrow> False | Some err \<Rightarrow> \<not> errors_Is err Canceled)"

fun log_stopped :: "'w env \<Rightarrow> Logger \<Rightarrow> string \<Rightarrow> gerr option list \<Rightarrow> 'w \<Rightarrow> 'w" where
  "log_stopped env lg msg [] w = w"
| "log_stopped env lg msg (e # es) w =
    log_stopped env lg msg es
      (case e of Some err \<Rightarrow> if \<not> errors_Is err Canceled then Logger_Log env lg LevelError msg [(''err'', AttrError err)] w else w
       | None \<Rightarrow> w)"

text \<open>
  \<open>RunBackground\<close>: the local bus has no loop of its own, so the relay's is run. With Kafka, \<open>both\<close> runs the two loops
  and gives what they send, in the order in which they end; the context of the second is cancelled after the first.
\<close>

definition RunBackground ::
  "'w env \<Rightarrow> (('w Relay \<Rightarrow> 'w \<Rightarrow> gerr option \<times> 'w)) \<Rightarrow> ('w Relay \<Rightarrow> 'w KBus \<Rightarrow> 'w \<Rightarrow> (gerr option \<times> gerr option) \<times> 'w) \<Rightarrow>
    ('db, 'w, 'ts) Application \<Rightarrow> 'w \<Rightarrow> gerr option \<times> 'w" where
  "RunBackground env relayRun both a w =
    (case app_bus a of
      LocalBus b \<Rightarrow> relayRun (app_relay a) w
    | KafkaBus b \<Rightarrow>
        (let ((first, second), w') = both (app_relay a) b w
         in (first, log_stopped env (app_logger a) ''background loop stopped with error'' [second] w')))"

text \<open>
  The processes. \<open>serve\<close> runs the three components of the API and gives what they send, in the order in which they
  end; the context of the others is cancelled after the first. The application is closed on every way out.
\<close>

definition api_run ::
  "'w env \<Rightarrow> ('db, 'w) SqlDriver \<Rightarrow> Config result \<Rightarrow> (Config \<Rightarrow> 'w \<Rightarrow> ('db, 'w, 'ts) Application result \<times> 'w) \<Rightarrow>
    (HttpServer \<Rightarrow> GrpcServer \<Rightarrow> ('db, 'w, 'ts) Application \<Rightarrow> 'w \<Rightarrow> (gerr option \<times> gerr option list) \<times> 'w) \<Rightarrow> 'w \<Rightarrow> gerr option \<times> 'w" where
  "api_run env drv load build serve w =
    (case load of
      Inl err \<Rightarrow> (Some err, w)
    | Inr cfg \<Rightarrow>
        (case build cfg w of
          (Inl err, w1) \<Rightarrow> (Some err, w1)
        | (Inr app, w1) \<Rightarrow>
            (let ((err, rest), w2) = serve (http_New (app_HTTP cfg) (app_logger app)) (grpc_New (app_GRPC cfg) (app_logger app)) app w1;
                 w3 = log_stopped env (app_logger app) ''component stopped with error'' rest w2
             in if real_error err then (err, snd (app_Close drv app w3))
                else (None, snd (app_Close drv app (Logger_Log env (app_logger app) LevelInfo ''shutdown complete'' [] w3))))))"

definition worker_run ::
  "'w env \<Rightarrow> ('db, 'w) SqlDriver \<Rightarrow> Config result \<Rightarrow> (Config \<Rightarrow> 'w \<Rightarrow> ('db, 'w, 'ts) Application result \<times> 'w) \<Rightarrow>
    (('db, 'w, 'ts) Application \<Rightarrow> 'w \<Rightarrow> gerr option \<times> 'w) \<Rightarrow> 'w \<Rightarrow> gerr option \<times> 'w" where
  "worker_run env drv load build background w =
    (case load of
      Inl err \<Rightarrow> (Some err, w)
    | Inr cfg \<Rightarrow>
        (case build cfg w of
          (Inl err, w1) \<Rightarrow> (Some err, w1)
        | (Inr app, w1) \<Rightarrow>
            (let (err, w2) = background app (Logger_Log env (app_logger app) LevelInfo ''worker started'' [] w1)
             in if real_error err then (err, snd (app_Close drv app w2))
                else (None, snd (app_Close drv app (Logger_Log env (app_logger app) LevelInfo ''worker stopped'' [] w2))))))"

text \<open>The exit status of \<open>main\<close>.\<close>

definition exit_status :: "gerr option \<Rightarrow> int" where
  "exit_status e = (case e of None \<Rightarrow> 0 | Some err \<Rightarrow> 1)"

lemma api_exit:
  assumes "build cfg w = (Inr app, w1)" "\<And>a b. serve a b app w1 = ((first, rest), w2)"
  shows "exit_status (fst (api_run env drv (Inr cfg) build serve w)) = (if real_error first then 1 else 0)"
  using assms by (simp add: api_run_def exit_status_def real_error_def Let_def split: option.split)

lemma http_Run_cancel: "fst (http_Run_loop env shutdown s (evs @ Cancelled # later) w) \<noteq> None"
proof (induction evs arbitrary: w)
  case Nil
  show ?case by (simp split: prod.split)
next
  case (Cons e evs)
  then show ?case
  proof (cases e)
    case (Served r)
    then show ?thesis using Cons by (cases r) auto
  qed (simp split: prod.split)
qed


end
