(* ===== verification/System.thy ===== *)
theory System
  imports Bootstrap
begin

text \<open>
  The service as a whole in its in-memory profile: what \<open>Build\<close> returns is driven by commands and relay passes in any
  order, and the read side is compared with the write side. The state is the one of \<open>memory_ports\<close>: the repository,
  the outbox, the read model and the rest \<open>'y\<close>, on which the clock, the entropy source and the logger act.
\<close>

abbreviation world_env :: "'y env \<Rightarrow> 'y memory_world env" where
  "world_env env \<equiv> env_beside (env_beside (env_beside env))"

abbreviation world_rand :: "'y entropy \<Rightarrow> 'y memory_world entropy" where
  "world_rand rand \<equiv> rand_beside (rand_beside (rand_beside rand))"

text \<open>The outbox acts on its own part of the state.\<close>

definition store_beside :: "'w Store \<Rightarrow> ('s \<times> 'w) Store" where
  "store_beside st =
    \<lparr>store_Add = \<lambda>es. beside (store_Add st es), store_FetchPending = \<lambda>n. beside (store_FetchPending st n),
     store_MarkPublished = \<lambda>js. beside (store_MarkPublished st js), store_MarkFailed = \<lambda>i reason. beside (store_MarkFailed st i reason)\<rparr>"

abbreviation world_store :: "'y env \<Rightarrow> 'y memory_world Store" where
  "world_store env \<equiv> store_beside (MemoryStore_ops (env_beside env))"

lemma beside_eq: "beside f sw = (x, w') \<longleftrightarrow> (\<exists>v. f (snd sw) = (x, v) \<and> w' = (fst sw, v))"
  by (auto simp: beside_def split: prod.split)

lemma store_beside_sel [simp]:
  "store_Add (store_beside st) es = beside (store_Add st es)" "store_FetchPending (store_beside st) n = beside (store_FetchPending st n)"
  "store_MarkPublished (store_beside st) js = beside (store_MarkPublished st js)"
  "store_MarkFailed (store_beside st) i reason = beside (store_MarkFailed st i reason)"
  by (simp_all add: store_beside_def)

interpretation world_store: reliable_store "store_beside (MemoryStore_ops env)" "\<lambda>w. store_rows (fst (snd w))" "\<lambda>w. store_inv (fst (snd w))"
  for env
proof unfold_locales
  fix w :: "'b \<times> MemoryStore \<times> 'a" and w' es n js i reason x ms
  assume i: "store_inv (fst (snd w))"
  show "distinct (row_ids (store_rows (fst (snd w))))" by (rule memory_store.distinct_ids [OF i])
  show "\<exists>w'. store_Add (store_beside (MemoryStore_ops env)) es w = (Return None, w')"
    using memory_store.Add_ok [OF i, of env es] by (auto simp: beside_eq)
  show "\<exists>ms w'. store_FetchPending (store_beside (MemoryStore_ops env)) n w = (Return (Inr ms), w')"
    using memory_store.FetchPending_ok [OF i, of env n] by (auto simp: beside_eq)
  show "\<exists>w'. store_MarkPublished (store_beside (MemoryStore_ops env)) js w = (Return None, w')"
    using memory_store.MarkPublished_ok [OF i, of env js] by (auto simp: beside_eq)
  show "\<exists>w'. store_MarkFailed (store_beside (MemoryStore_ops env)) i reason w = (Return None, w')" for i
    using memory_store.MarkFailed_ok [OF i, of env i reason] by (auto simp: beside_eq)
  show "store_inv (fst (snd w')) \<and> store_rows (fst (snd w')) = (if x = None then add_rows es (store_rows (fst (snd w))) else store_rows (fst (snd w)))"
    if "store_Add (store_beside (MemoryStore_ops env)) es w = (Return x, w')"
    using that memory_store.Add [OF i, of env es x] by (auto simp: beside_eq)
  show "store_inv (fst (snd w')) \<and> store_rows (fst (snd w')) = store_rows (fst (snd w)) \<and> map msg_row ms = limited n (unpublished (store_rows (fst (snd w))))"
    if "store_FetchPending (store_beside (MemoryStore_ops env)) n w = (Return (Inr ms), w')"
    using that memory_store.FetchPending [OF i, of env n ms] by (auto simp: beside_eq)
  show "store_inv (fst (snd w')) \<and> store_rows (fst (snd w')) = (if x = None then set_status StatusPublished js (store_rows (fst (snd w))) else store_rows (fst (snd w)))"
    if "store_MarkPublished (store_beside (MemoryStore_ops env)) js w = (Return x, w')"
    using that memory_store.MarkPublished [OF i, of env js x] by (auto simp: beside_eq)
  show "store_inv (fst (snd w')) \<and> store_rows (fst (snd w')) = (if x = None then set_status StatusFailed [i] (store_rows (fst (snd w))) else store_rows (fst (snd w)))"
    if "store_MarkFailed (store_beside (MemoryStore_ops env)) i reason w = (Return x, w')" for i
    using that memory_store.MarkFailed [OF i, of env i reason x] by (auto simp: beside_eq)
qed

subsection \<open>The wiring of the commands\<close>

text \<open>
  The ports of the composition root act on the whole state, those the commands were verified on (\<open>memory_deps\<close>) on its parts:
  they are the same functions.
\<close>

lemma integration_base_beside: "integration_base (rand_beside rand) n i t p = beside (integration_base rand n i t p)"
  by (auto simp: fun_eq_iff integration_base_def New_def rand_beside_def beside_def split: prod.split sum.split)

lemma ToIntegrationEvent_beside: "ToIntegrationEvent (rand_beside rand) de = beside (ToIntegrationEvent rand de)"
proof (cases de)
  case (OfCustomer e)
  then show ?thesis by (cases e) (simp_all add: integration_base_beside)
qed (simp add: beside_def fun_eq_iff)

lemma map_events_beside: "map_events (rand_beside rand) des out = beside (map_events rand des out)"
proof (induction des arbitrary: out)
  case (Cons de des)
  show ?case
    by (rule ext) (simp add: ToIntegrationEvent_beside Cons.IH beside_def split: outcome.split option.split prod.split)
qed (auto simp: beside_def fun_eq_iff)

lemma Dispatcher_beside:
  "Dispatcher_Publish (rand_beside rand) (\<lambda>es. beside (pub es)) des = beside (Dispatcher_Publish rand pub des)"
  by (auto simp: Dispatcher_Publish_def map_events_beside beside_def fun_eq_iff split: prod.split outcome.split)

lemma Publisher_beside: "Publisher_Publish (store_beside st) = (\<lambda>es. beside (Publisher_Publish st es))"
  by (auto simp: Publisher_Publish_def store_beside_def beside_def fun_eq_iff)

lemma customer_Deps_memory:
  "customer_Deps (world_env env) (world_rand rand) (Publisher_Publish (world_store env)) (memory_ports env ul keys) =
    memory_deps (env_beside env) (rand_beside rand) ul"
  by (simp add: customer_Deps_def memory_ports_def memory_deps_def Publisher_beside Dispatcher_beside fun_eq_iff)

subsection \<open>What the bus does to the read side\<close>

text \<open>
  What is seen of the state: everything but the rest, of which only \<open>drawn\<close> is kept, the identifiers drawn from the
  entropy source so far. The clock and the logger do not draw.
\<close>

definition draws :: "'y env \<Rightarrow> 'y entropy \<Rightarrow> ('y \<Rightarrow> string list) \<Rightarrow> bool" where
  "draws env rand drawn \<longleftrightarrow> (\<forall>y. drawn (snd (clock_now env y)) = drawn y) \<and> (\<forall>l y. drawn (log_write env l y) = drawn y) \<and>
    (\<forall>y b z. rand y = (Inr b, z) \<longrightarrow> drawn z = drawn y @ [uuid_text b])"

definition seen :: "('y \<Rightarrow> string list) \<Rightarrow> 'y memory_world \<Rightarrow> MemRepository \<times> MemoryStore \<times> MemoryReadModel \<times> string list" where
  "seen drawn w = (fst w, fst (snd w), fst (snd (snd w)), drawn (snd (snd (snd w))))"

lemma seen_env [simp]:
  assumes "draws env rand drawn"
  shows "seen drawn (log_write (world_env env) l w) = seen drawn w" "seen drawn (snd (clock_now (world_env env) w)) = seen drawn w"
  using assms by (simp_all add: seen_def draws_def env_beside_def)

lemma decorated_handler:
  assumes "draws env rand drawn" "\<And>w. \<exists>w2. h e w = (Return None, w2) \<and> seen drawn w2 = f (seen drawn w)"
  shows "\<exists>w2. Recover (world_env env) (Logging (world_env env) h) e w = (Return None, w2) \<and> seen drawn w2 = f (seen drawn w)"
proof -
  obtain t w1 where c: "clock_now (world_env env) w = (t, w1)" by (rule prod.exhaust)
  obtain w2 where h: "h e w1 = (Return None, w2)" "seen drawn w2 = f (seen drawn w1)" using assms(2) by blast
  obtain t' w3 where c': "clock_now (world_env env) w2 = (t', w3)" by (rule prod.exhaust)
  have "seen drawn w1 = seen drawn w" "seen drawn w3 = seen drawn w2"
    using seen_env(2) [OF assms(1), of w] seen_env(2) [OF assms(1), of w2] c c' by simp_all
  then show ?thesis using h by (simp add: Recover_def Logging_def c c' seen_env(1) [OF assms(1)])
qed

text \<open>The projection of one event, and an event whose delivery is understood.\<close>

definition project_event :: "MemoryReadModel \<Rightarrow> Event \<Rightarrow> MemoryReadModel" where
  "project_event m e = (case read_event e of None \<Rightarrow> m | Some ev \<Rightarrow> m\<lparr>rm_rows := project1 (rm_rows m) ev\<rparr>)"

definition good_event :: "Event \<Rightarrow> bool" where
  "good_event e \<longleftrightarrow> (\<exists>ev. maps_to ev e \<and> customer_OccurredAt ev \<noteq> zero_time)"

definition local_wired :: "'y env \<Rightarrow> 'y memory_world Bus \<Rightarrow> bool" where
  "local_wired env b \<longleftrightarrow> (\<forall>m. m \<noteq> [] \<longrightarrow> handlers_of b m = wired_handlers (world_env env) (\<lambda>e. beside (beside (onCreated env e)))
    (\<lambda>e. beside (beside (onEmailChanged e))) (\<lambda>e. beside (beside (onDeactivated e))) m)"

lemma projection_seen:
  assumes "maps_to ev e" "customer_OccurredAt ev \<noteq> zero_time"
  shows "\<exists>w2. beside (beside (projection_handler env e)) w = (Return None, w2) \<and>
    seen drawn w2 = (\<lambda>(r, s, m, d). (r, s, project_event m e, d)) (seen drawn w)"
proof -
  obtain r s m y where w: "w = (r, s, m, y)" by (rule prod_cases4)
  show ?thesis
    using project_handler [of ev e env m y] assms by (simp add: w beside_def seen_def project_event_def maps_to_def)
qed

lemma welcome_seen:
  assumes "draws env rand drawn" "maps_to (CustomerCreated i n a t) e"
  shows "\<exists>w2. CustomerCreated_Handle (LogSender_SendWelcome (world_env env)) e w = (Return None, w2) \<and> seen drawn w2 = seen drawn w"
  using assms(2) seen_env(1) [OF assms(1)]
  by (simp add: CustomerCreated_Handle_def LogSender_SendWelcome_def maps_to_def encodes_def read_created)

text \<open>Every such event is taken by the local bus, and what is left of it is its projection.\<close>

lemma bus_takes:
  assumes "draws env rand drawn" "local_wired env b" "good_event e"
  shows "\<exists>w2. Bus_Publish b [e] w = (Return None, w2) \<and> seen drawn w2 = (\<lambda>(r, s, m, d). (r, s, project_event m e, d)) (seen drawn w)"
proof -
  let ?f = "\<lambda>(r :: MemRepository, s :: MemoryStore, m, d :: string list). (r, s, project_event m e, d)"
  obtain ev where ev: "maps_to ev e" "customer_OccurredAt ev \<noteq> zero_time" using assms(3) by (auto simp: good_event_def)
  have nm: "ev_Name e = integration_name ev" using ev(1) by (simp add: maps_to_def encodes_def)
  then have ne: "ev_Name e \<noteq> []" by (cases ev) (simp_all add: integration_name_def event_names)
  let ?dec = "\<lambda>h. Recover (world_env env) (Logging (world_env env) h)"
  let ?P = "\<lambda>e. beside (beside (projection_handler env e))"
  note proj = decorated_handler [OF assms(1), where h = ?P and e = e and f = ?f, OF projection_seen [OF ev]]
  show ?thesis
  proof (cases ev)
    case (CustomerCreated i n a t)
    let ?W = "CustomerCreated_Handle (LogSender_SendWelcome (world_env env))"
    have hs: "handlers_of b (ev_Name e) = [?dec (\<lambda>e. beside (beside (onCreated env e))), ?dec ?W]"
      using assms(2) ne nm CustomerCreated by (simp add: local_wired_def wired_handlers_def integration_name_def)
    have p: "?dec (\<lambda>e. beside (beside (onCreated env e))) e = ?dec ?P e"
      using nm CustomerCreated by (simp add: Recover_def Logging_def projection_handler_def integration_name_def fun_eq_iff)
    obtain w1 where w1: "?dec ?P e w = (Return None, w1)" "seen drawn w1 = ?f (seen drawn w)" using proj by blast
    obtain w2 where w2: "?dec ?W e w1 = (Return None, w2)" "seen drawn w2 = seen drawn w1"
      using decorated_handler [OF assms(1), where h = ?W and e = e and f = id] welcome_seen [OF assms(1) ev(1) [unfolded CustomerCreated]]
      by (metis id_apply)
    show ?thesis using w1 w2 by (simp add: Bus_Publish_def hs p errors_Join_def)
  next
    case (CustomerEmailChanged i x y t)
    have hs: "handlers_of b (ev_Name e) = [?dec (\<lambda>e. beside (beside (onEmailChanged e)))]"
      using assms(2) ne nm CustomerEmailChanged by (simp add: local_wired_def wired_handlers_def integration_name_def event_names)
    have "?dec (\<lambda>e. beside (beside (onEmailChanged e))) e = ?dec ?P e"
      using nm CustomerEmailChanged by (simp add: Recover_def Logging_def projection_handler_def integration_name_def event_names fun_eq_iff)
    then show ?thesis using proj [of w] by (auto simp: Bus_Publish_def hs errors_Join_def)
  next
    case (CustomerDeactivated i x t)
    have hs: "handlers_of b (ev_Name e) = [?dec (\<lambda>e. beside (beside (onDeactivated e)))]"
      using assms(2) ne nm CustomerDeactivated by (simp add: local_wired_def wired_handlers_def integration_name_def event_names)
    have "?dec (\<lambda>e. beside (beside (onDeactivated e))) e = ?dec ?P e"
      using nm CustomerDeactivated by (simp add: Recover_def Logging_def projection_handler_def integration_name_def event_names fun_eq_iff)
    then show ?thesis using proj [of w] by (auto simp: Bus_Publish_def hs errors_Join_def)
  qed
qed

subsection \<open>The relay of the application\<close>

definition projects :: "Event \<Rightarrow> bool \<Rightarrow> MemRepository \<times> MemoryReadModel \<times> string list \<Rightarrow> MemRepository \<times> MemoryReadModel \<times> string list" where
  "projects e b x = (fst x, project_event (fst (snd x)) e, snd (snd x))"

definition observed :: "('y \<Rightarrow> string list) \<Rightarrow> 'y memory_world \<Rightarrow> MemRepository \<times> MemoryReadModel \<times> string list" where
  "observed drawn w = (fst w, fst (snd (snd w)), drawn (snd (snd (snd w))))"

lemma observed_seen: "observed drawn w = (case seen drawn w of (r, s, m, d) \<Rightarrow> (r, m, d))"
  by (simp add: observed_def seen_def)

lemma world_relay:
  assumes "draws env rand drawn" "local_wired env b"
  shows "outbox_relay (NewRelay (world_store env) (Bus_Publish b) (world_env env) opts) (\<lambda>w. store_rows (fst (snd w)))
    (\<lambda>w. store_inv (fst (snd w))) (observed drawn) projects good_event"
proof -
  let ?r = "NewRelay (world_store env) (Bus_Publish b) (world_env env) opts"
  have "reliable_store (relay_store ?r) (\<lambda>w. store_rows (fst (snd w))) (\<lambda>w. store_inv (fst (snd w)))"
    using world_store.reliable_store_axioms [of "env_beside env"] by simp
  moreover have "outbox_relay_axioms ?r (\<lambda>w. store_rows (fst (snd w))) (\<lambda>w. store_inv (fst (snd w))) (observed drawn) projects good_event"
  proof
    fix w :: "'a memory_world" and w' e x
    assume "store_inv (fst (snd w))" "good_event e" "relay_publisher ?r [e] w = (Return x, w')"
    with bus_takes [OF assms, of e w] have "seen drawn w' = (\<lambda>(r, s, m, d). (r, s, project_event m e, d)) (seen drawn w)"
      by auto
    with \<open>store_inv (fst (snd w))\<close> show "store_inv (fst (snd w')) \<and> store_rows (fst (snd w')) = store_rows (fst (snd w)) \<and>
        observed drawn w' = projects e (x = None) (observed drawn w)"
      by (simp add: seen_def observed_def projects_def)
  next
    fix w :: "'a memory_world" and l
    have "seen drawn (log_write (relay_env ?r) l w) = seen drawn w" by (simp add: seen_env [OF assms(1)])
    then show "store_inv (fst (snd w)) \<Longrightarrow> store_inv (fst (snd (log_write (relay_env ?r) l w)))"
      "store_rows (fst (snd (log_write (relay_env ?r) l w))) = store_rows (fst (snd w))"
      "observed drawn (log_write (relay_env ?r) l w) = observed drawn w"
      by (simp_all add: seen_def observed_def)
  next
    fix w w' :: "'a memory_world" and n js i reason and y :: "Message list result outcome" and z :: "gerr option outcome"
    have c: "drawn (snd (clock_now env v)) = drawn v" for v using assms(1) by (simp add: draws_def)
    show "store_FetchPending (relay_store ?r) n w = (y, w') \<Longrightarrow> observed drawn w' = observed drawn w"
      by (auto simp: beside_eq MemoryStore_ops_def MemoryStore_FetchPending_def observed_def split: outcome.splits)
    show "store_MarkPublished (relay_store ?r) js w = (z, w') \<Longrightarrow> observed drawn w' = observed drawn w"
      by (auto simp: beside_eq MemoryStore_ops_def MemoryStore_MarkPublished_def observed_def env_beside_def c Let_def)
    show "store_MarkFailed (relay_store ?r) i reason w = (z, w') \<Longrightarrow> observed drawn w' = observed drawn w"
      by (auto simp: beside_eq MemoryStore_ops_def MemoryStore_MarkFailed_def observed_def)
  qed
  ultimately show ?thesis by (rule outbox_relay.intro)
qed

text \<open>Delivering events projects them in order.\<close>

lemma sees_projects:
  "list_all2 maps_to evs es \<Longrightarrow> \<forall>ev \<in> set evs. event_utf8 ev = ev \<Longrightarrow>
    sees projects (map (\<lambda>e. (e, True)) es) (r, m, d) = (r, m\<lparr>rm_rows := foldl project1 (rm_rows m) evs\<rparr>, d)"
proof (induction evs es arbitrary: m rule: list_all2_induct)
  case (Cons ev evs e es)
  then have "project_event m e = m\<lparr>rm_rows := project1 (rm_rows m) ev\<rparr>" by (simp add: project_event_def maps_to_def)
  then show ?case using Cons by (simp add: projects_def)
qed simp

text \<open>Any number of ticks, and one pass, when every row of the outbox is understood.\<close>

lemma relay_runs:
  fixes opts :: Options
  assumes "draws env rand drawn" "local_wired env b" "store_inv (fst (snd w))" "\<forall>e \<in> set (map fst (store_rows (fst (snd w)))). good_event e"
  defines "rl \<equiv> NewRelay (world_store env) (Bus_Publish b) (world_env env) opts"
  shows "\<exists>w'. run_loop rl (replicate k Tick) w = (None, w') \<and> store_inv (fst (snd w')) \<and>
      store_rows (fst (snd w')) = passes_rows k (\<lambda>_. True) (relay_batchSize rl) (store_rows (fst (snd w))) \<and>
      observed drawn w' = sees projects (passes_verdicts k (\<lambda>_. True) (relay_batchSize rl) (store_rows (fst (snd w)))) (observed drawn w)"
    and "\<exists>n w'. drain rl w = (Return (n, None), w') \<and> store_inv (fst (snd w')) \<and>
      store_rows (fst (snd w')) = pass_rows (\<lambda>_. True) (relay_batchSize rl) (store_rows (fst (snd w))) \<and>
      observed drawn w' = sees projects (pass_verdicts (\<lambda>_. True) (relay_batchSize rl) (store_rows (fst (snd w)))) (observed drawn w)"
proof -
  have det: "\<exists>x w'. relay_publisher rl [e] v = (Return x, w') \<and> (x = None) = True" if "good_event e" for e v
    using bus_takes [OF assms(1,2) that, of v] by (auto simp: rl_def)
  note r = world_relay [OF assms(1,2), of opts, folded rl_def]
  show "\<exists>w'. run_loop rl (replicate k Tick) w = (None, w') \<and> store_inv (fst (snd w')) \<and>
      store_rows (fst (snd w')) = passes_rows k (\<lambda>_. True) (relay_batchSize rl) (store_rows (fst (snd w))) \<and>
      observed drawn w' = sees projects (passes_verdicts k (\<lambda>_. True) (relay_batchSize rl) (store_rows (fst (snd w)))) (observed drawn w)"
    by (rule outbox_relay.ticks_deterministic [OF r, where ok = "\<lambda>_. True", OF assms(3,4) det])
  show "\<exists>n w'. drain rl w = (Return (n, None), w') \<and> store_inv (fst (snd w')) \<and>
      store_rows (fst (snd w')) = pass_rows (\<lambda>_. True) (relay_batchSize rl) (store_rows (fst (snd w))) \<and>
      observed drawn w' = sees projects (pass_verdicts (\<lambda>_. True) (relay_batchSize rl) (store_rows (fst (snd w)))) (observed drawn w)"
    by (rule outbox_relay.drain_deterministic [OF r, where ok = "\<lambda>_. True", OF assms(3,4) det])
qed

subsection \<open>The application that was built\<close>

lemma memory_app:
  assumes "Build (world_env env) (world_rand rand) ul sh ts fe ord io drv (world_store env) (\<lambda>_. memory_ports env ul keys) gateway cfg w =
      (Inr app, w0)" "\<not> UseKafka cfg" "\<not> UseDatabase cfg" "draws env rand drawn"
  shows "srv_create (mods_customer (app_modules app)) = CreateCustomer_Handle ul (memory_deps (env_beside env) (rand_beside rand) ul)"
    "srv_changeEmail (mods_customer (app_modules app)) = ChangeCustomerEmail_Handle ul (memory_deps (env_beside env) (rand_beside rand) ul)"
    "srv_get (mods_customer (app_modules app)) = (\<lambda>q w. (Return (ReadModel_GetByID (get_CustomerID q) (fst (snd (snd w)))), w))"
    "seen drawn w0 = seen drawn w"
    "\<exists>b opts. local_wired env b \<and> app_relay app = NewRelay (world_store env) (Bus_Publish b) (world_env env) opts"
proof -
  let ?hc = "\<lambda>e. beside (beside (onCreated env e))" and ?he = "\<lambda>e. beside (beside (onEmailChanged e))"
    and ?hx = "\<lambda>e. beside (beside (onDeactivated e))" and ?env = "world_env env"
  let ?lg = "NewLogger (app_Log cfg)"
  let ?w1 = "Logger_Log ?env ?lg LevelInfo ''building application'' [(''env'', AttrText (app_Env cfg))] w"
  obtain bus w2 p w3 where b: "newBus ?env ord io cfg ?lg ?w1 = (bus, w2)" "newPersistence ?env drv cfg ?lg w2 = (Inr p, w3)"
    "register_all AnyBus_Subscribe (subscriptions ?env ?hc ?he ?hx) bus w3 = (None, app_bus app, w0)"
    "app_relay app = NewRelay (world_store env) (AnyBus_Publish (app_bus app)) ?env
       \<lparr>opt_Interval = obx_PollInterval (app_Outbox cfg), opt_BatchSize = obx_BatchSize (app_Outbox cfg)\<rparr>"
    "app_modules app = newModules ul sh ts fe ?env (world_rand rand) (Publisher_Publish (world_store env)) (memory_ports env ul keys)"
    by (rule Build_steps [OF assms(1) memory_registers_reads])
  show "srv_create (mods_customer (app_modules app)) = CreateCustomer_Handle ul (memory_deps (env_beside env) (rand_beside rand) ul)"
    "srv_changeEmail (mods_customer (app_modules app)) = ChangeCustomerEmail_Handle ul (memory_deps (env_beside env) (rand_beside rand) ul)"
    "srv_get (mods_customer (app_modules app)) = (\<lambda>q w. (Return (ReadModel_GetByID (get_CustomerID q) (fst (snd (snd w)))), w))"
    by (simp_all add: b(5) newModules_def customer_Module_New_def customer_Deps_memory Let_def) (simp add: memory_ports_def)
  have log: "seen drawn (log_write ?env l v) = seen drawn v" "seen drawn (Logger_Log ?env lg lv msg as v) = seen drawn v" for l lg lv msg as v
    using seen_env(1) [OF assms(4)] by (simp_all add: Logger_Log_def)
  have "built_on ?env io bus" "seen drawn w2 = seen drawn w"
    using b(1) assms(2) by (auto simp: newBus_def Let_def Bus_New_def log)
  moreover have "seen drawn w3 = seen drawn w2" using b(2) assms(3) by (auto simp: newPersistence_def log)
  moreover note register_all_pool [where live = "seen drawn", OF log(1) _ b(3)]
  ultimately show "seen drawn w0 = seen drawn w" by metis
  have "\<not> (\<exists>kb. app_bus app = KafkaBus kb)"
    using register_all_kind [OF b(3)] newBus_empty(3) [of ?env ord io cfg ?lg ?w1] b(1) assms(2) by simp
  then obtain lb where lb: "app_bus app = LocalBus lb" by (cases "app_bus app") auto
  have "local_wired env lb"
    using registered_handlers [of ?env ?hc ?he ?hx ord io cfg ?lg ?w1 w3 "app_bus app" w0] b(1,3) by (simp add: local_wired_def lb)
  then show "\<exists>b opts. local_wired env b \<and> app_relay app = NewRelay (world_store env) (Bus_Publish b) ?env opts"
    using b(4) lb by auto
qed

subsection \<open>Requests\<close>

text \<open>What arrives at the application, in any order; text in a request is UTF-8, as protocol buffers guarantee.\<close>

datatype request = ReqCreate CreateCustomer | ReqChange ChangeCustomerEmail | RelayPass

fun request_utf8 :: "request \<Rightarrow> bool" where
  "request_utf8 (ReqCreate cmd) = valid_utf8 (create_Name cmd)"
| "request_utf8 (ReqChange cmd) = True"
| "request_utf8 RelayPass = True"

fun serve :: "('db, 'w, 'ts) Application \<Rightarrow> request \<Rightarrow> 'w \<Rightarrow> 'w" where
  "serve app (ReqCreate cmd) w = snd (srv_create (mods_customer (app_modules app)) cmd w)"
| "serve app (ReqChange cmd) w = snd (srv_changeEmail (mods_customer (app_modules app)) cmd w)"
| "serve app RelayPass w = snd (DrainOutbox app w)"

text \<open>
  The invariant: the events in the outbox, delivered ones first, tell what is stored of every customer; the read model is
  the projection of those delivered; and identifiers in use have been drawn.
\<close>

definition clean_event :: "customer_event \<Rightarrow> bool" where
  "clean_event e \<longleftrightarrow> customer_OccurredAt e \<noteq> zero_time \<and> event_utf8 e = e"

definition history :: "customer_event list \<Rightarrow> customer_event list \<Rightarrow> 'y memory_world \<Rightarrow> bool" where
  "history delivered pending w \<longleftrightarrow>
    (\<exists>de pe. list_all2 maps_to delivered de \<and> list_all2 maps_to pending pe \<and> map fst (store_rows (fst (snd w))) = de @ pe \<and>
      map fst (unpublished (store_rows (fst (snd w)))) = pe) \<and>
    list_all clean_event (delivered @ pending) \<and>
    rm_rows (fst (snd (snd w))) = foldl project1 Map.empty delivered \<and>
    (\<forall>i. tells (filter (\<lambda>e. customer_AggregateID e = i) (delivered @ pending)) (byID (fst w) i))"

definition ids_drawn :: "('y \<Rightarrow> string list) \<Rightarrow> 'y memory_world \<Rightarrow> bool" where
  "ids_drawn drawn w \<longleftrightarrow> set (row_ids (store_rows (fst (snd w)))) \<union> dom (byID (fst w)) \<subseteq> set (drawn (snd (snd (snd w)))) \<and>
    (\<forall>i \<in> dom (byID (fst w)). valid_utf8 i)"

text \<open>A command that writes: one event, told about a customer that is new or stored, and its integration event in the outbox.\<close>

definition writes :: "('y \<Rightarrow> string list) \<Rightarrow> 'y memory_world \<Rightarrow> 'y memory_world \<Rightarrow> bool" where
  "writes drawn w w' \<longleftrightarrow> (\<exists>ev ie so sn js. let i = customer_AggregateID ev in
    maps_to ev ie \<and> clean_event ev \<and> replay1 so ev = Some sn \<and> valid_utf8 i \<and>
    (case so of None \<Rightarrow> js = [i] | Some s \<Rightarrow> js = [] \<and> byID (fst w) i = so) \<and>
    byID (fst w') = (byID (fst w))(i \<mapsto> sn) \<and> store_rows (fst (snd w')) = add_rows [ie] (store_rows (fst (snd w))) \<and>
    fst (snd (snd w')) = fst (snd (snd w)) \<and> drawn (snd (snd (snd w'))) = drawn (snd (snd (snd w))) @ js @ [ev_ID ie])"

text \<open>One that does not.\<close>

definition only_draws :: "('y \<Rightarrow> string list) \<Rightarrow> 'y memory_world \<Rightarrow> 'y memory_world \<Rightarrow> bool" where
  "only_draws drawn w w' \<longleftrightarrow> fst w' = fst w \<and> fst (snd w') = fst (snd w) \<and> fst (snd (snd w')) = fst (snd (snd w)) \<and>
    (\<exists>js. drawn (snd (snd (snd w'))) = drawn (snd (snd (snd w))) @ js)"

lemma only_draws_keeps:
  "only_draws drawn w w' \<Longrightarrow> history ds ps w \<Longrightarrow> history ds ps w'"
  "only_draws drawn w w' \<Longrightarrow> ids_drawn drawn w \<Longrightarrow> ids_drawn drawn w'"
  by (auto simp: only_draws_def history_def ids_drawn_def)

lemma list_all2_snoc: "list_all2 P xs ys \<Longrightarrow> P x y \<Longrightarrow> list_all2 P (xs @ [x]) (ys @ [y])"
  by (simp add: list_all2_appendI)

lemma writes_keeps:
  assumes "writes drawn w w'" "history ds ps w" "ids_drawn drawn w" "distinct (drawn (snd (snd (snd w'))))"
  shows "ids_drawn drawn w' \<and> (\<exists>ev. history ds (ps @ [ev]) w')"
proof -
  obtain ev ie so sn js i where i: "i = customer_AggregateID ev" and wr: "maps_to ev ie" "clean_event ev" "replay1 so ev = Some sn"
    "valid_utf8 i" "case so of None \<Rightarrow> js = [i] | Some s \<Rightarrow> js = [] \<and> byID (fst w) i = so"
    "byID (fst w') = (byID (fst w))(i \<mapsto> sn)" "store_rows (fst (snd w')) = add_rows [ie] (store_rows (fst (snd w)))"
    "fst (snd (snd w')) = fst (snd (snd w))" "drawn (snd (snd (snd w'))) = drawn (snd (snd (snd w))) @ js @ [ev_ID ie]"
    using assms(1) by (auto simp: writes_def Let_def)
  have so: "byID (fst w) i = so"
  proof (cases so)
    case None
    then have "i \<notin> set (drawn (snd (snd (snd w))))" using wr(5,9) assms(4) by auto
    then show ?thesis using assms(3) None by (auto simp: ids_drawn_def)
  qed (use wr(5) in simp)
  have "ev_ID ie \<notin> set (drawn (snd (snd (snd w))))" using wr(9) assms(4) by auto
  then have rows: "store_rows (fst (snd w')) = store_rows (fst (snd w)) @ [(ie, StatusPending)]"
    using wr(7) assms(3) by (auto simp: ids_drawn_def)
  obtain de pe where h: "list_all2 maps_to ds de" "list_all2 maps_to ps pe" "map fst (store_rows (fst (snd w))) = de @ pe"
    "map fst (unpublished (store_rows (fst (snd w)))) = pe" "list_all clean_event (ds @ ps)"
    "rm_rows (fst (snd (snd w))) = foldl project1 Map.empty ds"
    "\<And>j. tells (filter (\<lambda>e. customer_AggregateID e = j) (ds @ ps)) (byID (fst w) j)"
    using assms(2) by (auto simp: history_def)
  have t: "tells (filter (\<lambda>e. customer_AggregateID e = j) (ds @ ps @ [ev])) (byID (fst w') j)" for j
  proof (cases "j = i")
    case True
    from tells.step [OF h(7) [of i, unfolded so] wr(3)] True show ?thesis by (simp add: i wr(6))
  next
    case False
    then show ?thesis using h(7) [of j] by (simp add: i wr(6))
  qed
  have "history ds (ps @ [ev]) w'"
    unfolding history_def
    using h(1,3-6) t list_all2_snoc [OF h(2) wr(1)] wr(2,8) by (auto simp: rows unpublished_def intro!: exI [of _ de])
  moreover have "ids_drawn drawn w'"
    using assms(3) wr(4,5,9) wr(6) so by (auto simp: ids_drawn_def rows row_ids_def split: option.splits)
  ultimately show ?thesis by blast
qed

lemma uuid_utf8: "length b = 16 \<Longrightarrow> valid_utf8 (uuid_text b)"
proof -
  assume "length b = 16"
  then have "set (uuid_text b) \<subseteq> set ''0123456789abcdef-''" using uuid_is_canonical_v4 by blast
  moreover have "\<forall>c \<in> set ''0123456789abcdef-''. (of_char c :: nat) < 128" by simp
  ultimately show ?thesis by (intro valid_utf8_ascii) (auto simp: ascii_def list_all_iff)
qed

lemma evolves_utf8: "evolves env rand js x y \<Longrightarrow> \<forall>j \<in> set js. valid_utf8 j"
  by (induction rule: evolves.induct) (auto simp: uuid_utf8)

lemma evolves_drawn:
  assumes "draws env rand drawn" "evolves (env_beside env) (rand_beside rand) js x y"
  shows "fst y = fst x \<and> drawn (snd y) = drawn (snd x) @ js"
  using assms(2)
proof (induction rule: evolves.induct)
  case (draw js x y b z)
  then have "rand (snd y) = (Inr b, snd z)" "fst z = fst y" by (auto simp: rand_beside_def prod_eq_iff)
  with draw assms(1) show ?case by (simp add: draws_def)
qed (use assms(1) in \<open>auto simp: env_beside_def draws_def\<close>)

lemma rand_beside_ok: "rand_ok rand \<Longrightarrow> rand_ok (rand_beside rand)"
  by (auto simp: rand_ok_def rand_beside_def) (metis fst_conv)

lemma reads_beside: "(\<And>y. fst (clock_now env y) \<noteq> zero_time) \<Longrightarrow> reads_clock (env_beside env) t \<Longrightarrow> t \<noteq> zero_time"
  by (auto simp: reads_clock_def env_beside_def)

locale sound_world =
  fixes env :: "'y env" and rand :: "'y entropy" and ul :: "nat \<Rightarrow> nat" and drawn :: "'y \<Rightarrow> string list"
  assumes table: "lower_table ul" and entropy: "rand_ok rand" and journal: "draws env rand drawn"
    and clock: "fst (clock_now env y) \<noteq> zero_time"
begin

abbreviation "world_deps \<equiv> memory_deps (env_beside env) (rand_beside rand) ul"

lemma command_ok: "memory_ok ul w \<Longrightarrow> memory_ok ul (run_command ul world_deps c w)"
  by (rule run_command_ok [OF table rand_beside_ok [OF entropy]])

lemma create_step:
  assumes "memory_ok ul w" "valid_utf8 (create_Name cmd)"
  shows "writes drawn w (snd (CreateCustomer_Handle ul world_deps cmd w)) \<or> only_draws drawn w (snd (CreateCustomer_Handle ul world_deps cmd w))"
proof -
  obtain r s x where w: "w = (r, s, x)" by (rule prod_cases3)
  have inv: "mem_inv r" "store_inv s" using assms(1) by (simp_all add: w memory_ok_def)
  obtain res r' s' x' t where h: "CreateCustomer_Handle ul world_deps cmd (r, s, x) = (Return res, (r', s', x'))"
    and spec: "case res of
      Inl err \<Rightarrow> r' = r \<and> s' = s \<and> (errors_Is err ErrValidation \<or> err = ErrConflict) \<and>
        (\<forall>e. NewEmail ul (create_Email cmd) = Inr e \<and> email_taken (byID r) (Email_String e) \<longrightarrow> err = ErrConflict) \<and>
        (\<exists>js. length js \<le> 1 \<and> evolves (env_beside env) (rand_beside rand) js x x') \<and>
        (case NewEmail ul (create_Email cmd) of
           Inl e \<Rightarrow> err = e
         | Inr e \<Rightarrow> \<exists>i. evolves (env_beside env) (rand_beside rand) [i] x x' \<and> create_answer (byID r) i (create_Name cmd) e = Some err)
    | Inr result \<Rightarrow> mem_inv r' \<and> unique_emails (byID r') \<and> store_inv s' \<and>
        (\<exists>e c ie. NewEmail ul (create_Email cmd) = Inr e \<and> \<not> email_taken (byID r) (Email_String e) \<and>
          NewCustomer (CustomerID (created_CustomerID result)) (create_Name cmd) e t = Inr c \<and>
          byID r' = (byID r)(created_CustomerID result \<mapsto> ToSnapshot c) \<and>
          maps_to (CustomerCreated (created_CustomerID result) (create_Name cmd) (Email_String e) t) ie \<and>
          store_rows s' = add_rows [ie] (store_rows s) \<and>
          evolves (env_beside env) (rand_beside rand) [created_CustomerID result, ev_ID ie] x x' \<and> reads_clock (env_beside env :: (MemoryReadModel \<times> 'y) env) t)"
    using create_customer_memory [OF rand_beside_ok [OF entropy] inv, of ul "env_beside env" cmd x]
    by - (elim exE conjE, rule that, assumption+)
  show ?thesis
  proof (cases res)
    case (Inl err)
    then obtain js where js: "evolves (env_beside env) (rand_beside rand) js x x'" "r' = r" "s' = s" using spec by auto
    then have "only_draws drawn w (r', s', x')" using evolves_drawn [OF journal js(1)] by (simp add: only_draws_def w)
    then show ?thesis using h by (simp add: w)
  next
    case (Inr result)
    let ?i = "created_CustomerID result"
    obtain e c ie where k: "NewEmail ul (create_Email cmd) = Inr e" "NewCustomer (CustomerID ?i) (create_Name cmd) e t = Inr c"
      "byID r' = (byID r)(?i \<mapsto> ToSnapshot c)" "maps_to (CustomerCreated ?i (create_Name cmd) (Email_String e) t) ie"
      "store_rows s' = add_rows [ie] (store_rows s)" "evolves (env_beside env) (rand_beside rand) [?i, ev_ID ie] x x'"
      "reads_clock (env_beside env :: (MemoryReadModel \<times> 'y) env) t" using Inr spec by auto
    have i: "valid_utf8 ?i" using evolves_utf8 [OF k(6)] by simp
    have "clean_event (CustomerCreated ?i (create_Name cmd) (Email_String e) t)"
      using i assms(2) NewEmail_utf8 [OF table k(1)] reads_beside [OF clock k(7)] by (simp add: clean_event_def)
    moreover have "replay1 None (CustomerCreated ?i (create_Name cmd) (Email_String e) t) = Some (ToSnapshot c)"
      using NewCustomer_Inr [OF k(2)] by (simp add: ToSnapshot_def)
    ultimately have "writes drawn w (r', s', x')"
      unfolding writes_def
      using k(3-5) evolves_drawn [OF journal k(6)] i
      by (intro exI [of _ "CustomerCreated ?i (create_Name cmd) (Email_String e) t"] exI [of _ ie] exI [of _ "None :: Snapshot option"]
          exI [of _ "ToSnapshot c"] exI [of _ "[?i]"]) (simp add: w Let_def)
    then show ?thesis using h by (simp add: w)
  qed
qed

lemma change_step:
  assumes "memory_ok ul w" "\<forall>i \<in> dom (byID (fst w)). valid_utf8 i"
  shows "writes drawn w (snd (ChangeCustomerEmail_Handle ul world_deps cmd w)) \<or> only_draws drawn w (snd (ChangeCustomerEmail_Handle ul world_deps cmd w))"
proof -
  obtain r s x where w: "w = (r, s, x)" by (rule prod_cases3)
  have inv: "mem_inv r" "store_inv s" "rows_ok ul (byID r)" using assms(1) by (simp_all add: w memory_ok_def)
  let ?i = "change_CustomerID cmd"
  obtain res r' s' x' t where h: "ChangeCustomerEmail_Handle ul world_deps cmd (r, s, x) = (Return res, (r', s', x'))"
    and spec: "case res of
      Some err \<Rightarrow> r' = r \<and> s' = s \<and>
        (errors_Is err ErrValidation \<or> err = ErrConflict \<or> mem_FindByID ul (CustomerID ?i) r = Inl err) \<and>
        evolves (env_beside env) (rand_beside rand) [] x x'
    | None \<Rightarrow> \<exists>e c. NewEmail ul (change_NewEmail cmd) = Inr e \<and>
        mem_FindByID ul (CustomerID ?i) r = Inr c \<and>
        (if c_email c = e then r' = r \<and> s' = s \<and> evolves (env_beside env) (rand_beside rand) [] x x'
         else c_status c \<noteq> StatusDeactivated \<and> \<not> email_taken (byID r) (Email_String e) \<and>
           byID r' = (byID r)(?i \<mapsto> ToSnapshot (snd (ChangeEmail e t c))) \<and>
           mem_inv r' \<and> unique_emails (byID r') \<and> store_inv s' \<and>
           (\<exists>ie. maps_to (CustomerEmailChanged ?i (Email_String (c_email c)) (Email_String e) t) ie \<and>
             store_rows s' = add_rows [ie] (store_rows s) \<and> evolves (env_beside env) (rand_beside rand) [ev_ID ie] x x' \<and>
             reads_clock (env_beside env :: (MemoryReadModel \<times> 'y) env) t))"
    using change_email_memory [OF rand_beside_ok [OF entropy] inv(1,2), of ul "env_beside env" cmd x]
    by - (elim exE conjE, rule that, assumption+)
  have idle: "only_draws drawn w (r, s, x')" if "evolves (env_beside env) (rand_beside rand) [] x x'"
    using evolves_drawn [OF journal that] by (simp add: only_draws_def w)
  show ?thesis
  proof (cases res)
    case (Some err)
    then show ?thesis using h spec idle by (simp add: w)
  next
    case None
    then obtain e c where c: "NewEmail ul (change_NewEmail cmd) = Inr e" "mem_FindByID ul (CustomerID ?i) r = Inr c" and
      k: "if c_email c = e then r' = r \<and> s' = s \<and> evolves (env_beside env) (rand_beside rand) [] x x'
         else c_status c \<noteq> StatusDeactivated \<and> \<not> email_taken (byID r) (Email_String e) \<and>
           byID r' = (byID r)(?i \<mapsto> ToSnapshot (snd (ChangeEmail e t c))) \<and>
           mem_inv r' \<and> unique_emails (byID r') \<and> store_inv s' \<and>
           (\<exists>ie. maps_to (CustomerEmailChanged ?i (Email_String (c_email c)) (Email_String e) t) ie \<and>
             store_rows s' = add_rows [ie] (store_rows s) \<and> evolves (env_beside env) (rand_beside rand) [ev_ID ie] x x' \<and>
             reads_clock (env_beside env :: (MemoryReadModel \<times> 'y) env) t)"
      using spec unfolding None option.case by blast
    show ?thesis
    proof (cases "c_email c = e")
      case True
      then show ?thesis using h k idle by (simp add: w)
    next
      case False
      then obtain ie where ie: "c_status c \<noteq> StatusDeactivated" "byID r' = (byID r)(?i \<mapsto> ToSnapshot (snd (ChangeEmail e t c)))"
        "maps_to (CustomerEmailChanged ?i (Email_String (c_email c)) (Email_String e) t) ie" "store_rows s' = add_rows [ie] (store_rows s)"
        "evolves (env_beside env) (rand_beside rand) [ev_ID ie] x x'" "reads_clock (env_beside env :: (MemoryReadModel \<times> 'y) env) t" using k by auto
      have c': "customer_ok ul c" "c_id c = CustomerID ?i" using rows_ok_find [OF inv(3) c(2)] by simp_all
      have row: "byID r ?i = Some (ToSnapshot c)"
      proof -
        obtain sn where sn: "byID r ?i = Some sn" "FromSnapshot ul sn = Inr c" using mem.find_Inr [OF c(2)] by auto
        then obtain c0 where "customer_ok ul c0" "sn = ToSnapshot c0" using inv(3) by (auto simp: rows_ok_def)
        with sn show ?thesis using FromSnapshot_ToSnapshot by (metis Inr_inject ToSnapshot_clear)
      qed
      have st: "c_status c = StatusActive" using c'(1) ie(1) by (auto simp: customer_ok_def)
      have i: "valid_utf8 ?i" using assms(2) row by (auto simp: w)
      have "NewEmail ul (Email_String (c_email c)) = Inr (c_email c)" using c'(1) by (simp add: customer_ok_def)
      then have "clean_event (CustomerEmailChanged ?i (Email_String (c_email c)) (Email_String e) t)"
        using i NewEmail_utf8 [OF table] c(1) reads_beside [OF clock ie(6)] by (simp add: clean_event_def)
      moreover have "replay1 (Some (ToSnapshot c)) (CustomerEmailChanged ?i (Email_String (c_email c)) (Email_String e) t) =
          Some (ToSnapshot (snd (ChangeEmail e t c)))"
      proof -
        have "Email_String e \<noteq> Email_String (c_email c)" using False by (metis Email.expand)
        then show ?thesis using False st c'(2) by (simp add: ToSnapshot_def ChangeEmail_def Email_Equals_def RecordEvent_def Let_def)
      qed
      ultimately have "writes drawn w (r', s', x')"
        unfolding writes_def
        using ie(2-4) evolves_drawn [OF journal ie(5)] i row
        by (intro exI [of _ "CustomerEmailChanged ?i (Email_String (c_email c)) (Email_String e) t"] exI [of _ ie] exI [of _ "Some (ToSnapshot c)"]
            exI [of _ "ToSnapshot (snd (ChangeEmail e t c))"] exI [of _ "[]"]) (simp add: w Let_def)
      then show ?thesis using h by (simp add: w)
    qed
  qed
qed

end

subsection \<open>Passes of the relay\<close>

lemma events_passes [simp]: "map fst (passes_rows k ok n rows) = map fst rows"
  by (induction k arbitrary: rows) (simp_all add: pass_rows_def)

lemma list_all2_origin: "list_all2 P xs ys \<Longrightarrow> y \<in> set ys \<Longrightarrow> \<exists>x \<in> set xs. P x y"
  by (induction rule: list_all2_induct) auto

lemma history_good: "history ds ps w \<Longrightarrow> \<forall>e \<in> set (map fst (store_rows (fst (snd w)))). good_event e"
proof
  fix e assume h: "history ds ps w" and e: "e \<in> set (map fst (store_rows (fst (snd w))))"
  obtain de pe where "list_all2 maps_to (ds @ ps) (de @ pe)" "map fst (store_rows (fst (snd w))) = de @ pe" "list_all clean_event (ds @ ps)"
    using h by (auto simp: history_def intro: list_all2_appendI)
  moreover from this e obtain ev where "ev \<in> set (ds @ ps)" "maps_to ev e"
    using list_all2_origin [of maps_to "ds @ ps" "de @ pe" e] by auto
  ultimately show "good_event e" by (auto simp: good_event_def clean_event_def list_all_iff)
qed

text \<open>Passes deliver the oldest pending events, in order, and change nothing else that is seen.\<close>

lemma history_passes:
  assumes "history ds ps w" "store_inv (fst (snd w))" "0 < n"
    and "store_rows (fst (snd w')) = passes_rows k (\<lambda>_. True) n (store_rows (fst (snd w)))"
    and "observed drawn w' = sees projects (passes_verdicts k (\<lambda>_. True) n (store_rows (fst (snd w)))) (observed drawn w)"
  shows "history (ds @ take (k * nat n) ps) (drop (k * nat n) ps) w' \<and> fst w' = fst w \<and>
    drawn (snd (snd (snd w'))) = drawn (snd (snd (snd w)))"
proof -
  let ?N = "k * nat n" and ?rows = "store_rows (fst (snd w))"
  obtain de pe where h: "list_all2 maps_to ds de" "list_all2 maps_to ps pe" "map fst ?rows = de @ pe" "map fst (unpublished ?rows) = pe"
    "list_all clean_event (ds @ ps)" "rm_rows (fst (snd (snd w))) = foldl project1 Map.empty ds"
    "\<And>j. tells (filter (\<lambda>e. customer_AggregateID e = j) (ds @ ps)) (byID (fst w) j)"
    using assms(1) by (auto simp: history_def)
  have p: "unpublished (store_rows (fst (snd w'))) = drop ?N (unpublished ?rows)"
    "passes_verdicts k (\<lambda>_. True) n ?rows = map (\<lambda>e. (e, True)) (take ?N pe)"
    using passes_accepting [OF memory_store.distinct_ids [of "snd w", OF assms(2)] assms(3), of k] assms(4)
    by (simp_all add: h(4) [symmetric] take_map o_def)
  have t: "list_all2 maps_to (take ?N ps) (take ?N pe)" "list_all2 maps_to (drop ?N ps) (drop ?N pe)"
    using h(2) by (simp_all add: list_all2_takeI list_all2_dropI)
  have "\<forall>ev \<in> set (take ?N ps). event_utf8 ev = ev"
    using h(5) by (auto simp: list_all_iff clean_event_def dest: in_set_takeD)
  from sees_projects [OF t(1) this] have o': "fst w' = fst w" "drawn (snd (snd (snd w'))) = drawn (snd (snd (snd w)))"
    "fst (snd (snd w')) = (fst (snd (snd w)))\<lparr>rm_rows := foldl project1 (foldl project1 Map.empty ds) (take ?N ps)\<rparr>"
    using assms(5) by (simp_all add: observed_def p(2) h(6))
  have rows: "map fst (store_rows (fst (snd w'))) = (de @ take ?N pe) @ drop ?N pe"
    "map fst (unpublished (store_rows (fst (snd w')))) = drop ?N pe"
    using h(3,4) by (simp_all add: assms(4) p(1) [unfolded assms(4)] drop_map [symmetric])
  have all: "(ds @ take ?N ps) @ drop ?N ps = ds @ ps" by simp
  have "history (ds @ take ?N ps) (drop ?N ps) w'"
    unfolding history_def all
    using list_all2_appendI [OF h(1) t(1)] t(2) rows h(5,7) by (auto simp: o')
  with o' show ?thesis by blast
qed

subsection \<open>The read side catches up\<close>

text \<open>What \<open>memory_app\<close> says of an application, and what holds after any request.\<close>

definition wired :: "'y env \<Rightarrow> 'y entropy \<Rightarrow> (nat \<Rightarrow> nat) \<Rightarrow> ('db, 'y memory_world, 'ts) Application \<Rightarrow> bool" where
  "wired env rand ul app \<longleftrightarrow>
    srv_create (mods_customer (app_modules app)) = CreateCustomer_Handle ul (memory_deps (env_beside env) (rand_beside rand) ul) \<and>
    srv_changeEmail (mods_customer (app_modules app)) = ChangeCustomerEmail_Handle ul (memory_deps (env_beside env) (rand_beside rand) ul) \<and>
    (\<exists>b opts. local_wired env b \<and> app_relay app = NewRelay (world_store env) (Bus_Publish b) (world_env env) opts)"

definition sane :: "(nat \<Rightarrow> nat) \<Rightarrow> 'y memory_world \<Rightarrow> bool" where
  "sane ul w \<longleftrightarrow> memory_ok ul w \<and> (\<forall>e \<in> set (map fst (store_rows (fst (snd w)))). good_event e) \<and>
    (\<forall>i \<in> dom (byID (fst w)). valid_utf8 i)"

lemma writes_sane: "writes drawn w w' \<Longrightarrow> sane ul w \<Longrightarrow> memory_ok ul w' \<Longrightarrow> sane ul w'"
proof -
  assume wr: "writes drawn w w'" and w: "sane ul w" "memory_ok ul w'"
  obtain ev ie sn where k: "maps_to ev ie" "clean_event ev" "valid_utf8 (customer_AggregateID ev)"
    "byID (fst w') = (byID (fst w))(customer_AggregateID ev \<mapsto> sn)" "store_rows (fst (snd w')) = add_rows [ie] (store_rows (fst (snd w)))"
    using wr by (auto simp: writes_def Let_def)
  have "good_event ie" using k(1,2) by (auto simp: good_event_def clean_event_def)
  then have "\<forall>e \<in> insert ie (set (map fst (store_rows (fst (snd w))))). good_event e" using w(1) by (simp add: sane_def)
  moreover have "set (map fst (store_rows (fst (snd w')))) \<subseteq> insert ie (set (map fst (store_rows (fst (snd w)))))" by (auto simp: k(5))
  ultimately have "\<forall>e \<in> set (map fst (store_rows (fst (snd w')))). good_event e" by blast
  moreover have "\<forall>i \<in> dom (byID (fst w')). valid_utf8 i" using w(1) k(3,4) by (auto simp: sane_def)
  ultimately show ?thesis using w(2) unfolding sane_def by blast
qed

lemma only_draws_sane: "only_draws drawn w w' \<Longrightarrow> sane ul w \<Longrightarrow> sane ul w'"
  by (auto simp: only_draws_def sane_def memory_ok_def)

context sound_world
begin

lemma command_step:
  assumes "wired env rand ul app" "sane ul w" "request_utf8 q" "q \<noteq> RelayPass"
  shows "memory_ok ul (serve app q w) \<and> (writes drawn w (serve app q w) \<or> only_draws drawn w (serve app q w))"
proof -
  have ok: "memory_ok ul w" "\<forall>i \<in> dom (byID (fst w)). valid_utf8 i" using assms(2) by (simp_all add: sane_def)
  show ?thesis
  proof (cases q)
    case (ReqCreate cmd)
    then show ?thesis
      using assms(1,3) create_step [OF ok(1), of cmd] command_ok [OF ok(1), of "CmdCreate cmd"] by (simp add: wired_def)
  next
    case (ReqChange cmd)
    then show ?thesis
      using assms(1) change_step [OF ok, of cmd] command_ok [OF ok(1), of "CmdChange cmd"] by (simp add: wired_def)
  qed (use assms(4) in simp)
qed

lemma relay_step:
  assumes "wired env rand ul app" "sane ul w"
  shows "\<exists>n. 0 < n \<and> sane ul (serve app RelayPass w) \<and>
    store_rows (fst (snd (serve app RelayPass w))) = passes_rows 1 (\<lambda>_. True) n (store_rows (fst (snd w))) \<and>
    observed drawn (serve app RelayPass w) = sees projects (passes_verdicts 1 (\<lambda>_. True) n (store_rows (fst (snd w)))) (observed drawn w)"
proof -
  obtain b opts where b: "local_wired env b" "app_relay app = NewRelay (world_store env) (Bus_Publish b) (world_env env) opts"
    using assms(1) by (auto simp: wired_def)
  have ok: "store_inv (fst (snd w))" "\<forall>e \<in> set (map fst (store_rows (fst (snd w)))). good_event e"
    using assms(2) by (simp_all add: sane_def memory_ok_def)
  let ?n = "relay_batchSize (NewRelay (world_store env) (Bus_Publish b) (world_env env) opts)"
  obtain k w' where d: "drain (app_relay app) w = (Return (k, None), w')" "store_inv (fst (snd w'))"
    "store_rows (fst (snd w')) = passes_rows 1 (\<lambda>_. True) ?n (store_rows (fst (snd w)))"
    "observed drawn w' = sees projects (passes_verdicts 1 (\<lambda>_. True) ?n (store_rows (fst (snd w)))) (observed drawn w)"
    using relay_runs(2) [OF journal b(1) ok, where opts = opts] by (auto simp: b(2))
  have "fst (sees projects vs x) = fst x" for vs and x :: "MemRepository \<times> MemoryReadModel \<times> string list"
    by (induction vs arbitrary: x) (simp_all add: projects_def)
  then have "fst w' = fst w" using d(4) by (metis fst_conv observed_def)
  moreover have "map fst (store_rows (fst (snd w'))) = map fst (store_rows (fst (snd w)))" unfolding d(3) by (rule events_passes)
  ultimately have "sane ul w'" using assms(2) d(2) unfolding sane_def memory_ok_def by metis
  then show ?thesis using d relay_bounds(1) [of "world_store env" "Bus_Publish b" "world_env env" opts]
    by (intro exI [of _ ?n]) (simp add: DrainOutbox_def Drain_def)
qed

lemma relay_draws:
  assumes "wired env rand ul app" "sane ul w"
  shows "drawn (snd (snd (snd (serve app RelayPass w)))) = drawn (snd (snd (snd w)))"
proof -
  have keep: "snd (snd (sees projects vs x)) = snd (snd x)" for vs and x :: "MemRepository \<times> MemoryReadModel \<times> string list"
    by (induction vs arbitrary: x) (simp_all add: projects_def)
  obtain vs where "observed drawn (serve app RelayPass w) = sees projects vs (observed drawn w)" using relay_step [OF assms] by blast
  from arg_cong [OF this, where f = "\<lambda>x. snd (snd x)"] show ?thesis unfolding keep by (simp add: observed_def)
qed

lemma serve_grows:
  assumes "wired env rand ul app" "sane ul w" "request_utf8 q"
  shows "sane ul (serve app q w) \<and> (\<exists>js. drawn (snd (snd (snd (serve app q w)))) = drawn (snd (snd (snd w))) @ js)"
proof (cases "q = RelayPass")
  case True
  then show ?thesis using relay_step [OF assms(1,2)] relay_draws [OF assms(1,2)] by (metis append_Nil2)
next
  case False
  note s = command_step [OF assms False]
  then have "sane ul (serve app q w)" using writes_sane only_draws_sane assms(2) by blast
  with s show ?thesis by (auto simp: writes_def only_draws_def Let_def)
qed

lemma serve_history:
  assumes "wired env rand ul app" "sane ul w" "request_utf8 q" "history ds ps w" "ids_drawn drawn w"
    and "distinct (drawn (snd (snd (snd (serve app q w)))))"
  shows "ids_drawn drawn (serve app q w) \<and> (\<exists>ds' ps'. history ds' ps' (serve app q w) \<and> length ps' \<le> Suc (length ps))"
proof (cases "q = RelayPass")
  case True
  obtain n where n: "0 < n" "store_rows (fst (snd (serve app q w))) = passes_rows 1 (\<lambda>_. True) n (store_rows (fst (snd w)))"
    "observed drawn (serve app q w) = sees projects (passes_verdicts 1 (\<lambda>_. True) n (store_rows (fst (snd w)))) (observed drawn w)"
    using relay_step [OF assms(1,2)] True by blast
  have "store_inv (fst (snd w))" using assms(2) by (simp add: sane_def memory_ok_def)
  note h = history_passes [OF assms(4) this n]
  have "row_ids (store_rows (fst (snd (serve app q w)))) = row_ids (store_rows (fst (snd w)))"
    using arg_cong [OF events_passes [of 1 "\<lambda>_. True" n "store_rows (fst (snd w))"], where f = "map ev_ID"]
    by (simp only: n(2) row_ids_def map_map o_def)
  then have "ids_drawn drawn (serve app q w)" using h assms(5) by (simp add: ids_drawn_def)
  moreover have "length (drop (1 * nat n) ps) \<le> Suc (length ps)" by simp
  ultimately show ?thesis using h by blast
next
  case False
  from command_step [OF assms(1-3) False] show ?thesis
  proof (elim conjE disjE)
    assume "writes drawn w (serve app q w)"
    from writes_keeps [OF this assms(4-6)] show ?thesis by (metis length_append_singleton order_refl)
  next
    assume "only_draws drawn w (serve app q w)"
    from only_draws_keeps [OF this] assms(4,5) show ?thesis by (metis le_SucI order_refl)
  qed
qed

lemma requests_history:
  assumes "wired env rand ul app" "list_all request_utf8 qs" "sane ul w" "history ds ps w" "ids_drawn drawn w"
    and "distinct (drawn (snd (snd (snd (fold (serve app) qs w)))))"
  shows "sane ul (fold (serve app) qs w) \<and> ids_drawn drawn (fold (serve app) qs w) \<and>
    (\<exists>ds' ps'. history ds' ps' (fold (serve app) qs w) \<and> length ps' \<le> length qs + length ps)"
proof -
  have all: "sane ul (fold (serve app) qs w) \<and> (distinct (drawn (snd (snd (snd (fold (serve app) qs w))))) \<longrightarrow>
    ids_drawn drawn (fold (serve app) qs w) \<and> (\<exists>ds' ps'. history ds' ps' (fold (serve app) qs w) \<and> length ps' \<le> length qs + length ps))"
    using assms(2)
  proof (induction qs rule: rev_induct)
    case Nil
    then show ?case using assms(3-5) by auto
  next
    case (snoc q qs)
    let ?v = "fold (serve app) qs w"
    have q: "request_utf8 q" and sv: "sane ul ?v" using snoc by simp_all
    obtain js where g: "sane ul (serve app q ?v)" "drawn (snd (snd (snd (serve app q ?v)))) = drawn (snd (snd (snd ?v))) @ js"
      using serve_grows [OF assms(1) sv q] by blast
    show ?case
    proof (cases "distinct (drawn (snd (snd (snd (serve app q ?v)))))")
      case True
      then have "distinct (drawn (snd (snd (snd ?v))))" using g(2) by simp
      then obtain ds' ps' where h: "ids_drawn drawn ?v" "history ds' ps' ?v" "length ps' \<le> length qs + length ps" using snoc by auto
      from serve_history [OF assms(1) sv q h(2,1) True] g(1) h(3) show ?thesis by fastforce
    next
      case False
      have "fold (serve app) (qs @ [q]) w = serve app q ?v" by simp
      then show ?thesis using g(1) False by metis
    qed
  qed
  then show ?thesis using assms(6) by blast
qed

end

text \<open>Property C1: the read side catches up. Let the service run in its in-memory profile and serve any requests, creations,
  changes of address and passes of the relay, in any order. If no identifier was drawn twice, then as many ticks of the relay as there were
  requests empty the outbox, without touching the stored customers, and from then on a query by any identifier answers with
  exactly the customer stored under it, or with \<open>ErrNotFound\<close> when there is none.\<close>

theorem reads_catch_up_with_writes:
  fixes drawn :: "'y \<Rightarrow> string list" and keys :: "string list"
  assumes "Build (world_env env) (world_rand rand) ul sh ts fe ord io drv (world_store env) (\<lambda>_. memory_ports env ul keys) gateway cfg
      (mem_New, NewMemoryStore, NewMemoryReadModel, y) = (Inr app, w0)" "\<not> UseKafka cfg" "\<not> UseDatabase cfg"
    and "lower_table ul" "rand_ok rand" "draws env rand drawn" "\<And>y. fst (clock_now env y) \<noteq> zero_time"
    and "list_all request_utf8 qs" "w = fold (serve app) qs w0" "distinct (drawn (snd (snd (snd w))))" "length qs \<le> k"
  shows "\<exists>w'. run_loop (app_relay app) (replicate k Tick) w = (None, w') \<and> fst w' = fst w \<and> unpublished (store_rows (fst (snd w'))) = [] \<and>
    (\<forall>i. srv_get (mods_customer (app_modules app)) \<lparr>get_CustomerID = i\<rparr> w' =
      (Return (case byID (fst w) i of None \<Rightarrow> Inl ErrNotFound | Some s \<Rightarrow> Inr (view s)), w'))"
proof -
  note app = memory_app [OF assms(1-3,6)]
  have sw: "sound_world env rand ul drawn" by unfold_locales (rule assms)+
  have wi: "wired env rand ul app" using app(1,2,5) by (simp add: wired_def)
  have w0: "fst w0 = mem_New" "fst (snd w0) = NewMemoryStore" "fst (snd (snd w0)) = NewMemoryReadModel" using app(4) by (simp_all add: seen_def)
  have init: "sane ul w0" "history [] [] w0" "ids_drawn drawn w0"
    using NewMemoryStore_inv mem_New_inv
    by (simp_all add: sane_def memory_ok_def history_def ids_drawn_def w0 NewMemoryStore_rows row_ids_def unpublished_def NewMemoryReadModel_def tells.start)
       (simp_all add: mem_New_def rows_ok_def tells.start)
  from sound_world.requests_history [OF sw wi assms(8) init] assms(9,10)
  obtain ds ps where h: "sane ul w" "history ds ps w" "length ps \<le> length qs" by auto
  obtain b opts where b: "local_wired env b" "app_relay app = NewRelay (world_store env) (Bus_Publish b) (world_env env) opts"
    using wi by (auto simp: wired_def)
  let ?n = "relay_batchSize (NewRelay (world_store env) (Bus_Publish b) (world_env env) opts)"
  have n: "0 < ?n" by (rule relay_bounds)
  have ok: "store_inv (fst (snd w))" "\<forall>e \<in> set (map fst (store_rows (fst (snd w)))). good_event e"
    using h(1) by (simp_all add: sane_def memory_ok_def)
  obtain w' where r: "run_loop (app_relay app) (replicate k Tick) w = (None, w')"
    "store_rows (fst (snd w')) = passes_rows k (\<lambda>_. True) ?n (store_rows (fst (snd w)))"
    "observed drawn w' = sees projects (passes_verdicts k (\<lambda>_. True) ?n (store_rows (fst (snd w)))) (observed drawn w)"
    using relay_runs(1) [OF assms(6) b(1) ok, where k = k and opts = opts]
    unfolding b(2) [symmetric] by blast
  have "length ps \<le> k * nat ?n" 
  proof -
    have "Suc 0 \<le> nat ?n" using n by (simp only: Suc_le_eq zero_less_nat_eq)
    then have "k \<le> k * nat ?n" by (cases "nat ?n") (simp_all del: NewRelay_sel)
    then show ?thesis by (rule le_trans [OF le_trans [OF h(3) assms(11)]])
  qed
  then have h': "history (ds @ ps) [] w'" "fst w' = fst w" using history_passes [OF h(2) ok(1) n r(2,3)] by simp_all
  have "map fst (unpublished (store_rows (fst (snd w')))) = []" "rm_rows (fst (snd (snd w'))) = foldl project1 Map.empty (ds @ ps)"
    "\<And>i. tells (filter (\<lambda>e. customer_AggregateID e = i) (ds @ ps)) (byID (fst w) i)"
    using h' by (auto simp: history_def)
  moreover from this(2) projection_follows [OF this(3)]
  have "ReadModel_GetByID i (fst (snd (snd w'))) = (case byID (fst w) i of None \<Rightarrow> Inl ErrNotFound | Some s \<Rightarrow> Inr (view s))" for i
    by (simp add: ReadModel_GetByID_def split: option.split)
  ultimately show ?thesis using r(1) h'(2) app(3) by auto
qed

text \<open>
  A world to run in: the clock stands still at a time that is not zero, and the bytes drawn are the number of draws so far,
  which a journal keeps.
\<close>

definition quiet_env :: "(nat list \<times> string list) env" where
  "quiet_env = \<lparr>clock_now = \<lambda>y. (7, y), log_write = \<lambda>l y. y\<rparr>"

definition counted_bytes :: "nat \<Rightarrow> 8 word list" where
  "counted_bytes n = word_of_nat n # replicate 15 0"

definition counted_rand :: "(nat list \<times> string list) entropy" where
  "counted_rand y = (let b = counted_bytes (length (snd y)) in (Inr b, (fst y, snd y @ [uuid_text b])))"

interpretation counted_world: sound_world quiet_env counted_rand id snd
proof
  show "lower_table id" unfolding id_def by (rule lower_table_id)
qed (simp_all add: rand_ok_def draws_def counted_rand_def quiet_env_def counted_bytes_def zero_time_def Let_def)

lemma counted_text: "uuid_text (counted_bytes 0) \<noteq> uuid_text (counted_bytes 1)"
proof
  assume "uuid_text (counted_bytes 0) = uuid_text (counted_bytes 1)"
  then have "stamped (counted_bytes 0) = stamped (counted_bytes 1)" by (simp add: uuid_text_inject counted_bytes_def)
  then have "stamped (counted_bytes 0) ! 0 = stamped (counted_bytes 1) ! 0" by simp
  then show False by (simp add: nth_stamped counted_bytes_def)
qed

text \<open>Whatever is drawn there is the beginning of one fixed sequence.\<close>

definition counted :: "string list \<Rightarrow> bool" where
  "counted js \<longleftrightarrow> js = map (\<lambda>n. uuid_text (counted_bytes n)) [0..<length js]"

lemma counted_evolves:
  "evolves (env_beside quiet_env) (rand_beside counted_rand) js x y \<Longrightarrow> counted (snd (snd x)) \<Longrightarrow> counted (snd (snd y))"
proof (induction rule: evolves.induct)
  case (draw js x y b z)
  then show ?case by (auto simp: counted_def rand_beside_def counted_rand_def Let_def)
qed (simp_all add: env_beside_def quiet_env_def)

lemma create_draws:
  assumes "rand_ok rand" "mem_inv r" "store_inv s"
  shows "\<exists>js. length js \<le> 2 \<and> evolves env rand js x (snd (snd (snd (CreateCustomer_Handle ul (memory_deps env rand ul) cmd (r, s, x)))))"
  using create_customer_memory [OF assms, of ul env cmd x]
  apply -
  apply (elim exE conjE)
  subgoal for res r' s' x' t
    by (cases res) (force intro: exI [of _ "[_, _]"])+
  done

definition live_setup where
  "live_setup = Build (world_env quiet_env) (world_rand counted_rand) id (\<lambda>_ w. (None, w)) id status_code (\<lambda>_. []) small_io unreachable_driver
     (world_store quiet_env) (\<lambda>_. memory_ports quiet_env id []) None Default
     (mem_New, NewMemoryStore, NewMemoryReadModel, ([], []))"

lemma live_setup_runs: "\<exists>app w0. live_setup = (Inr (app :: (nat, demo_world, gotime) Application), w0)"
proof -
  have p: "newPersistence env drv Default lg w = (Inr \<lparr>ps_db = None, ps_unitOfWork = NoopUnitOfWork, ps_customerRepo = MemoryRepository,
      ps_customerReadModel = MemoryReads\<rparr>, Logger_Log env lg LevelInfo ''persistence: in-memory'' [] w)"
    for env :: "demo_world env" and drv :: "(nat, demo_world) SqlDriver" and lg w
    by (simp add: newPersistence_def UseDatabase_def Default_def)
  show ?thesis unfolding live_setup_def by (rule Build_registers [OF memory_registers_reads p])
qed

theorem reads_catch_up_with_writes_witness:
  "\<exists>(app :: (nat, demo_world, gotime) Application) w0 w w'. live_setup = (Inr app, w0) \<and>
    w = fold (serve app) [ReqCreate \<lparr>create_Name = ''Ada'', create_Email = ''ada@example.com''\<rparr>, RelayPass] w0 \<and>
    run_loop (app_relay app) (replicate 2 Tick) w = (None, w') \<and> unpublished (store_rows (fst (snd w'))) = [] \<and>
    (\<forall>i. srv_get (mods_customer (app_modules app)) \<lparr>get_CustomerID = i\<rparr> w' =
      (Return (case byID (fst w) i of None \<Rightarrow> Inl ErrNotFound | Some s \<Rightarrow> Inr (view s)), w'))"
proof -
  let ?cmd = "\<lparr>create_Name = ''Ada'', create_Email = ''ada@example.com''\<rparr>"
  obtain app :: "(nat, demo_world, gotime) Application" and w0 where a: "live_setup = (Inr app, w0)" using live_setup_runs by blast
  have d: "\<not> UseKafka Default" "\<not> UseDatabase Default" by (simp_all add: UseKafka_def UseDatabase_def Default_def)
  note app = memory_app [OF a [unfolded live_setup_def] d counted_world.journal]
  have wi: "wired quiet_env counted_rand id app" using app(1,2,5) by (simp add: wired_def)
  have w0: "fst w0 = mem_New" "fst (snd w0) = NewMemoryStore" "snd (snd (snd (snd w0))) = []" using app(4) by (simp_all add: seen_def)
  have s0: "sane id w0"
    using NewMemoryStore_inv mem_New_inv by (simp add: sane_def memory_ok_def w0 NewMemoryStore_rows) (simp add: mem_New_def rows_ok_def)
  have u: "request_utf8 (ReqCreate ?cmd)" by (simp add: valid_utf8_ascii ascii_def)
  let ?w1 = "serve app (ReqCreate ?cmd) w0"
  have s1: "sane id ?w1" using counted_world.serve_grows [OF wi s0 u] by blast
  have "w0 = (mem_New, NewMemoryStore, snd (snd w0))" using w0 by (metis prod.collapse)
  then obtain js where js: "length js \<le> 2" "evolves (env_beside quiet_env) (rand_beside counted_rand) js (snd (snd w0)) (snd (snd ?w1))"
    using create_draws [OF rand_beside_ok [OF counted_world.entropy] mem_New_inv NewMemoryStore_inv, of "env_beside quiet_env" "snd (snd w0)" id ?cmd]
      app(1) by (metis serve.simps(1))
  have "counted (snd (snd (snd (snd ?w1))))" using counted_evolves [OF js(2)] w0(3) by (simp add: counted_def)
  moreover have "snd (snd (snd (snd ?w1))) = js" using evolves_drawn [OF counted_world.journal js(2)] w0(3) by simp
  ultimately have j1: "counted js" "snd (snd (snd (snd ?w1))) = js" by simp_all
  have "distinct (map (\<lambda>n. uuid_text (counted_bytes n)) [0..<length js])"
  proof -
    have "uuid_text (counted_bytes 0) \<noteq> uuid_text (counted_bytes 1)"
      using counted_text by blast
    then have "inj_on (\<lambda>n. uuid_text (counted_bytes n)) {0, 1}" by (simp add: inj_on_def)
    moreover have "{0..<length js} \<subseteq> {0, 1}" using js(1) by auto
    ultimately have "inj_on (\<lambda>n. uuid_text (counted_bytes n)) {0..<length js}" by (rule inj_on_subset)
    then show ?thesis by (simp add: distinct_map)
  qed
  then have "distinct js" using j1(1) unfolding counted_def by metis
  moreover have "snd (snd (snd (snd (serve app RelayPass ?w1)))) = js"
    using counted_world.relay_draws [OF wi s1] j1(2) by simp
  moreover have "fold (serve app) [ReqCreate ?cmd, RelayPass] w0 = serve app RelayPass ?w1" by (simp only: fold.simps comp_apply id_apply)
  ultimately have dist: "distinct (snd (snd (snd (snd (fold (serve app) [ReqCreate ?cmd, RelayPass] w0)))))" by metis
  have uq: "list_all request_utf8 [ReqCreate ?cmd, RelayPass]" using u by simp
  have k: "length [ReqCreate ?cmd, RelayPass] \<le> 2" by simp
  from reads_catch_up_with_writes [OF a [unfolded live_setup_def] d counted_world.table counted_world.entropy counted_world.journal
      counted_world.clock uq refl dist k]
  show ?thesis
    apply (elim exE conjE)
    apply (intro exI conjI)
        apply (rule a)
       apply (rule refl)
      apply assumption+
    done
qed

end
