(* ===== verification/OutboxLedger.thy ===== *)
theory OutboxLedger
  imports Outbox
begin

text \<open>
  What the in-memory store (\<open>internal/eventbus/outbox/store.go\<close>) records of each message against what happened to it: the
  verdicts of the bus, in the order the relay asked for them. \<open>Outbox\<close> sees a store through the status of its rows; here
  the attempts and the time of publication count as well.
\<close>

subsection \<open>The ledger\<close>

definition verdicts_on :: "string \<Rightarrow> verdicts \<Rightarrow> bool list" where
  "verdicts_on i j = map snd (filter (\<lambda>v. ev_ID (fst v) = i) j)"

definition accounts_for :: "bool list \<Rightarrow> Message \<Rightarrow> bool" where
  "accounts_for bs m \<longleftrightarrow>
    msg_Attempts m = wrap64 (int (length (filter Not bs))) \<and>
    msg_Status m = (if bs = [] then StatusPending else if last bs then StatusPublished else StatusFailed) \<and>
    (msg_PublishedAt m = None \<longleftrightarrow> True \<notin> set bs) \<and> True \<notin> set (butlast bs) \<and> (msg_Status m \<noteq> StatusFailed \<longrightarrow> msg_LastError m = [])"

definition ledger :: "verdicts \<Rightarrow> MemoryStore \<Rightarrow> bool" where
  "ledger j s \<longleftrightarrow> (\<forall>i m. ob_byID s i = Some m \<longrightarrow> accounts_for (verdicts_on i j) m) \<and>
    (\<forall>v \<in> set j. \<exists>m. ob_byID s (ev_ID (fst v)) = Some m \<and> msg_Event m = fst v)"

lemma verdicts_on_snoc [simp]:
  "verdicts_on i (j @ [(e, b)]) = verdicts_on i j @ (if ev_ID e = i then [b] else [])"
  by (simp add: verdicts_on_def)

lemma wrap64_add1: "wrap64 (1 + wrap64 n) = wrap64 (1 + n)"
  by (simp add: wrap64_def mod_simps algebra_simps)

lemma accounts_unpublished:
  assumes "accounts_for bs m" "msg_Status m \<noteq> StatusPublished"
  shows "True \<notin> set bs"
proof (cases bs rule: rev_cases)
  case (snoc cs b)
  with assms show ?thesis by (cases b) (auto simp: accounts_for_def)
qed simp

lemma accounts_failed:
  assumes "accounts_for bs m" "msg_Status m \<noteq> StatusPublished"
  shows "accounts_for (bs @ [False]) (m\<lparr>msg_Status := StatusFailed, msg_Attempts := wrap64 (msg_Attempts m + 1), msg_LastError := reason\<rparr>)"
  using accounts_unpublished [OF assms] assms(1) wrap64_add1 by (simp add: accounts_for_def algebra_simps)

lemma accounts_published:
  assumes "accounts_for bs m" "msg_Status m \<noteq> StatusPublished"
  shows "accounts_for (bs @ [True]) (m\<lparr>msg_Status := StatusPublished, msg_PublishedAt := Some now, msg_LastError := []\<rparr>)"
  using accounts_unpublished [OF assms] assms(1) by (simp add: accounts_for_def)

text \<open>A row that may be handed to the bus.\<close>

definition eligible :: "MemoryStore \<Rightarrow> Event \<Rightarrow> bool" where
  "eligible s e \<longleftrightarrow> (\<exists>m. ob_byID s (ev_ID e) = Some m \<and> msg_Status m \<noteq> StatusPublished \<and> msg_Event m = e)"

lemma ledger_update:
  assumes "ledger j s" "ob_byID s (ev_ID e) = Some m" "msg_Event m = e" "msg_Event m' = e" "accounts_for (verdicts_on (ev_ID e) j @ [b]) m'"
  shows "ledger (j @ [(e, b)]) (s\<lparr>ob_byID := (ob_byID s)(ev_ID e \<mapsto> m')\<rparr>)"
proof -
  have "\<exists>n. ((ob_byID s)(ev_ID e \<mapsto> m')) (ev_ID (fst v)) = Some n \<and> msg_Event n = fst v" if "v \<in> set (j @ [(e, b)])" for v
  proof (cases "ev_ID (fst v) = ev_ID e")
    case True
    have "fst v = e" if "v \<in> set j"
    proof -
      obtain n where "ob_byID s (ev_ID (fst v)) = Some n" "msg_Event n = fst v" using assms(1) \<open>v \<in> set j\<close> by (auto simp: ledger_def)
      with True assms(2,3) show ?thesis by simp
    qed
    with that True assms(4) show ?thesis by auto
  qed (use that assms(1) in \<open>auto simp: ledger_def\<close>)
  then show ?thesis using assms(1,5) by (simp add: ledger_def)
qed

lemma ledger_failed:
  assumes "ledger j s" "eligible s e"
  shows "ledger (j @ [(e, False)]) (fst (snd (MemoryStore_MarkFailed (ev_ID e) reason (s, x))))"
proof -
  obtain m where m: "ob_byID s (ev_ID e) = Some m" "msg_Status m \<noteq> StatusPublished" "msg_Event m = e" using assms(2) by (auto simp: eligible_def)
  have "accounts_for (verdicts_on (ev_ID e) j) m" using assms(1) m(1) by (simp add: ledger_def)
  from ledger_update [OF assms(1) m(1,3) _ accounts_failed [OF this m(2)]] m show ?thesis by (simp add: MemoryStore_MarkFailed_def)
qed

lemma ledger_published:
  assumes "ledger j s" "eligible s e"
  shows "ledger (j @ [(e, True)]) (mark_published_loop now [ev_ID e] s)"
proof -
  obtain m where m: "ob_byID s (ev_ID e) = Some m" "msg_Status m \<noteq> StatusPublished" "msg_Event m = e" using assms(2) by (auto simp: eligible_def)
  have "accounts_for (verdicts_on (ev_ID e) j) m" using assms(1) m(1) by (simp add: ledger_def)
  from ledger_update [OF assms(1) m(1,3) _ accounts_published [OF this m(2)]] m show ?thesis by simp
qed

lemma eligible_other:
  "i \<noteq> ev_ID e' \<Longrightarrow> eligible (fst (snd (MemoryStore_MarkFailed i reason (s, x)))) e' = eligible s e'"
  "i \<noteq> ev_ID e' \<Longrightarrow> eligible (mark_published_loop now [i] s) e' = eligible s e'"
  by (auto simp: eligible_def MemoryStore_MarkFailed_def split: option.splits)

subsection \<open>The relay keeps it\<close>

lemma drain_loop_ledger:
  assumes "ledger j s" "store_inv s" "distinct (map (\<lambda>m. ev_ID (msg_Event m)) ms)" "\<forall>m \<in> set ms. eligible s (msg_Event m)"
    and "drain_loop (memory_relay env pub opts) ms k (s, (j, w)) = (res, (s', (j', w')))"
  shows "ledger j' s' \<and> store_inv s'"
  using assms
proof (induction ms arbitrary: s j w k)
  case (Cons m ms)
  let ?e = "msg_Event m"
  have others: "\<forall>m' \<in> set ms. ev_ID ?e \<noteq> ev_ID (msg_Event m') \<and> eligible s (msg_Event m')"
    using Cons.prems(3,4) by force
  obtain o1 w1 where pub: "pub [?e] w = (o1, w1)" by fastforce
  show ?case
  proof (cases o1)
    case (Panic p)
    then show ?thesis using Cons.prems pub by (auto simp: memory_relay_def beside_def journalled_def)
  next
    case (Return x)
    show ?thesis
    proof (cases x)
      case (Some err)
      let ?s1 = "fst (snd (MemoryStore_MarkFailed (ev_ID ?e) (error_text err) (s, (j @ [(?e, False)], w1))))"
      have l: "ledger (j @ [(?e, False)]) ?s1" by (rule ledger_failed) (use Cons.prems in auto)
      have i: "store_inv ?s1"
        using Cons.prems(2) by (auto simp: MemoryStore_MarkFailed_def store_inv_def split: option.splits)
      have el: "\<forall>m' \<in> set ms. eligible ?s1 (msg_Event m')"
        using others by (simp add: eligible_other)
      obtain w2 where "drain_loop (memory_relay env pub opts) ms k (?s1, (j @ [(?e, False)], w2)) = (res, (s', (j', w')))"
        using Cons.prems(5) pub Return Some
        by (auto simp: memory_relay_def beside_def journalled_def MemoryStore_ops_def MemoryStore_MarkFailed_def env_beside_def)
      from Cons.IH [OF l i _ el this] Cons.prems(3) show ?thesis by simp
    next
      case None
      obtain now w2 where c: "clock_now env w1 = (now, w2)" by fastforce
      let ?s1 = "mark_published_loop now [ev_ID ?e] s"
      have l: "ledger (j @ [(?e, True)]) ?s1" by (rule ledger_published) (use Cons.prems in auto)
      have i: "store_inv ?s1"
        using Cons.prems(2) by (auto simp: store_inv_def split: option.splits)
      have el: "\<forall>m' \<in> set ms. eligible ?s1 (msg_Event m')"
        using others by (simp add: eligible_other del: mark_published_loop.simps)
      have "drain_loop (memory_relay env pub opts) ms (k + 1) (?s1, (j @ [(?e, True)], w2)) = (res, (s', (j', w')))"
        using Cons.prems(5) pub Return None c
        by (simp add: memory_relay_def beside_def journalled_def MemoryStore_ops_def MemoryStore_MarkPublished_def env_beside_def
            del: mark_published_loop.simps)
      from Cons.IH [OF l i _ el this] Cons.prems(3) show ?thesis by simp
    qed
  qed
qed simp

lemma drain_ledger:
  assumes "ledger j s" "store_inv s" "drain (memory_relay env pub opts) (s, (j, w)) = (res, (s', (j', w')))"
  shows "ledger j' s' \<and> store_inv s'"
proof -
  let ?n = "relay_batchSize (memory_relay env pub opts)"
  obtain ms where f: "MemoryStore_FetchPending ?n (s, (j, w)) = (Return (Inr ms), (s, (j, w)))"
    and rows: "map msg_row ms = limited ?n (unpublished (store_rows s))"
    using memory_store.FetchPending_ok [of "(s, (j, w))" "env_beside env" ?n] memory_store.FetchPending [of "(s, (j, w))" "env_beside env" ?n] assms(2)
    by (fastforce simp: MemoryStore_ops_def MemoryStore_FetchPending_def split: outcome.splits)
  have ids: "map (\<lambda>m. ev_ID (msg_Event m)) ms = row_ids (map msg_row ms)" by (simp add: row_ids_def msg_row_def)
  have "distinct (row_ids (unpublished (store_rows s)))"
    by (rule distinct_unpublished) (use assms(2) in \<open>simp add: store_row_ids store_inv_def\<close>)
  then have d: "distinct (map (\<lambda>m. ev_ID (msg_Event m)) ms)"
    unfolding ids rows by (simp add: row_ids_def limited_def flip: take_map)
  have "eligible s (msg_Event m)" if "m \<in> set ms" for m
  proof -
    have "msg_row m \<in> set (limited ?n (unpublished (store_rows s)))" using that unfolding rows [symmetric] by simp
    then have r: "msg_row m \<in> set (store_rows s)" "msg_Status m \<noteq> StatusPublished"
      by (auto simp: limited_def unpublished_def msg_row_def split: if_splits dest: in_set_takeD)
    then obtain i where "i \<in> set (ob_order s)" "msg_row m = msg_row (the (ob_byID s i))" by (auto simp: store_rows_def)
    then show ?thesis using assms(2) r(2) by (auto simp: eligible_def store_inv_def msg_row_def)
  qed
  then have el: "\<forall>m \<in> set ms. eligible s (msg_Event m)" by blast
  have "drain_loop (memory_relay env pub opts) ms 0 (s, (j, w)) = (res, (s', (j', w')))"
    using assms(3) f by (simp add: drain_def memory_relay_def MemoryStore_ops_def)
  from drain_loop_ledger [OF assms(1,2) d el this] show ?thesis .
qed

lemma run_loop_ledger:
  assumes "ledger j s" "store_inv s" "run_loop (memory_relay env pub opts) rs (s, (j, w)) = (res, (s', (j', w')))"
  shows "ledger j' s' \<and> store_inv s' \<and> (\<forall>x. res = Some (Return x) \<longrightarrow> (\<exists>err. x = Some err \<and> CtxDone err \<in> set rs))"
  using assms
proof (induction rs arbitrary: s j w)
  case (Cons r rs)
  note env = memory_relay_def env_beside_def
  show ?case
  proof (cases r)
    case (CtxDone err)
    then show ?thesis using Cons.prems by (auto simp: env)
  next
    case Tick
    obtain o1 s1 j1 w1 where d: "drain (memory_relay env pub opts) (s, (j, w)) = (o1, (s1, (j1, w1)))" by (metis prod_cases4)
    note l = drain_ledger [OF Cons.prems(1,2) d]
    show ?thesis
    proof (cases o1)
      case (Panic p)
      then show ?thesis using Cons.prems(3) Tick d l by auto
    next
      case (Return ne)
      then obtain w2 where "run_loop (memory_relay env pub opts) rs (s1, (j1, w2)) = (res, (s', (j', w')))"
        using Cons.prems(3) Tick d by (cases ne; cases "snd ne") (auto simp: env split: if_splits)
      from Cons.IH [OF conjunct1 [OF l] conjunct2 [OF l] this] show ?thesis by auto
    qed
  qed
qed simp

text \<open>
  What a bus does to its own world comes along: a relation between the verdicts and that world holds after any run if each
  publication extends it by its verdict, and neither the clock nor the logger breaks it.
\<close>

lemma drain_loop_verdicts:
  assumes pub: "\<And>j w e x w'. R j w \<Longrightarrow> pub [e] w = (Return x, w') \<Longrightarrow> R (j @ [(e, x = None)]) w'"
    and panic: "\<And>j w e p w'. R j w \<Longrightarrow> pub [e] w = (Panic p, w') \<Longrightarrow> R j w'"
    and env: "\<And>j w l. R j w \<Longrightarrow> R j (log_write env l w)" "\<And>j w. R j w \<Longrightarrow> R j (snd (clock_now env w))"
    and "R j w" "drain_loop (memory_relay env pub opts) ms k (s, (j, w)) = (res, (s', (j', w')))"
  shows "R j' w'"
  using assms(5,6)
proof (induction ms arbitrary: s j w k)
  case (Cons m ms)
  let ?e = "msg_Event m"
  note defs = memory_relay_def beside_def journalled_def MemoryStore_ops_def env_beside_def
  obtain o1 w1 where p: "pub [?e] w = (o1, w1)" by fastforce
  show ?case
  proof (cases o1)
    case (Panic q)
    then show ?thesis using Cons.prems p panic by (auto simp: defs)
  next
    case (Return x)
    have r: "R (j @ [(?e, x = None)]) w1" using pub [OF Cons.prems(1)] p Return by simp
    show ?thesis
    proof (cases x)
      case (Some err)
      then obtain s1 l where "drain_loop (memory_relay env pub opts) ms k (s1, (j @ [(?e, x = None)], log_write env l w1)) = (res, (s', (j', w')))"
        using Cons.prems(2) p Return by (auto simp: defs MemoryStore_MarkFailed_def)
      then show ?thesis using Cons.IH [OF env(1) [OF r]] by blast
    next
      case None
      then obtain s1 where "drain_loop (memory_relay env pub opts) ms (k + 1) (s1, (j @ [(?e, x = None)], snd (clock_now env w1))) = (res, (s', (j', w')))"
        using Cons.prems(2) p Return by (auto simp: defs MemoryStore_MarkPublished_def simp del: mark_published_loop.simps)
      then show ?thesis using Cons.IH [OF env(2) [OF r]] by blast
    qed
  qed
qed simp

lemma run_loop_verdicts:
  assumes pub: "\<And>j w e x w'. R j w \<Longrightarrow> pub [e] w = (Return x, w') \<Longrightarrow> R (j @ [(e, x = None)]) w'"
    and panic: "\<And>j w e p w'. R j w \<Longrightarrow> pub [e] w = (Panic p, w') \<Longrightarrow> R j w'"
    and env: "\<And>j w l. R j w \<Longrightarrow> R j (log_write env l w)" "\<And>j w. R j w \<Longrightarrow> R j (snd (clock_now env w))"
    and "R j w" "run_loop (memory_relay env pub opts) rs (s, (j, w)) = (res, (s', (j', w')))"
  shows "R j' w'"
  using assms(5,6)
proof (induction rs arbitrary: s j w)
  case (Cons r rs)
  note defs = memory_relay_def env_beside_def
  show ?case
  proof (cases r)
    case (CtxDone err)
    then show ?thesis using Cons.prems env(1) by (auto simp: defs)
  next
    case Tick
    obtain o1 s1 j1 w1 where d: "drain (memory_relay env pub opts) (s, (j, w)) = (o1, (s1, (j1, w1)))" by (metis prod_cases4)
    obtain f where f: "MemoryStore_FetchPending (relay_batchSize (memory_relay env pub opts)) (s, (j, w)) = (f, (s, (j, w)))"
      by (cases "MemoryStore_FetchPending (relay_batchSize (memory_relay env pub opts)) (s, (j, w))") (auto simp: MemoryStore_FetchPending_def split: outcome.splits)
    have "R j' w'" if "drain_loop (memory_relay env pub opts) ms k (s, (j, w)) = (res, (s', (j', w')))" for ms k res s' j' w'
      by (rule drain_loop_verdicts [of R, OF pub panic env Cons.prems(1) that])
    then have r1: "R j1 w1"
      using d f Cons.prems(1) by (cases f) (auto simp: drain_def memory_relay_def MemoryStore_ops_def split: sum.splits)
    show ?thesis
    proof (cases o1)
      case (Panic p)
      then show ?thesis using Cons.prems(2) Tick d r1 by auto
    next
      case (Return ne)
      then obtain w2 where "run_loop (memory_relay env pub opts) rs (s1, (j1, w2)) = (res, (s', (j', w')))" "R j1 w2"
        using Cons.prems(2) Tick d env(1) [OF r1] r1 by (cases ne; cases "snd ne") (auto simp: defs split: if_splits)
      then show ?thesis using Cons.IH by blast
    qed
  qed
qed simp

text \<open>What the ledger of one message says in terms of the journal.\<close>

lemma verdicts_on_counts:
  "length (filter Not (verdicts_on i j)) = length (filter (\<lambda>v. ev_ID (fst v) = i \<and> \<not> snd v) j)"
  "length (filter id (verdicts_on i j)) = length (filter (\<lambda>v. ev_ID (fst v) = i \<and> snd v) j)"
  "True \<in> set (verdicts_on i j) \<longleftrightarrow> (\<exists>v \<in> set j. ev_ID (fst v) = i \<and> snd v)"
  "verdicts_on i j = [] \<longleftrightarrow> (\<forall>v \<in> set j. ev_ID (fst v) \<noteq> i)"
  by (induction j) (auto simp: verdicts_on_def)

lemma accounts_for_once:
  assumes "accounts_for bs m"
  shows "msg_Attempts m = wrap64 (int (length (filter Not bs)))" "msg_Status m = StatusPending \<longleftrightarrow> bs = []"
    "msg_Status m = StatusPublished \<longleftrightarrow> True \<in> set bs" "msg_PublishedAt m = None \<longleftrightarrow> msg_Status m \<noteq> StatusPublished"
    "length (filter id bs) \<le> 1"
proof -
  have "filter id (butlast bs) = []" if "True \<notin> set (butlast bs)"
    using that by (auto simp: filter_empty_conv)
  with assms show "msg_Attempts m = wrap64 (int (length (filter Not bs)))" "msg_Status m = StatusPending \<longleftrightarrow> bs = []"
    "msg_Status m = StatusPublished \<longleftrightarrow> True \<in> set bs" "msg_PublishedAt m = None \<longleftrightarrow> msg_Status m \<noteq> StatusPublished"
    "length (filter id bs) \<le> 1"
    by (cases bs rule: rev_cases; auto simp: accounts_for_def)+
qed

lemma distinct_by_counts:
  "(\<And>i. length (filter (\<lambda>x. f x = i) xs) \<le> 1) \<Longrightarrow> distinct (map f xs)"
proof (induction xs)
  case (Cons x xs)
  have "length (filter (\<lambda>y. f y = i) xs) \<le> 1" for i using Cons.prems [of i] by (simp split: if_splits)
  moreover have "filter (\<lambda>y. f y = f x) xs = []" using Cons.prems [of "f x"] by simp
  ultimately show ?case using Cons.IH by (auto simp: filter_empty_conv)
qed simp

lemma ledger_event: "ledger j s \<Longrightarrow> v \<in> set j \<Longrightarrow> \<exists>m. ob_byID s (ev_ID (fst v)) = Some m \<and> msg_Event m = fst v"
  by (auto simp: ledger_def)

lemma ledger_published_once:
  assumes "ledger j s"
  shows "distinct (map ev_ID (map fst (filter snd j)))"
proof (rule distinct_by_counts)
  fix i
  have "length (filter (\<lambda>v. ev_ID (fst v) = i \<and> snd v) j) \<le> 1"
  proof (cases "ob_byID s i")
    case None
    then have "filter (\<lambda>v. ev_ID (fst v) = i \<and> snd v) j = []"
      using ledger_event [OF assms] by (fastforce simp: filter_empty_conv)
    then show ?thesis by simp
  next
    case (Some m)
    then have "accounts_for (verdicts_on i j) m" using assms by (simp add: ledger_def)
    from accounts_for_once(5) [OF this] show ?thesis by (simp add: verdicts_on_counts)
  qed
  then show "length (filter (\<lambda>e. ev_ID e = i) (map fst (filter snd j))) \<le> 1"
    by (simp add: filter_map o_def conj_commute)
qed

lemma ledger_published_iff:
  assumes "ledger j s"
  shows "e \<in> set (map fst (filter snd j)) \<longleftrightarrow> (\<exists>m. ob_byID s (ev_ID e) = Some m \<and> msg_Event m = e \<and> msg_Status m = StatusPublished)"
    (is "?l \<longleftrightarrow> ?r")
proof -
  have p: "msg_Status m = StatusPublished \<longleftrightarrow> (\<exists>v \<in> set j. ev_ID (fst v) = i \<and> snd v)" if "ob_byID s i = Some m" for i m
  proof -
    from assms that have "accounts_for (verdicts_on i j) m" by (simp add: ledger_def)
    from accounts_for_once(3) [OF this] show ?thesis by (simp add: verdicts_on_counts)
  qed
  show ?thesis
  proof
    assume ?l
    then have v: "(e, True) \<in> set j" by auto
    from ledger_event [OF assms this] p v show ?r by force
  next
    assume ?r
    then obtain m where m: "ob_byID s (ev_ID e) = Some m" "msg_Event m = e" "msg_Status m = StatusPublished" by blast
    from m(3) obtain v where v: "v \<in> set j" "ev_ID (fst v) = ev_ID e" "snd v" unfolding p [OF m(1)] by blast
    have "fst v = e" using ledger_event [OF assms v(1)] m(1,2) unfolding v(2) by simp
    with v(1,3) show ?l by force
  qed
qed

text \<open>Property C4: the outbox is a faithful ledger. Run the relay on an empty journal from any store that only holds new
  messages, with whatever ticks, cancellations, refusals and panics of the bus. Then of every stored message the number of attempts
  is the number of times the bus refused it; it is pending exactly if it was never handed over, and published, with a time, exactly
  if the bus took it, which happened at most once. The loop returns only because its context ended, and then
  with the error of the context.\<close>

theorem outbox_is_a_ledger:
  assumes "store_inv s" "ledger [] s" "run_loop (memory_relay env pub opts) rs (s, ([], w)) = (res, (s', (j, w')))"
  shows "(case ob_byID s' i of None \<Rightarrow> True
     | Some m \<Rightarrow>
      msg_Attempts m = wrap64 (int (length (filter (\<lambda>v. ev_ID (fst v) = i \<and> \<not> snd v) j))) \<and>
      (msg_Status m = StatusPending \<longleftrightarrow> (\<forall>v \<in> set j. ev_ID (fst v) \<noteq> i)) \<and>
      (msg_Status m = StatusPublished \<longleftrightarrow> (\<exists>v \<in> set j. ev_ID (fst v) = i \<and> snd v)) \<and>
      (msg_PublishedAt m = None \<longleftrightarrow> msg_Status m \<noteq> StatusPublished) \<and>
      length (filter (\<lambda>v. ev_ID (fst v) = i \<and> snd v) j) \<le> 1) \<and>
    (case res of Some (Return x) \<Rightarrow> \<exists>err. x = Some err \<and> CtxDone err \<in> set rs | _ \<Rightarrow> True)"
proof -
  note l = run_loop_ledger [OF assms(2,1,3)]
  have "accounts_for (verdicts_on i j) m" if "ob_byID s' i = Some m" for m
    using l that by (simp add: ledger_def)
  note a = accounts_for_once [OF this, unfolded verdicts_on_counts]
  show ?thesis
    using a l by (auto split: option.splits outcome.splits)
qed

lemma demo_ledger: "ledger [] demo_store"
  by (simp add: ledger_def accounts_for_def demo_store_def verdicts_on_def NewMemoryStore_def demo_event_def Let_def wrap64_def split: prod.splits)

text \<open>Two ticks with a bus that refuses the first message, then the context ends: the message has two attempts.\<close>

lemma demo_run:
  "\<exists>s' j w' m. run_loop (memory_relay demo_env picky demo_options) [Tick, Tick, CtxDone ErrNotFound, Tick] (demo_store, ([], [])) =
      (Some (Return (Some ErrNotFound)), (s', (j, w'))) \<and> ob_byID s' ''1'' = Some m \<and>
    length (filter (\<lambda>v. ev_ID (fst v) = ''1'' \<and> \<not> snd v) j) = 2"
  by (simp add: demo_store_def memory_relay_def demo_options_def NewRelay_def MemoryStore_ops_def MemoryStore_FetchPending_def
      MemoryStore_MarkFailed_def beside_def journalled_def picky_def env_beside_def NewMemoryStore_def demo_env_def demo_event_def
      drain_def Let_def)

theorem outbox_is_a_ledger_witness:
  "\<exists>s' j w' m. run_loop (memory_relay demo_env picky demo_options) [Tick, Tick, CtxDone ErrNotFound, Tick] (demo_store, ([], [])) =
      (Some (Return (Some ErrNotFound)), (s', (j, w'))) \<and> ob_byID s' ''1'' = Some m \<and> msg_Attempts m = 2"
proof -
  obtain s' j w' m where run: "run_loop (memory_relay demo_env picky demo_options) [Tick, Tick, CtxDone ErrNotFound, Tick]
      (demo_store, ([], [])) = (Some (Return (Some ErrNotFound)), (s', (j, w')))" "ob_byID s' ''1'' = Some m"
    "length (filter (\<lambda>v. ev_ID (fst v) = ''1'' \<and> \<not> snd v) j) = 2"
    using demo_run by blast
  from outbox_is_a_ledger [OF conjunct1 [OF demo_store_eval] demo_ledger run(1), of "''1''"] run(2,3)
  have "msg_Attempts m = 2" by (simp add: wrap64_def)
  with run(1,2) show ?thesis by blast
qed

end
