(* ===== verification/KafkaDelivery.thy ===== *)
theory KafkaDelivery
  imports KafkaConsumer OutboxLedger
begin

text \<open>
  A message on its way through Kafka, from the outbox to the handlers: the relay of \<open>internal/eventbus/outbox/relay.go\<close> with
  the Kafka bus as its publisher, the wait of a hop for its deadline, and the settling of every message that is read. The
  definitions are those of \<open>KafkaBus\<close>, \<open>KafkaConsumer\<close> and \<open>Outbox\<close>; the statements are about their composition.
\<close>

subsection \<open>Every message is settled\<close>

definition handlers_return :: "'w KBus \<Rightarrow> consumer \<Rightarrow> KafkaMessage \<Rightarrow> bool" where
  "handlers_return b c m \<longleftrightarrow>
    (case codec_Decode (bus_Codec b) (km_Value m) of
      Inl err \<Rightarrow> True
    | Inr e \<Rightarrow> (\<forall>h \<in> set (handlersFor b (co_businessTopic c) (ev_Name e)). \<forall>w. \<exists>x w'. h e w = (Return x, w')))"

lemma deliver_returns:
  "(\<And>h w. h \<in> set hs \<Longrightarrow> \<exists>x w'. h e w = (Return x, w')) \<Longrightarrow> \<exists>errs' w'. deliver hs e errs w = (Return errs', w')"
proof (induction hs arbitrary: errs w)
  case (Cons h hs)
  obtain x w' where h: "h e w = (Return x, w')" using Cons.prems by fastforce
  have "\<exists>errs' w''. deliver hs e es w' = (Return errs', w'')" for es using Cons by simp
  with h show ?case by (cases x) auto
qed simp

lemma consumer_handle_returns:
  assumes "handlers_return b c m"
  shows "fst (consumer_handle b c m w) \<noteq> Panic p"
proof (cases "codec_Decode (bus_Codec b) (km_Value m)")
  case (Inr e)
  have "\<exists>errs w'. deliver (handlersFor b (co_businessTopic c) (ev_Name e)) e [] w = (Return errs, w')" for w
    by (rule deliver_returns) (use assms Inr in \<open>auto simp: handlers_return_def\<close>)
  then have "fst (dispatch b c m w) \<noteq> Panic p" for w
    using Inr by (smt (verit) dispatch_def fst_conv old.prod.case outcome.distinct(1) outcome.simps(5) sum.case(2) option.case_eq_if)
  then show ?thesis by (auto simp: consumer_handle_def split: prod.splits bool.splits)
qed (auto simp: consumer_handle_def dispatch_def split: prod.splits bool.splits option.splits)


text \<open>A bus whose brokers accept everything, and a message that its only handler refuses.\<close>

definition open_bus :: "Broker KBus" where
  "open_bus = demo_bus\<lparr>kb_io := demo_io\<lparr>io_WriteMessages := \<lambda>ms w. (None, w\<lparr>br_log := br_log w @ ms\<rparr>)\<rparr>\<rparr>"

lemma open_bus_sel [simp]:
  "MaxRetries open_bus = 2" "RetryTopicFor open_bus = defaultRetryTopicFor" "DLQTopicFor open_bus = defaultDLQTopicFor"
  "bus_Codec open_bus = name_codec" "handlersFor open_bus ''t'' ''bad'' = [refusing]" "handlersFor open_bus ''t'' ''good'' = [accepting]"
  "writes_ok open_bus"
  using demo_bus_sel demo_io_ok
  by (simp_all add: open_bus_def MaxRetries_def RetryTopicFor_def DLQTopicFor_def bus_Codec_def handlersFor_def bindings_of_def)


subsection \<open>A retry waits\<close>

text \<open>
  What the wait relies on: the clock reads the time of the state, time does not run back, and a timer that fires has
  waited for its duration.
\<close>

definition keeps_time :: "'w KBus \<Rightarrow> ('w \<Rightarrow> gotime) \<Rightarrow> bool" where
  "keeps_time b time \<longleftrightarrow>
    (\<forall>w. fst (clock_now (kb_env b) w) = time w \<and> time w \<le> time (snd (clock_now (kb_env b) w))) \<and>
    (\<forall>d w. fst (io_wait (kb_io b) d w) \<longrightarrow> time w + d \<le> time (snd (io_wait (kb_io b) d w)))"

lemma await_until:
  assumes "keeps_time b time" "await b m w = (True, w')" "notBeforeFrom (km_Headers m) \<noteq> zero_time"
    and "notBeforeFrom (km_Headers m) - time w < 2 ^ 63"
  shows "notBeforeFrom (km_Headers m) \<le> time w'"
proof -
  obtain now w1 where n: "clock_now (kb_env b) w = (now, w1)" by fastforce
  then have t: "now = time w" "time w \<le> time w1" using assms(1) by (auto simp: keeps_time_def dest: spec [of _ w])
  show ?thesis
  proof (cases "Until (notBeforeFrom (km_Headers m)) now > 0")
    case True
    then have "Until (notBeforeFrom (km_Headers m)) now = notBeforeFrom (km_Headers m) - time w"
      using assms(4) t(1) by (auto simp: Until_def)
    then have "io_wait (kb_io b) (notBeforeFrom (km_Headers m) - time w) w1 = (True, w')"
      using assms(2,3) n True by (simp add: await_def Let_def)
    then have "time w1 + (notBeforeFrom (km_Headers m) - time w) \<le> time w'"
      using assms(1) unfolding keeps_time_def by (metis fst_conv snd_conv)
    then show ?thesis using t(2) by simp
  next
    case False
    then have "w' = w1" using assms(2,3) n by (simp add: await_def Let_def)
    moreover have "notBeforeFrom (km_Headers m) \<le> time w" using False t(1) by (auto simp: Until_def)
    ultimately show ?thesis using t(2) by simp
  qed
qed

lemma fail_copy:
  assumes "fail (watch b) c m e err (j, w) = (j', w')" "jn_written j' = jn_written j @ [km]"
  shows "km = copy_for b c m (next_topic b c m) (due b m (fst (clock_now (kb_env b) w))) err"
  using fail_cases [of b c m e err j w] assms by (auto simp: settled_def)

text \<open>Property C22: a failed event is not retried before its backoff has passed. When a consumer writes the
  message of a failed event for the next attempt, \<open>attempt + 1\<close> with the attempts made before, whoever reads that copy
  later handles it at a time that is at least the time of the failure plus the configured base doubled once for each attempt made before, up to the
  cap: the deadline is computed when the handlers failed, travels in a header as text, and the reader sleeps for what is left of it.\<close>

theorem retry_waits_out_its_backoff:
  assumes "fail (watch b) c m e err (j, w) = (j', w')" "jn_written j' = jn_written j @ [km]"
    and "0 \<le> attemptFrom (km_Headers m)" "attemptFrom (km_Headers m) < MaxRetries b" "MaxRetries b < 2 ^ 63"
    and "Backoff b = ExponentialBackoff base cap" "0 < base" "base < 2 ^ 62" "0 < cap" "cap \<le> 2 ^ 62"
    and "keeps_time b time" "zero_time < time w" "year_in_range (time w + Backoff b (attemptFrom (km_Headers m) + 1))"
    and "time w \<le> time v" "await b km v = (True, v')"
  shows "consumer_handle b c' km v = dispatch b c' km v' \<and>
    attemptFrom (km_Headers km) = attemptFrom (km_Headers m) + 1 \<and>
    time w + min cap (base * 2 ^ nat (attemptFrom (km_Headers m))) \<le> time v'"
proof -
  let ?a = "attemptFrom (km_Headers m) + 1"
  have a: "wrap64 ?a = ?a" "int64_range ?a" "?a \<le> MaxRetries b" using assms(3-5) by (simp_all add: wrap64_id int64_range_def)
  note curve = backoff_is_capped_doubling [OF assms(7-10), of ?a, folded assms(6)]
  have d: "Backoff b ?a = min cap (base * 2 ^ nat (attemptFrom (km_Headers m)))" using conjunct1 [OF curve] by simp
  have r: "0 < Backoff b ?a" "Backoff b ?a \<le> cap" using curve by blast+
  have "due b m (fst (clock_now (kb_env b) w)) = time w + Backoff b ?a"
    using assms(11) a by (simp add: due_def keeps_time_def)
  then have "km_Headers km = retryHeaders ?a (time w + Backoff b ?a) (co_businessTopic c) (Some err)"
    using fail_copy [OF assms(1,2)] a(1) by (simp add: copy_for_def)
  then have h: "attemptFrom (km_Headers km) = ?a" "notBeforeFrom (km_Headers km) = time w + Backoff b ?a"
    using retry_headers_round_trip [OF a(2) assms(13)] by simp_all
  from await_until [OF assms(11,15)] have "time w + Backoff b ?a \<le> time v'"
    using h(2) r assms(10,12,14) by simp
  with h(1) d assms(15) show ?thesis by (simp add: consumer_handle_def)
qed

text \<open>The curve of the default configuration, and a message that fails at a second and whose copy is read at once.\<close>

definition patient_bus :: "Broker KBus" where
  "patient_bus = open_bus\<lparr>kb_cfg := (kb_cfg open_bus)\<lparr>cfg_Backoff := Some (ExponentialBackoff Second (30 * Second))\<rparr>\<rparr>"

lemma patient_bus_sel [simp]:
  "MaxRetries patient_bus = 2" "Backoff patient_bus = ExponentialBackoff Second (30 * Second)" "writes_ok patient_bus"
  "kb_env patient_bus = broker_env" "io_wait (kb_io patient_bus) = (\<lambda>d w. (True, w\<lparr>br_now := br_now w + d\<rparr>))"
  using open_bus_sel(1,7) by (simp_all add: patient_bus_def MaxRetries_def Backoff_def writes_ok_def open_bus_def demo_io_def demo_bus_def)

lemma patient_bus_keeps_time: "keeps_time patient_bus br_now"
  by (simp add: keeps_time_def broker_env_def)

theorem retry_waits_out_its_backoff_witness:
  "\<exists>j' w' km v'. fail (watch patient_bus) demo_consumer (demo_message ''bad'' 7) demo_event (ErrorString ''no'')
      (\<lparr>jn_written = [], jn_committed = []\<rparr>, demo_broker\<lparr>br_now := Second\<rparr>) = (j', w') \<and>
    jn_written j' = [km] \<and> await patient_bus km (demo_broker\<lparr>br_now := Second\<rparr>) = (True, v') \<and> 2 * Second \<le> br_now v'"
proof -
  let ?j = "\<lparr>jn_written = [], jn_committed = []\<rparr>" and ?w = "demo_broker\<lparr>br_now := Second\<rparr>" and ?m = "demo_message ''bad'' 7"
  obtain j' where f: "fail (watch patient_bus) demo_consumer ?m demo_event (ErrorString ''no'') (?j, ?w) =
      (j', fail patient_bus demo_consumer ?m demo_event (ErrorString ''no'') ?w)"
    "j' = settled (copy_for patient_bus demo_consumer ?m (next_topic patient_bus demo_consumer ?m)
       (due patient_bus ?m (fst (clock_now (kb_env patient_bus) ?w))) (ErrorString ''no'')) ?m ?j"
    using fail_cases [of patient_bus demo_consumer ?m demo_event "ErrorString ''no''" ?j ?w] by auto
  obtain km where km: "jn_written j' = jn_written ?j @ [km]" using f(2) by (simp add: settled_def)
  obtain v' where v: "await patient_bus km ?w = (True, v')"
    by (cases "await patient_bus km ?w") (auto simp: await_def Let_def split: if_splits prod.splits)
  have y: "year_in_range (br_now ?w + Backoff patient_bus (attemptFrom (km_Headers ?m) + 1))" "zero_time < br_now ?w"
    by (simp_all add: Second_def zero_time_def min_def ExponentialBackoff_def year_in_range_def) code_simp
  have "2 * Second \<le> br_now v'"
    using retry_waits_out_its_backoff [OF f(1) km _ _ _ patient_bus_sel(2) _ _ _ _ patient_bus_keeps_time y(2,1) order_refl v, of demo_consumer]
    by (simp add: Second_def)
  with f(1) km v show ?thesis by auto
qed

subsection \<open>From the outbox to the topics\<close>

text \<open>The message the producer makes of an event, and what has been acknowledged when a list of verdicts has been given.\<close>

definition is_message_of :: "'w KBus \<Rightarrow> Event \<Rightarrow> KafkaMessage \<Rightarrow> bool" where
  "is_message_of b e km \<longleftrightarrow> km_Topic km = TopicFor b (ev_Name e) \<and> km_Key km = ev_AggregateID e \<and>
     km_Headers km = [(''x-event-name'', ev_Name e)] \<and> codec_Encode (bus_Codec b) e = Inr (km_Value km)"

definition acknowledged :: "'w KBus \<Rightarrow> verdicts \<Rightarrow> Journal \<times> 'w \<Rightarrow> bool" where
  "acknowledged b j jw \<longleftrightarrow> list_all2 (is_message_of b) (map fst (filter snd j)) (jn_written (fst jw))"

lemma publish_acknowledged:
  assumes "acknowledged b j jw" "KBus_Publish (watch b) [e] jw = (r, jw')"
  shows "case r of Return x \<Rightarrow> acknowledged b (j @ [(e, x = None)]) jw' | Panic p \<Rightarrow> False"
  using assms
  by (auto simp: KBus_Publish_def acknowledged_def is_message_of_def watched_io_def Let_def
      split: sum.splits prod.splits option.splits if_splits intro!: list_all2_appendI)

lemma run_acknowledged:
  assumes "run_loop (memory_relay (watched_env env) (KBus_Publish (watch b)) opts) rs (s, (j, jw)) = (res, (s', (j', jw')))"
    and "acknowledged b j jw"
  shows "acknowledged b j' jw'"
proof (rule run_loop_verdicts [of "acknowledged b" "KBus_Publish (watch b)", OF _ _ _ _ assms(2,1)])
  fix j :: verdicts and jw :: "Journal \<times> 'a" and e x p jw' l
  assume a: "acknowledged b j jw"
  show "acknowledged b (j @ [(e, x = None)]) jw'" if "KBus_Publish (watch b) [e] jw = (Return x, jw')"
    using publish_acknowledged [OF a that] by simp
  show "acknowledged b j jw'" if "KBus_Publish (watch b) [e] jw = (Panic p, jw')"
    using publish_acknowledged [OF a that] by simp
  show "acknowledged b j (log_write (watched_env env) l jw)" "acknowledged b j (snd (clock_now (watched_env env) jw))"
    using a by (simp_all add: acknowledged_def watched_env_def on_snd_def split: prod.splits)
qed


text \<open>Two ticks with batches of one: both messages of the store are on their topic.\<close>

lemma demo_kafka_run:
  "\<exists>s' j jn w'. run_loop (memory_relay (watched_env broker_env) (KBus_Publish (watch open_bus)) demo_options) [Tick, Tick]
      (demo_store, ([], (\<lparr>jn_written = [], jn_committed = []\<rparr>, demo_broker))) = (None, (s', (j, (jn, w')))) \<and> length (jn_written jn) = 2"
  by (simp add: demo_store_def memory_relay_def demo_options_def NewRelay_def MemoryStore_ops_def MemoryStore_FetchPending_def
      MemoryStore_MarkPublished_def beside_def journalled_def env_beside_def NewMemoryStore_def demo_env_def demo_event_def
      KBus_Publish_def watched_io_def watched_env_def on_snd_def open_bus_def demo_bus_def name_codec_def bus_Codec_def TopicFor_def setDefaults_def
      demo_config_def broker_env_def demo_io_def watch_def drain_def Let_def)


end
