(* ===== verification/GoFlags.thy ===== *)
theory GoFlags
  imports SharedKernel GoDuration
begin

text \<open>
  What the command-line programs under \<open>cmd/\<close> take from the standard library: \<open>strconv.ParseUint\<close> and the base-0
  \<open>ParseInt\<close>, \<open>ParseBool\<close>, the parser of package \<open>flag\<close> for the kinds of flag the programs declare, and \<open>Clean\<close>, \<open>Join\<close>
  and \<open>Base\<close> of \<open>path/filepath\<close>. The process itself (its streams, environment and files) is the record \<open>host\<close> of parameters.
  Nothing here maps to a file under src/.
\<close>

subsection \<open>The process\<close>

text \<open>
  \<open>os_Quote\<close> is \<open>strconv.Quote\<close>, the \<open>%q\<close> of a string: which runes it escapes is a table of the Go distribution.
  A directory is listed as pairs of a name and whether it is a directory itself.
\<close>

record 'w host =
  os_Stdout :: "string \<Rightarrow> 'w \<Rightarrow> 'w"
  os_Stderr :: "string \<Rightarrow> 'w \<Rightarrow> 'w"
  os_Getenv :: "string \<Rightarrow> string"
  os_ReadFile :: "string \<Rightarrow> 'w \<Rightarrow> string result"
  os_ReadDir :: "string \<Rightarrow> 'w \<Rightarrow> (string \<times> bool) list result"
  os_WriteFile :: "string \<Rightarrow> string \<Rightarrow> 'w \<Rightarrow> gerr option \<times> 'w"
  os_Quote :: "string \<Rightarrow> string"

definition newline :: string where
  "newline = [CHR 0x0A]"

definition os_ErrNotExist :: gerr where
  "os_ErrNotExist = ErrorString ''file does not exist''"

subsection \<open>strconv\<close>

text \<open>\<open>ParseUint\<close> in base 10 at 64 bits.\<close>

definition ParseUint :: "string \<Rightarrow> int \<times> num_error option" where
  "ParseUint s =
    (if s = [] \<or> \<not> list_all is_digit s then (0, Some ErrSyntax)
     else if int (digits_val s) < 2 ^ 64 then (int (digits_val s), None) else (2 ^ 64 - 1, Some ErrRange))"

text \<open>The numeral of any base up to 36 a letter or digit stands for.\<close>

definition lower_byte :: "char \<Rightarrow> nat" where
  "lower_byte c = (let b = of_char c in if 65 \<le> b \<and> b \<le> 90 then b + 32 else b)"

definition numeral_value :: "char \<Rightarrow> int option" where
  "numeral_value c =
    (if is_digit c then Some (int (digit_val c))
     else if 97 \<le> lower_byte c \<and> lower_byte c \<le> 122 then Some (int (lower_byte c) - 97 + 10) else None)"

text \<open>The base a prefix announces, and what follows it.\<close>

definition base_prefix :: "string \<Rightarrow> int \<times> string" where
  "base_prefix s =
    (if s \<noteq> [] \<and> hd s = CHR ''0'' then
       (if 3 \<le> length s \<and> lower_byte (s ! 1) = 98 then (2, drop 2 s)
        else if 3 \<le> length s \<and> lower_byte (s ! 1) = 111 then (8, drop 2 s)
        else if 3 \<le> length s \<and> lower_byte (s ! 1) = 120 then (16, drop 2 s)
        else (8, tl s))
     else (10, s))"

fun read_numerals :: "int \<Rightarrow> int \<Rightarrow> string \<Rightarrow> int option" where
  "read_numerals b n [] = Some n"
| "read_numerals b n (c # cs) =
    (if c = CHR ''_'' then read_numerals b n cs
     else case numeral_value c of
       None \<Rightarrow> None
     | Some d \<Rightarrow> if b \<le> d \<or> 2 ^ 64 \<le> n * b + d then None else read_numerals b (n * b + d) cs)"

datatype saw = SawStart | SawDigit | SawUnderscore | SawOther

fun underscores_ok :: "bool \<Rightarrow> saw \<Rightarrow> string \<Rightarrow> bool" where
  "underscores_ok hex s [] = (s \<noteq> SawUnderscore)"
| "underscores_ok hex s (c # cs) =
    (if is_digit c \<or> hex \<and> 97 \<le> lower_byte c \<and> lower_byte c \<le> 102 then underscores_ok hex SawDigit cs
     else if c = CHR ''_'' then s = SawDigit \<and> underscores_ok hex SawUnderscore cs
     else s \<noteq> SawUnderscore \<and> underscores_ok hex SawOther cs)"

definition underscoreOK :: "string \<Rightarrow> bool" where
  "underscoreOK s =
    (if 2 \<le> length s \<and> hd s = CHR ''0'' \<and> lower_byte (s ! 1) \<in> {98, 111, 120}
     then underscores_ok (lower_byte (s ! 1) = 120) SawDigit (drop 2 s)
     else underscores_ok False SawStart s)"

definition ParseUint0 :: "string \<Rightarrow> int option" where
  "ParseUint0 s =
    (if s = [] then None
     else case base_prefix s of (b, r) \<Rightarrow>
       (case read_numerals b 0 r of
          None \<Rightarrow> None
        | Some n \<Rightarrow> if CHR ''_'' \<in> set r \<and> \<not> underscoreOK s then None else Some n))"

text \<open>\<open>ParseInt\<close> with base 0 at 64 bits, as the flag package calls it: a failure of either kind refuses the value.\<close>

definition ParseInt0 :: "string \<Rightarrow> int option" where
  "ParseInt0 s =
    (let neg = (s \<noteq> [] \<and> hd s = CHR ''-''); u = (if s \<noteq> [] \<and> (hd s = CHR ''-'' \<or> hd s = CHR ''+'') then tl s else s)
     in case ParseUint0 u of
          None \<Rightarrow> None
        | Some n \<Rightarrow>
            if neg then (if n \<le> 2 ^ 63 then Some (- n) else None)
            else if n < 2 ^ 63 then Some n else None)"

definition ParseBool :: "string \<Rightarrow> bool option" where
  "ParseBool s =
    (if s \<in> {''1'', ''t'', ''T'', ''TRUE'', ''true'', ''True''} then Some True
     else if s \<in> {''0'', ''f'', ''F'', ''FALSE'', ''false'', ''False''} then Some False else None)"

subsection \<open>Package flag\<close>

datatype flag_value = FlagString string | FlagInt int | FlagBool bool | FlagDuration int

type_synonym flags = "string \<rightharpoonup> flag_value"

text \<open>\<open>Set\<close> of a flag of the kind of its present value.\<close>

fun flag_Set :: "flag_value \<Rightarrow> string \<Rightarrow> flag_value option" where
  "flag_Set (FlagString _) s = Some (FlagString s)"
| "flag_Set (FlagInt _) s = map_option FlagInt (ParseInt0 s)"
| "flag_Set (FlagBool _) s = map_option FlagBool (ParseBool s)"
| "flag_Set (FlagDuration _) s = map_option FlagDuration (ParseDuration s)"

text \<open>One argument: not a flag, the terminator, malformed, or a flag with its \<open>=value\<close> if it has one.\<close>

datatype flag_arg = NotFlag | Terminator | BadFlag | NamedFlag string "string option"

definition flag_name :: "string \<Rightarrow> flag_arg" where
  "flag_name n =
    (if n = [] \<or> hd n = CHR ''-'' \<or> hd n = CHR ''='' then BadFlag
     else if CHR ''='' \<in> set n
     then NamedFlag (takeWhile (\<lambda>c. c \<noteq> CHR ''='') n) (Some (tl (dropWhile (\<lambda>c. c \<noteq> CHR ''='') n)))
     else NamedFlag n None)"

definition flag_arg_of :: "string \<Rightarrow> flag_arg" where
  "flag_arg_of s =
    (if length s < 2 \<or> hd s \<noteq> CHR ''-'' then NotFlag
     else if s ! 1 = CHR ''-'' then (if length s = 2 then Terminator else flag_name (drop 2 s))
     else flag_name (tl s))"

text \<open>
  \<open>Parse\<close> of a flag set that exits on an error: the flags and the remaining arguments, or the status the process exits
  with, 0 for an undeclared \<open>-h\<close> or \<open>-help\<close> and 2 otherwise. The usage text it prints then is not modelled.
\<close>

datatype parsed = Parsed flags "string list" | ParseExit int

fun flag_Parse :: "flags \<Rightarrow> string list \<Rightarrow> parsed" where
  "flag_Parse fs [] = Parsed fs []"
| "flag_Parse fs (s # args) =
    (case flag_arg_of s of
      NotFlag \<Rightarrow> Parsed fs (s # args)
    | Terminator \<Rightarrow> Parsed fs args
    | BadFlag \<Rightarrow> ParseExit 2
    | NamedFlag n v \<Rightarrow>
        (case fs n of
          None \<Rightarrow> ParseExit (if n = ''help'' \<or> n = ''h'' then 0 else 2)
        | Some (FlagBool b) \<Rightarrow>
            (case ParseBool (case v of Some s \<Rightarrow> s | None \<Rightarrow> ''true'') of
              Some b' \<Rightarrow> flag_Parse (fs(n \<mapsto> FlagBool b')) args
            | None \<Rightarrow> ParseExit 2)
        | Some f \<Rightarrow>
            (case v of
              Some s \<Rightarrow> (case flag_Set f s of Some f' \<Rightarrow> flag_Parse (fs(n \<mapsto> f')) args | None \<Rightarrow> ParseExit 2)
            | None \<Rightarrow>
                (case args of
                  [] \<Rightarrow> ParseExit 2
                | s # rest \<Rightarrow> (case flag_Set f s of Some f' \<Rightarrow> flag_Parse (fs(n \<mapsto> f')) rest | None \<Rightarrow> ParseExit 2)))))"

definition string_flag :: "flags \<Rightarrow> string \<Rightarrow> string" where
  "string_flag fs n = (case fs n of Some (FlagString s) \<Rightarrow> s | _ \<Rightarrow> [])"

definition int_flag :: "flags \<Rightarrow> string \<Rightarrow> int" where
  "int_flag fs n = (case fs n of Some (FlagInt i) \<Rightarrow> i | _ \<Rightarrow> 0)"

definition bool_flag :: "flags \<Rightarrow> string \<Rightarrow> bool" where
  "bool_flag fs n = (case fs n of Some (FlagBool b) \<Rightarrow> b | _ \<Rightarrow> False)"

definition duration_flag :: "flags \<Rightarrow> string \<Rightarrow> int" where
  "duration_flag fs n = (case fs n of Some (FlagDuration d) \<Rightarrow> d | _ \<Rightarrow> 0)"

subsection \<open>Package path/filepath\<close>

text \<open>The elements of a path, resolved: at the start of a rooted path \<open>..\<close> leads nowhere.\<close>

fun clean_elems :: "bool \<Rightarrow> string list \<Rightarrow> string list \<Rightarrow> string list" where
  "clean_elems rooted out [] = rev out"
| "clean_elems rooted out (e # es) =
    (if e = [] \<or> e = ''.'' then clean_elems rooted out es
     else if e = ''..'' then
       (case out of
          [] \<Rightarrow> clean_elems rooted (if rooted then [] else [''..'']) es
        | x # xs \<Rightarrow> clean_elems rooted (if x = ''..'' then ''..'' # out else xs) es)
     else clean_elems rooted (e # out) es)"

fun join_slash :: "string list \<Rightarrow> string" where
  "join_slash [] = []"
| "join_slash [e] = e"
| "join_slash (e # f # es) = e @ CHR ''/'' # join_slash (f # es)"

definition path_Clean :: "string \<Rightarrow> string" where
  "path_Clean p =
    (let rooted = (p \<noteq> [] \<and> hd p = CHR ''/''); es = clean_elems rooted [] (SplitByte p CHR ''/'')
     in if rooted then CHR ''/'' # join_slash es else if es = [] then ''.'' else join_slash es)"

definition path_Join :: "string list \<Rightarrow> string" where
  "path_Join es = (let ne = filter (\<lambda>e. e \<noteq> []) es in if ne = [] then [] else path_Clean (join_slash ne))"

definition path_Base :: "string \<Rightarrow> string" where
  "path_Base p =
    (if p = [] then ''.''
     else let q = rev (dropWhile (\<lambda>c. c = CHR ''/'') (rev p))
          in if q = [] then ''/'' else rev (takeWhile (\<lambda>c. c \<noteq> CHR ''/'') (rev q)))"

end
