(* ===== verification/Migrate.thy ===== *)
theory Migrate
  imports Postgres GoFlags
begin

text \<open>
  The schema-migration command (\<open>cmd/migrate/main.go\<close>): how it discovers and orders the files of a directory, which of
  them it plans to apply or to roll back, and how it applies a plan, one transaction for each file. The driver and the
  server are the parameter \<open>PgxDriver\<close>; the process is \<open>host\<close>. The deadlines of its contexts show as errors of the driver.
\<close>

subsection \<open>Discovery\<close>

record migration =
  mig_version :: string
  mig_name :: string
  mig_upPath :: string
  mig_downPath :: string

text \<open>
  \<open>filenameRe\<close>: digits, an underscore, a non-empty name without a newline, and one of the two suffixes. The digits end at
  the first underscore and the suffix is at the end of the name, so there is one way to match.
\<close>

definition strip_suffix :: "string \<Rightarrow> string \<Rightarrow> string option" where
  "strip_suffix suf s =
    (if length suf \<le> length s \<and> drop (length s - length suf) s = suf then Some (take (length s - length suf) s) else None)"

definition match_name :: "string \<Rightarrow> (string \<times> string) option" where
  "match_name r =
    (case (case strip_suffix ''.up.sql'' r of
             Some n \<Rightarrow> Some (n, ''up'')
           | None \<Rightarrow> map_option (\<lambda>n. (n, ''down'')) (strip_suffix ''.down.sql'' r)) of
       Some (n, k) \<Rightarrow> if n = [] \<or> CHR 0x0A \<in> set n then None else Some (n, k)
     | None \<Rightarrow> None)"

definition match_filename :: "string \<Rightarrow> (string \<times> string \<times> string) option" where
  "match_filename s =
    (case (takeWhile is_digit s, dropWhile is_digit s) of
      (v, c # r) \<Rightarrow> if v = [] \<or> c \<noteq> CHR ''_'' then None else map_option (\<lambda>(n, k). (v, n, k)) (match_name r)
    | (v, []) \<Rightarrow> None)"

text \<open>One entry of the directory, added to the pairs found so far.\<close>

definition discover1 :: "string \<Rightarrow> string \<times> bool \<Rightarrow> (string \<rightharpoonup> migration) \<Rightarrow> (string \<rightharpoonup> migration)" where
  "discover1 dir e byVersion =
    (if snd e then byVersion
     else case match_filename (fst e) of
       None \<Rightarrow> byVersion
     | Some (version, name, kind) \<Rightarrow>
         (let m = (case byVersion version of
                     Some m \<Rightarrow> m
                   | None \<Rightarrow> \<lparr>mig_version = version, mig_name = name, mig_upPath = [], mig_downPath = []\<rparr>);
              path = path_Join [dir, fst e]
          in byVersion(version \<mapsto> (if kind = ''up'' then m\<lparr>mig_upPath := path\<rparr> else m\<lparr>mig_downPath := path\<rparr>))))"

definition discover :: "string \<Rightarrow> (string \<times> bool) list \<Rightarrow> (string \<rightharpoonup> migration)" where
  "discover dir entries = fold (discover1 dir) entries Map.empty"

definition version_less :: "string \<Rightarrow> string \<Rightarrow> bool" where
  "version_less a b =
    (case (ParseUint a, ParseUint b) of
      ((ni, None), (nj, None)) \<Rightarrow> ni < nj
    | _ \<Rightarrow> string_less a b)"

text \<open>\<open>order\<close> is the order in which the map is ranged over.\<close>

definition loadMigrations ::
  "'w host \<Rightarrow> ((string \<rightharpoonup> migration) \<Rightarrow> string list) \<Rightarrow> string \<Rightarrow> 'w \<Rightarrow> migration list result" where
  "loadMigrations os order dir w =
    (case os_ReadDir os dir w of
      Inl err \<Rightarrow> Inl err
    | Inr entries \<Rightarrow>
        (let byVersion = discover dir entries
         in Inr (range_map (sort_Slice version_less (order byVersion)) byVersion)))"

subsection \<open>Plans\<close>

definition pathFor :: "migration \<Rightarrow> string \<Rightarrow> string" where
  "pathFor m direction = (if direction = ''up'' then mig_upPath m else mig_downPath m)"

definition is_applied :: "(string \<rightharpoonup> bool) \<Rightarrow> string \<Rightarrow> bool" where
  "is_applied applied v = (applied v = Some True)"

fun pendingUp_loop :: "migration list \<Rightarrow> (string \<rightharpoonup> bool) \<Rightarrow> int \<Rightarrow> migration list \<Rightarrow> migration list" where
  "pendingUp_loop [] applied steps plan = plan"
| "pendingUp_loop (m # ms) applied steps plan =
    (let plan' = (if is_applied applied (mig_version m) then plan else plan @ [m])
     in if steps > 0 \<and> int (length plan') = steps then plan' else pendingUp_loop ms applied steps plan')"

definition pendingUp :: "migration list \<Rightarrow> (string \<rightharpoonup> bool) \<Rightarrow> int \<Rightarrow> migration list" where
  "pendingUp migrations applied steps = pendingUp_loop migrations applied steps []"

fun pendingDown_loop :: "(string \<rightharpoonup> migration) \<Rightarrow> int \<Rightarrow> string list \<Rightarrow> migration list \<Rightarrow> migration list result" where
  "pendingDown_loop byVersion steps [] plan = Inr plan"
| "pendingDown_loop byVersion steps (v # vs) plan =
    (case byVersion v of
      None \<Rightarrow> Inl (ErrorString (''version '' @ v @ '' is applied but has no migration file in this directory''))
    | Some m \<Rightarrow>
        (let plan' = plan @ [m] in if int (length plan') = steps then Inr plan' else pendingDown_loop byVersion steps vs plan'))"

definition by_version :: "migration list \<Rightarrow> (string \<rightharpoonup> migration)" where
  "by_version migrations = fold (\<lambda>m f. f(mig_version m \<mapsto> m)) migrations Map.empty"

definition pendingDown ::
  "migration list \<Rightarrow> ((string \<rightharpoonup> bool) \<Rightarrow> string list) \<Rightarrow> (string \<rightharpoonup> bool) \<Rightarrow> int \<Rightarrow> migration list result" where
  "pendingDown migrations order applied steps =
    (let steps = (if steps \<le> 0 then 1 else steps);
         appliedOrdered = sort_Slice (\<lambda>a b. string_less b a) (order applied)
     in pendingDown_loop (by_version migrations) steps appliedOrdered [])"

definition pad2 :: "string \<Rightarrow> string" where
  "pad2 s = (if length s < 2 then CHR '' '' # s else s)"

fun print_lines :: "'w host \<Rightarrow> string \<Rightarrow> int \<Rightarrow> migration list \<Rightarrow> 'w \<Rightarrow> 'w" where
  "print_lines os direction i [] w = w"
| "print_lines os direction i (m # ms) w =
    (let path = pathFor m direction;
         path = (if path = [] then mig_version m @ ''_'' @ mig_name m @ ''.'' @ direction @ ''.sql (missing)'' else path)
     in print_lines os direction (i + 1) ms (os_Stdout os (''  '' @ pad2 (Itoa (i + 1)) @ ''. '' @ path @ newline) w))"

definition printPlan :: "'w host \<Rightarrow> string \<Rightarrow> string \<Rightarrow> migration list \<Rightarrow> 'w \<Rightarrow> 'w" where
  "printPlan os direction dir migrations w =
    (let w1 = os_Stdout os (''migration plan ('' @ direction @ '') from '' @ dir @ '':'' @ newline) w
     in if migrations = [] then os_Stdout os (''  (no migrations found)'' @ newline) w1
        else print_lines os direction 0 (if direction = ''down'' then rev migrations else migrations) w1)"

subsection \<open>The database\<close>

record ('cfg, 'db, 'w) PgxDriver =
  pgx_ParseConfig :: "string \<Rightarrow> 'cfg result"
  pgx_SimpleProtocol :: "'cfg \<Rightarrow> 'cfg"
  pgx_OpenDB :: "'cfg \<Rightarrow> 'w \<Rightarrow> 'db \<times> 'w"
  pgx_Ping :: "'db \<Rightarrow> 'w \<Rightarrow> gerr option \<times> 'w"
  pgx_Close :: "'db \<Rightarrow> 'w \<Rightarrow> gerr option \<times> 'w"
  pgx_pool :: "'db \<Rightarrow> 'w SqlConn"
  pgx_tx :: "'db \<Rightarrow> 'w DB"
  pgx_txconn :: "'db \<Rightarrow> 'w SqlConn"

definition open_db :: "('cfg, 'db, 'w) PgxDriver \<Rightarrow> string \<Rightarrow> 'w \<Rightarrow> 'db result \<times> 'w" where
  "open_db px dsn w =
    (case pgx_ParseConfig px dsn of
      Inl err \<Rightarrow> (Inl err, w)
    | Inr cfg \<Rightarrow>
        (case pgx_OpenDB px (pgx_SimpleProtocol px cfg) w of
          (db, w1) \<Rightarrow>
            (case pgx_Ping px db w1 of
              (Some err, w2) \<Rightarrow> (Inl err, snd (pgx_Close px db w2))
            | (None, w2) \<Rightarrow> (Inr db, w2))))"

definition create_table_sql :: string where
  "create_table_sql = sql_text
    [''CREATE TABLE IF NOT EXISTS schema_migrations ('', tab ''version    TEXT        PRIMARY KEY,'',
     tab ''name       TEXT        NOT NULL,'', tab ''applied_at TIMESTAMPTZ NOT NULL DEFAULT now()'', '')'']"

definition versions_sql :: string where
  "versions_sql = ''SELECT version FROM schema_migrations''"

definition insert_version_sql :: string where
  "insert_version_sql = ''INSERT INTO schema_migrations (version, name) VALUES ($1, $2)''"

definition delete_version_sql :: string where
  "delete_version_sql = ''DELETE FROM schema_migrations WHERE version = $1''"

definition ensureSchemaMigrationsTable :: "'w SqlConn \<Rightarrow> 'w \<Rightarrow> gerr option \<times> 'w" where
  "ensureSchemaMigrationsTable db w =
    (case sql_Exec db create_table_sql [] w of (Inl err, w1) \<Rightarrow> (Some err, w1) | (Inr n, w1) \<Rightarrow> (None, w1))"

fun scan_versions :: "sql_value list list \<Rightarrow> (string \<rightharpoonup> bool) \<Rightarrow> (string \<rightharpoonup> bool) result" where
  "scan_versions [] applied = Inr applied"
| "scan_versions ([SqlText v] # rows) applied = scan_versions rows (applied(v \<mapsto> True))"
| "scan_versions (r # rows) applied = Inl scan_error"

definition appliedVersions :: "'w SqlConn \<Rightarrow> 'w \<Rightarrow> (string \<rightharpoonup> bool) result \<times> 'w" where
  "appliedVersions db w =
    (case sql_Query db versions_sql [] w of
      (Inl err, w1) \<Rightarrow> (Inl err, w1)
    | (Inr (rows, end), w1) \<Rightarrow>
        (case scan_versions rows Map.empty of
          Inl err \<Rightarrow> (Inl err, w1)
        | Inr applied \<Rightarrow> (case end of Some err \<Rightarrow> (Inl err, w1) | None \<Rightarrow> (Inr applied, w1))))"

text \<open>The statement that records a migration or removes its record.\<close>

definition record_version :: "'w SqlConn \<Rightarrow> migration \<Rightarrow> string \<Rightarrow> 'w \<Rightarrow> int result \<times> 'w" where
  "record_version conn m direction w =
    (if direction = ''up''
     then sql_Exec conn insert_version_sql [SqlText (mig_version m), SqlText (mig_name m)] w
     else sql_Exec conn delete_version_sql [SqlText (mig_version m)] w)"

text \<open>The rollback deferred by \<open>applyOne\<close> reaches the driver only while the transaction is open.\<close>

definition applyOne :: "'w host \<Rightarrow> ('cfg, 'db, 'w) PgxDriver \<Rightarrow> 'db \<Rightarrow> migration \<Rightarrow> string \<Rightarrow> 'w \<Rightarrow> gerr option \<times> 'w" where
  "applyOne os px db m direction w =
    (let path = pathFor m direction; tx = pgx_tx px db; conn = pgx_txconn px db
     in if path = [] then (Some (ErrorString (''no '' @ direction @ ''.sql file for version '' @ mig_version m)), w)
        else case os_ReadFile os path w of
          Inl err \<Rightarrow> (Some err, w)
        | Inr content \<Rightarrow>
            (case db_BeginTx tx w of
              (Some err, w1) \<Rightarrow> (Some err, w1)
            | (None, w1) \<Rightarrow>
                (case sql_Exec conn content [] w1 of
                  (Inl err, w2) \<Rightarrow> (Some err, snd (db_Rollback tx w2))
                | (Inr _, w2) \<Rightarrow>
                    (case record_version conn m direction w2 of
                      (Inl err, w3) \<Rightarrow> (Some err, snd (db_Rollback tx w3))
                    | (Inr _, w3) \<Rightarrow> db_Commit tx w3))))"

fun apply_plan :: "'w host \<Rightarrow> ('cfg, 'db, 'w) PgxDriver \<Rightarrow> 'db \<Rightarrow> string \<Rightarrow> migration list \<Rightarrow> 'w \<Rightarrow> gerr option \<times> 'w" where
  "apply_plan os px db direction [] w = (None, w)"
| "apply_plan os px db direction (m # ms) w =
    (case applyOne os px db m direction w of
      (Some err, w1) \<Rightarrow> (Some (WrapError (path_Base (pathFor m direction) @ '': '') err), w1)
    | (None, w1) \<Rightarrow>
        apply_plan os px db direction ms (os_Stdout os (''  ok  '' @ path_Base (pathFor m direction) @ newline) w1))"

text \<open>The plan of a direction; \<open>run\<close> is called with one of the two.\<close>

definition make_plan ::
  "((string \<rightharpoonup> bool) \<Rightarrow> string list) \<Rightarrow> string \<Rightarrow> int \<Rightarrow> migration list \<Rightarrow> (string \<rightharpoonup> bool) \<Rightarrow> migration list result" where
  "make_plan order direction steps migrations applied =
    (if direction = ''up'' then Inr (pendingUp migrations applied steps)
     else if direction = ''down'' then pendingDown migrations order applied steps
     else Inr [])"

definition run_on ::
  "'w host \<Rightarrow> ('cfg, 'db, 'w) PgxDriver \<Rightarrow> ((string \<rightharpoonup> bool) \<Rightarrow> string list) \<Rightarrow> 'db \<Rightarrow> string \<Rightarrow> int \<Rightarrow> migration list \<Rightarrow> 'w \<Rightarrow>
    gerr option \<times> 'w" where
  "run_on os px order db direction steps migrations w =
    (case ensureSchemaMigrationsTable (pgx_pool px db) w of
      (Some err, w1) \<Rightarrow> (Some (WrapError ''ensure schema_migrations: '' err), w1)
    | (None, w1) \<Rightarrow>
        (case appliedVersions (pgx_pool px db) w1 of
          (Inl err, w2) \<Rightarrow> (Some (WrapError ''load applied versions: '' err), w2)
        | (Inr applied, w2) \<Rightarrow>
            (case make_plan order direction steps migrations applied of
              Inl err \<Rightarrow> (Some err, w2)
            | Inr plan \<Rightarrow>
                if plan = [] then (None, os_Stdout os (''nothing to do'' @ newline) w2)
                else apply_plan os px db direction plan
                  (os_Stdout os (''applying '' @ Itoa (int (length plan)) @ '' migration(s) ('' @ direction @ ''):'' @ newline) w2))))"

definition migrate_run ::
  "'w host \<Rightarrow> ('cfg, 'db, 'w) PgxDriver \<Rightarrow> ((string \<rightharpoonup> bool) \<Rightarrow> string list) \<Rightarrow> string \<Rightarrow> string \<Rightarrow> int \<Rightarrow> migration list \<Rightarrow> 'w \<Rightarrow>
    gerr option \<times> 'w" where
  "migrate_run os px order dsn direction steps migrations w =
    (case open_db px dsn w of
      (Inl err, w1) \<Rightarrow> (Some (WrapError ''connect: '' err), w1)
    | (Inr db, w1) \<Rightarrow>
        (case run_on os px order db direction steps migrations w1 of
          (err, w2) \<Rightarrow> (err, snd (pgx_Close px db w2))))"

subsection \<open>The command\<close>

definition migrate_fail :: "'w host \<Rightarrow> gerr \<Rightarrow> 'w \<Rightarrow> int \<times> 'w" where
  "migrate_fail os err w =
    (1, os_Stderr os ((if errors_Is err os_ErrNotExist then ''migrate: directory does not exist''
                       else ''migrate: '' @ error_text err) @ newline) w)"

definition migrate_flags :: flags where
  "migrate_flags = [''dir'' \<mapsto> FlagString ''migrations'', ''steps'' \<mapsto> FlagInt 0]"

definition direction_of :: "string list \<Rightarrow> string" where
  "direction_of rest = (case rest of [] \<Rightarrow> ''up'' | d # ds \<Rightarrow> if d = [] then ''up'' else d)"

text \<open>The exit status of the command and what it did.\<close>

definition migrate_main ::
  "'w host \<Rightarrow> ('cfg, 'db, 'w) PgxDriver \<Rightarrow> ((string \<rightharpoonup> migration) \<Rightarrow> string list) \<Rightarrow> ((string \<rightharpoonup> bool) \<Rightarrow> string list) \<Rightarrow>
    string list \<Rightarrow> 'w \<Rightarrow> int \<times> 'w" where
  "migrate_main os px vorder aorder args w =
    (case flag_Parse migrate_flags args of
      ParseExit n \<Rightarrow> (n, w)
    | Parsed fs rest \<Rightarrow>
        (let dir = string_flag fs ''dir''; steps = int_flag fs ''steps''; direction = direction_of rest
         in if direction \<noteq> ''up'' \<and> direction \<noteq> ''down''
            then migrate_fail os (ErrorString (''unknown direction '' @ os_Quote os direction @ '' (want: up | down)'')) w
            else case loadMigrations os vorder dir w of
              Inl err \<Rightarrow> migrate_fail os err w
            | Inr migrations \<Rightarrow>
                (let dsn = os_Getenv os ''DATABASE_URL''
                 in if dsn = []
                    then (0, os_Stdout os (newline @ ''DATABASE_URL not set '' @ [CHR 0xE2, CHR 0x80, CHR 0x94] @ '' plan only, nothing applied.'' @ newline)
                            (printPlan os direction dir migrations w))
                    else case migrate_run os px aorder dsn direction steps migrations w of
                      (Some err, w') \<Rightarrow> migrate_fail os err w'
                    | (None, w') \<Rightarrow> (0, w'))))"

subsection \<open>Which files count\<close>

lemma strip_suffix_iff [simp]: "strip_suffix suf s = Some p \<longleftrightarrow> s = p @ suf"
proof
  assume "strip_suffix suf s = Some p"
  then show "s = p @ suf"
    by (auto simp: strip_suffix_def split: if_splits) (metis append_take_drop_id)
qed (simp add: strip_suffix_def)

lemma strip_suffix_app [simp]: "strip_suffix suf (p @ suf) = Some p"
  by simp

lemma match_name_iff:
  "match_name r = Some (n, k) \<longleftrightarrow>
    n \<noteq> [] \<and> CHR 0x0A \<notin> set n \<and> (k = ''up'' \<or> k = ''down'') \<and> r = n @ ''.'' @ k @ ''.sql''"
proof (cases "strip_suffix ''.up.sql'' r")
  case None
  then have no: "\<forall>p. r \<noteq> p @ ''.up.sql''" by (metis option.distinct(1) strip_suffix_iff)
  show ?thesis
  proof (cases "strip_suffix ''.down.sql'' r")
    case None
    then have "\<forall>p. r \<noteq> p @ ''.down.sql''" by (metis option.distinct(1) strip_suffix_iff)
    with no None \<open>strip_suffix ''.up.sql'' r = None\<close> show ?thesis by (auto simp: match_name_def)
  next
    case (Some p)
    with no \<open>strip_suffix ''.up.sql'' r = None\<close> show ?thesis by (auto simp: match_name_def)
  qed
next
  case (Some p)
  then have r: "r = p @ ''.up.sql''" by simp
  have "p @ ''.up.sql'' \<noteq> n @ ''.down.sql''"
  proof
    assume "p @ ''.up.sql'' = n @ ''.down.sql''"
    then have "strip_suffix ''.up.sql'' (n @ ''.down.sql'') = Some p" by simp
    then show False by (simp add: strip_suffix_def del: strip_suffix_iff)
  qed
  with r Some show ?thesis by (auto simp: match_name_def)
qed

lemma underscore_no_digit [simp]: "\<not> is_digit CHR ''_''"
  by (simp add: is_digit_def)

text \<open>The files that count are the ones named by digits, an underscore, a name without a newline and \<open>.up.sql\<close> or
  \<open>.down.sql\<close>, and the parts the tool reads off a name are the only ones that spell it.\<close>

lemma match_filename_iff:
  "match_filename s = Some (v, n, k) \<longleftrightarrow>
    v \<noteq> [] \<and> list_all is_digit v \<and> n \<noteq> [] \<and> CHR 0x0A \<notin> set n \<and> (k = ''up'' \<or> k = ''down'') \<and>
    s = v @ ''_'' @ n @ ''.'' @ k @ ''.sql''"
proof
  assume "match_filename s = Some (v, n, k)"
  then obtain r where "takeWhile is_digit s = v" "v \<noteq> []" "dropWhile is_digit s = CHR ''_'' # r" "match_name r = Some (n, k)"
    by (auto simp: match_filename_def split: list.splits if_splits prod.splits)
  moreover have "list_all is_digit (takeWhile is_digit s)" by (auto simp: list_all_iff dest: set_takeWhileD)
  moreover have "s = takeWhile is_digit s @ dropWhile is_digit s" by simp
  ultimately show "v \<noteq> [] \<and> list_all is_digit v \<and> n \<noteq> [] \<and> CHR 0x0A \<notin> set n \<and> (k = ''up'' \<or> k = ''down'') \<and>
      s = v @ ''_'' @ n @ ''.'' @ k @ ''.sql''"
    by (auto simp: match_name_iff)
next
  assume a: "v \<noteq> [] \<and> list_all is_digit v \<and> n \<noteq> [] \<and> CHR 0x0A \<notin> set n \<and> (k = ''up'' \<or> k = ''down'') \<and>
      s = v @ ''_'' @ n @ ''.'' @ k @ ''.sql''"
  then have "takeWhile is_digit s = v" "dropWhile is_digit s = CHR ''_'' # n @ ''.'' @ k @ ''.sql''"
    by (auto simp: takeWhile_append list_all_iff dropWhile_append)
  with a show "match_filename s = Some (v, n, k)"
    by (simp add: match_filename_def match_name_iff)
qed

subsection \<open>Plans\<close>

lemma pendingUp_loop_eq:
  "steps \<le> 0 \<or> int (length plan) < steps \<Longrightarrow>
    pendingUp_loop ms applied steps plan =
      plan @ (let todo = filter (\<lambda>m. \<not> is_applied applied (mig_version m)) ms
              in if steps > 0 then take (nat steps - length plan) todo else todo)"
proof (induction ms arbitrary: plan)
  case (Cons m ms)
  show ?case
  proof (cases "is_applied applied (mig_version m)")
    case True
    with Cons show ?thesis by (auto simp: Let_def)
  next
    case False
    show ?thesis
    proof (cases "steps > 0 \<and> int (length (plan @ [m])) = steps")
      case True
      then have "nat steps - length plan = 1" by auto
      with True False show ?thesis by simp
    next
      case stop: False
      then have p: "steps \<le> 0 \<or> int (length (plan @ [m])) < steps" using Cons.prems by auto
      have "steps > 0 \<Longrightarrow> nat steps - length plan = Suc (nat steps - length (plan @ [m]))" using p by auto
      with Cons.IH [OF p] False stop show ?thesis by (auto simp: Let_def)
    qed
  qed
qed simp

lemma pendingUp_eq:
  "pendingUp ms applied steps =
    (let todo = filter (\<lambda>m. \<not> is_applied applied (mig_version m)) ms
     in if steps > 0 then take (nat steps) todo else todo)"
  by (auto simp: pendingUp_def pendingUp_loop_eq Let_def)

lemma pendingDown_loop_eq:
  assumes "int (length plan) < steps" "set vs \<subseteq> dom f"
  shows "pendingDown_loop f steps vs plan = Inr (plan @ map (\<lambda>v. the (f v)) (take (nat steps - length plan) vs))"
  using assms
proof (induction vs arbitrary: plan)
  case (Cons v vs)
  then obtain m where m: "f v = Some m" by auto
  show ?case
  proof (cases "int (length (plan @ [m])) = steps")
    case True
    then have "nat steps - length plan = 1" by auto
    with True m show ?thesis by simp
  next
    case False
    then have p: "int (length (plan @ [m])) < steps" using Cons.prems(1) by auto
    then have "nat steps - length plan = Suc (nat steps - length (plan @ [m]))" by auto
    with Cons.IH [OF p] Cons.prems(2) False m show ?thesis by (simp add: Let_def)
  qed
qed simp

lemma by_version_set: "v \<notin> mig_version ` set ms \<Longrightarrow> fold (\<lambda>m f. f(mig_version m \<mapsto> m)) ms f v = f v"
  by (induction ms arbitrary: f) auto

lemma by_version_Some:
  assumes "distinct (map mig_version ms)" "m \<in> set ms"
  shows "by_version ms (mig_version m) = Some m"
proof -
  have "fold (\<lambda>m f. f(mig_version m \<mapsto> m)) ms f (mig_version m) = Some m" for f :: "string \<rightharpoonup> migration"
    using assms by (induction ms arbitrary: f) (auto simp: by_version_set)
  then show ?thesis by (simp add: by_version_def)
qed

lemma string_desc_unique:
  assumes "distinct xs" "set xs = set ys" "sorted_wrt (\<lambda>a b. string_less b a) ys"
  shows "sort_Slice (\<lambda>a b. string_less b a) xs = ys"
proof (rule sorted_wrt_unique [where lt = "\<lambda>a b. string_less b a"])
  show "sorted_wrt (\<lambda>a b. string_less b a) (sort_Slice (\<lambda>a b. string_less b a) xs)"
    using assms(1) by (rule sort_Slice_sorted [rotated 2]) (use string_less_trans string_less_total in blast)+
qed (use assms string_less_irrefl string_less_trans in auto)

lemma sorted_wrt_distinct: "sorted_wrt lt xs \<Longrightarrow> (\<And>x. \<not> lt x x) \<Longrightarrow> distinct xs"
  by (induction xs) auto

lemma pendingDown_latest:
  assumes s: "sorted_wrt string_less (map mig_version ms)"
    and o: "distinct ks" "set ks = mig_version ` set (take k ms)" and n: "0 < steps"
  shows "pendingDown ms (\<lambda>_. ks) applied steps = Inr (take (nat steps) (rev (take k ms)))"
proof -
  have d: "distinct (map mig_version ms)"
    using s string_less_irrefl by (rule sorted_wrt_distinct)
  have look: "the (by_version ms (mig_version m)) = m" "mig_version m \<in> dom (by_version ms)" if "m \<in> set ms" for m
    using by_version_Some [OF d that] by auto
  have "sorted_wrt string_less (map mig_version (take k ms))"
    using s by (simp add: take_map [symmetric] sorted_wrt_take)
  then have desc: "sort_Slice (\<lambda>a b. string_less b a) ks = rev (map mig_version (take k ms))"
    using o by (intro string_desc_unique) (simp_all add: sorted_wrt_rev)
  have up: "map (\<lambda>v. the (by_version ms v)) (rev (map mig_version (take k ms))) = rev (take k ms)"
    by (auto simp: rev_map intro!: map_idI look dest: in_set_takeD)
  have sub: "set (rev (map mig_version (take k ms))) \<subseteq> dom (by_version ms)"
    by (auto simp: by_version_Some [OF d] dest!: in_set_takeD)
  have "pendingDown_loop (by_version ms) steps (rev (map mig_version (take k ms))) [] =
      Inr ([] @ map (\<lambda>v. the (by_version ms v)) (take (nat steps - length ([] :: migration list)) (rev (map mig_version (take k ms)))))"
    by (rule pendingDown_loop_eq) (use n sub in auto)
  also have "\<dots> = Inr (take (nat steps) (rev (take k ms)))"
    using up by (simp add: take_map [symmetric] del: map_map)
  finally show ?thesis
    using n by (simp add: pendingDown_def desc)
qed

subsection \<open>The order of versions\<close>

lemma digits_val_Cons: "digits_val (c # cs) = digit_val c * 10 ^ length cs + digits_val cs"
proof (induction cs rule: rev_induct)
  case Nil
  then show ?case by (simp add: digits_val_def)
next
  case (snoc d ds)
  have "digits_val (c # ds @ [d]) = digits_val (c # ds) * 10 + digit_val d"
    using digits_val_snoc [of "c # ds" d] by simp
  with snoc show ?case by simp
qed

lemma digits_val_bound: "list_all is_digit s \<Longrightarrow> digits_val s < 10 ^ length s"
proof (induction s)
  case (Cons c s)
  then have d: "digit_val c \<le> 9" and b: "digits_val s < 10 ^ length s" by (auto simp: is_digit_def digit_val_def)
  have "digit_val c * 10 ^ length s + digits_val s < 9 * 10 ^ length s + 10 ^ length s"
    by (intro add_le_less_mono mult_right_mono d b) simp
  then show ?case by (simp add: digits_val_Cons)
qed (simp add: digits_val_def)

lemma same_width_less:
  assumes "list_all is_digit a" "list_all is_digit b" "length a = length b"
  shows "string_less a b \<longleftrightarrow> digits_val a < digits_val b"
  using assms(3,1,2)
proof (induction rule: list_induct2)
  case Nil
  then show ?case by (simp add: string_less_def)
next
  case (Cons c a d b)
  have v: "digits_val a < 10 ^ length a" "digits_val b < 10 ^ length a"
    using Cons.prems Cons.hyps digits_val_bound [of a] digits_val_bound [of b] by auto
  have IH: "string_less a b \<longleftrightarrow> digits_val a < digits_val b" using Cons by simp
  have eq: "c = d \<longleftrightarrow> digit_val c = digit_val d"
    using Cons.prems by (auto simp: is_digit_def digit_val_def) (metis le_add_diff_inverse of_char_eq_iff)
  have lt: "(of_char c :: nat) < of_char d \<longleftrightarrow> digit_val c < digit_val d"
    using Cons.prems by (auto simp: is_digit_def digit_val_def)
  have carry: "x < y \<Longrightarrow> x * 10 ^ length a + digits_val s < y * 10 ^ length a + digits_val t"
    if "digits_val s < 10 ^ length a" for x y s t
  proof -
    assume "x < y"
    then have "Suc x * 10 ^ length a \<le> y * 10 ^ length a" by (intro mult_right_mono) auto
    with that show ?thesis by simp
  qed
  show ?case
  proof (cases "digit_val c = digit_val d")
    case True
    with eq IH Cons.hyps show ?thesis by (simp add: string_less_def bytes_def digits_val_Cons)
  next
    case False
    with eq lt carry [of a "digit_val c" "digit_val d" b] carry [of b "digit_val d" "digit_val c" a] v Cons.hyps
    show ?thesis by (cases "digit_val c < digit_val d") (auto simp: string_less_def bytes_def digits_val_Cons)
  qed
qed

definition version_width :: "nat \<Rightarrow> string \<Rightarrow> bool" where
  "version_width k v \<longleftrightarrow> v \<noteq> [] \<and> list_all is_digit v \<and> length v = k"

lemma version_less_width:
  assumes "version_width k a" "version_width k b" "k \<le> 19"
  shows "version_less a b \<longleftrightarrow> string_less a b"
proof -
  have "digits_val s < 2 ^ 64" if "version_width k s" for s
  proof -
    have "digits_val s < 10 ^ k" using that digits_val_bound [of s] by (simp add: version_width_def)
    also have "(10 :: nat) ^ k \<le> 10 ^ 19" using assms(3) by (intro power_increasing) auto
    also have "(10 :: nat) ^ 19 \<le> 2 ^ 64" by simp
    finally show ?thesis .
  qed
  then have "int (digits_val a) < 2 ^ 64" "int (digits_val b) < 2 ^ 64"
    using assms(1,2) by (simp_all add: nat_less_real_le [symmetric] of_nat_less_iff [where 'a = int, of _ "2 ^ 64", simplified])
  with assms(1,2) show ?thesis
    by (auto simp: version_less_def ParseUint_def version_width_def same_width_less)
qed

lemma insert_by_cong:
  "(\<And>y. y \<in> set ys \<Longrightarrow> lt y x = lt' y x) \<Longrightarrow> insert_by lt x ys = insert_by lt' x ys"
  by (induction ys) auto

lemma sort_Slice_cong:
  assumes "\<And>x y. x \<in> set xs \<Longrightarrow> y \<in> set xs \<Longrightarrow> lt x y = lt' x y"
  shows "sort_Slice lt xs = sort_Slice lt' xs"
proof -
  have "foldr (insert_by lt) ys [] = foldr (insert_by lt') ys [] \<and> set (foldr (insert_by lt') ys []) \<subseteq> set xs"
    if "set ys \<subseteq> set xs" for ys
    using that
  proof (induction ys)
    case (Cons y ys)
    then show ?case using assms by (auto intro!: insert_by_cong)
  qed simp
  then show ?thesis by (simp add: sort_Slice_def)
qed

lemma version_sort:
  assumes "distinct vs" "\<And>v. v \<in> set vs \<Longrightarrow> version_width k v" "k \<le> 19"
  shows "sorted_wrt string_less (sort_Slice version_less vs)"
proof -
  have "sort_Slice version_less vs = sort_Slice string_less vs"
    using assms(2,3) by (intro sort_Slice_cong version_less_width) auto
  moreover have "sorted_wrt string_less (sort_Slice string_less vs)"
    using assms(1) by (rule sort_Slice_sorted [rotated 2]) (use string_less_trans string_less_total in blast)+
  ultimately show ?thesis by simp
qed

subsection \<open>The migrations of a directory\<close>

lemma discover_versions:
  "discover dir entries v = Some m \<Longrightarrow>
    mig_version m = v \<and> (\<exists>e \<in> set entries. \<not> snd e \<and> (\<exists>n k. match_filename (fst e) = Some (v, n, k)))"
proof (induction entries arbitrary: v m rule: rev_induct)
  case Nil
  then show ?case by (simp add: discover_def)
next
  case (snoc e es)
  have d: "discover dir (es @ [e]) = discover1 dir e (discover dir es)" by (simp add: discover_def)
  show ?case
  proof (cases "discover dir es v")
    case None
    then show ?thesis
      using snoc.prems unfolding d
      by (auto simp: discover1_def Let_def split: if_splits option.splits)
  next
    case (Some m0)
    then show ?thesis
      using snoc.prems snoc.IH [OF Some] unfolding d
      by (auto simp: discover1_def Let_def split: if_splits option.splits)
  qed
qed

definition found_versions :: "(string \<times> bool) list \<Rightarrow> string list" where
  "found_versions entries = List.map_filter (\<lambda>e. if snd e then None else map_option fst (match_filename (fst e))) entries"

lemma dom_discover: "dom (discover dir entries) = set (found_versions entries)"
proof (induction entries rule: rev_induct)
  case Nil
  then show ?case by (simp add: discover_def found_versions_def)
next
  case (snoc e es)
  have d: "discover dir (es @ [e]) = discover1 dir e (discover dir es)" by (simp add: discover_def)
  have f: "found_versions (es @ [e]) = found_versions es @ found_versions [e]"
    by (simp add: found_versions_def List.map_filter_def)
  show ?case
    using snoc unfolding d f
    by (cases "match_filename (fst e)") (auto simp: discover1_def found_versions_def Let_def split: prod.splits)
qed

lemma range_map_versions:
  assumes "\<And>v m. f v = Some m \<Longrightarrow> mig_version m = v" "set ks \<subseteq> dom f"
  shows "map mig_version (range_map ks f) = ks"
  using assms(2)
proof (induction ks)
  case (Cons k ks)
  then obtain m where "f k = Some m" by auto
  with Cons assms(1) show ?case by simp
qed simp

lemma loadMigrations_sorted:
  assumes "os_ReadDir os dir w = Inr entries" "loadMigrations os order dir w = Inr ms"
    and "enumerates (order (discover dir entries)) (discover dir entries)"
    and "\<And>e v n k. e \<in> set entries \<Longrightarrow> \<not> snd e \<Longrightarrow> match_filename (fst e) = Some (v, n, k) \<Longrightarrow> length v = width" "width \<le> 19"
  shows "sorted_wrt string_less (map mig_version ms)"
proof -
  let ?f = "discover dir entries"
  have w: "version_width width v" if dom: "v \<in> dom ?f" for v
  proof -
    obtain m where "?f v = Some m" using dom by blast
    then obtain e n k where e: "e \<in> set entries" "\<not> snd e" "match_filename (fst e) = Some (v, n, k)"
      using discover_versions by blast
    have "length v = width" by (rule assms(4) [OF e])
    with e(3) show ?thesis by (simp add: version_width_def match_filename_iff)
  qed
  have sub: "set (sort_Slice version_less (order ?f)) \<subseteq> dom ?f" and dist: "distinct (order ?f)"
    and dom: "set (order ?f) \<subseteq> dom ?f"
    using assms(3) by (simp_all add: enumerates_def)
  have "ms = range_map (sort_Slice version_less (order ?f)) ?f"
    using assms(1,2) by (simp add: loadMigrations_def Let_def)
  then have "map mig_version ms = sort_Slice version_less (order ?f)"
    using discover_versions [of dir entries] sub by (simp add: range_map_versions)
  moreover have "sorted_wrt string_less (sort_Slice version_less (order ?f))"
    using dist by (rule version_sort [OF _ _ assms(5)]) (use w dom in blast)
  ultimately show ?thesis by simp
qed

text \<open>The applied versions a ledger records, as \<open>appliedVersions\<close> returns them.\<close>

definition applied_of :: "(string \<rightharpoonup> 'n) \<Rightarrow> (string \<rightharpoonup> bool)" where
  "applied_of l = (\<lambda>v. if l v = None then None else Some True)"

definition ledger_of :: "migration list \<Rightarrow> (string \<rightharpoonup> string)" where
  "ledger_of ms = map_of (map (\<lambda>m. (mig_version m, mig_name m)) ms)"

lemma is_applied_of [simp]: "is_applied (applied_of l) v \<longleftrightarrow> l v \<noteq> None"
  by (simp add: is_applied_def applied_of_def)

lemma dom_applied_of [simp]: "dom (applied_of l) = dom l"
  by (auto simp: applied_of_def split: if_splits)

lemma dom_ledger_of [simp]: "dom (ledger_of ms) = mig_version ` set ms"
  by (simp add: ledger_of_def dom_map_of_conv_image_fst image_image)

lemma ledger_of_None: "ledger_of ms v = None \<longleftrightarrow> v \<notin> mig_version ` set ms"
  by (metis dom_ledger_of domIff)

lemma pendingUp_rest:
  assumes "distinct (map mig_version ms)"
  shows "pendingUp ms (applied_of (ledger_of (take k ms))) 0 = drop k ms"
proof -
  have d: "distinct (map mig_version (take k ms @ drop k ms))" using assms by simp
  have "filter (\<lambda>m. ledger_of (take k ms) (mig_version m) = None) (take k ms @ drop k ms) = drop k ms"
    using d unfolding filter_append map_append distinct_append
    by (auto simp: ledger_of_None filter_empty_conv intro!: filter_True)
  then show ?thesis by (simp add: pendingUp_eq)
qed

text \<open>Property C12: rollback takes back the latest migrations. In a directory whose version numbers are all written with the same
  number of digits (at most 19), after the first \<open>k\<close> migrations were applied exactly the others are pending, in order, and
  rolling \<open>n\<close> steps back plans the last \<open>n\<close> of the applied ones, latest first. The order of the directory is numeric and that of
  the rollback is the byte order of the version strings; equal width is what makes them agree.\<close>

theorem rollback_takes_back_the_latest:
  assumes "os_ReadDir os dir w = Inr entries" and "loadMigrations os vorder dir w = Inr ms"
    and "enumerates (vorder (discover dir entries)) (discover dir entries)"
    and "\<forall>e \<in> set entries. \<forall>v n k. \<not> snd e \<longrightarrow> match_filename (fst e) = Some (v, n, k) \<longrightarrow> length v = width" and "width \<le> 19"
    and "enumerates ks (applied_of (ledger_of (take k ms)))" and "0 < steps"
  shows "make_plan (\<lambda>_. ks) ''up'' 0 ms (applied_of (ledger_of (take k ms))) = Inr (drop k ms) \<and>
    make_plan (\<lambda>_. ks) ''down'' steps ms (applied_of (ledger_of (take k ms))) = Inr (take (nat steps) (rev (take k ms)))"
proof -
  have s: "sorted_wrt string_less (map mig_version ms)"
    by (rule loadMigrations_sorted [OF assms(1-3) _ assms(5)]) (use assms(4) in blast)
  then have "distinct (map mig_version ms)"
    by (rule sorted_wrt_distinct) (simp add: string_less_irrefl)
  then have "pendingUp ms (applied_of (ledger_of (take k ms))) 0 = drop k ms" by (rule pendingUp_rest)
  moreover have "pendingDown ms (\<lambda>_. ks) (applied_of (ledger_of (take k ms))) steps = Inr (take (nat steps) (rev (take k ms)))"
    using s by (rule pendingDown_latest) (use assms(6,7) in \<open>simp_all add: enumerates_def\<close>)
  ultimately show ?thesis by (simp add: make_plan_def)
qed

definition demo_host :: "(string \<times> bool) list \<Rightarrow> string list host" where
  "demo_host es = \<lparr>os_Stdout = \<lambda>s w. w @ [s], os_Stderr = \<lambda>s w. w @ [s], os_Getenv = \<lambda>_. ''dsn'',
     os_ReadFile = \<lambda>p w. Inr p, os_ReadDir = \<lambda>p w. Inr es, os_WriteFile = \<lambda>p c w. (None, w), os_Quote = \<lambda>s. s\<rparr>"

definition demo_files :: "string \<Rightarrow> string \<Rightarrow> (string \<times> bool) list" where
  "demo_files v1 v2 = [(v1 @ ''_a.up.sql'', False), (v1 @ ''_a.down.sql'', False), (''README.md'', False),
     (v2 @ ''_b.up.sql'', False), (v2 @ ''_b.down.sql'', False), (''1_dir.up.sql'', True)]"

definition demo_order :: "string \<Rightarrow> string \<Rightarrow> (string \<rightharpoonup> 'a) \<Rightarrow> string list" where
  "demo_order v1 v2 m = filter (\<lambda>v. m v \<noteq> None) [v2, v1]"

text \<open>Rollback can take back the wrong migration. With versions 9 and 10 applied, both orders of ranging over the map of
  applied versions plan a rollback of 9, although the directory lists 10 as the later one.\<close>

theorem rollback_picks_the_wrong_version:
  "case loadMigrations (demo_host (demo_files ''9'' ''10'')) (demo_order ''9'' ''10'') ''m'' [] of
     Inl err \<Rightarrow> False
   | Inr ms \<Rightarrow> map mig_version ms = [''9'', ''10''] \<and>
       list_all (\<lambda>ks. map_sum id (map mig_version) (make_plan (\<lambda>_. ks) ''down'' 0 ms (applied_of (ledger_of ms))) = Inr [''9''])
         [[''9'', ''10''], [''10'', ''9'']]"
  by code_simp

text \<open>The first theorem applied to two versions of two digits, whichever way the maps are ranged over.\<close>

theorem rollback_takes_back_the_latest_witness:
  "make_plan (\<lambda>_. [''02'', ''10'']) ''down'' 1
     [\<lparr>mig_version = ''02'', mig_name = ''a'', mig_upPath = ''m/02_a.up.sql'', mig_downPath = ''m/02_a.down.sql''\<rparr>,
      \<lparr>mig_version = ''10'', mig_name = ''b'', mig_upPath = ''m/10_b.up.sql'', mig_downPath = ''m/10_b.down.sql''\<rparr>]
     (applied_of (ledger_of (take 2 
       [\<lparr>mig_version = ''02'', mig_name = ''a'', mig_upPath = ''m/02_a.up.sql'', mig_downPath = ''m/02_a.down.sql''\<rparr>,
        \<lparr>mig_version = ''10'', mig_name = ''b'', mig_upPath = ''m/10_b.up.sql'', mig_downPath = ''m/10_b.down.sql''\<rparr>]))) =
   Inr [\<lparr>mig_version = ''10'', mig_name = ''b'', mig_upPath = ''m/10_b.up.sql'', mig_downPath = ''m/10_b.down.sql''\<rparr>]"
proof -
  let ?ms = "[\<lparr>mig_version = ''02'', mig_name = ''a'', mig_upPath = ''m/02_a.up.sql'', mig_downPath = ''m/02_a.down.sql''\<rparr>,
      \<lparr>mig_version = ''10'', mig_name = ''b'', mig_upPath = ''m/10_b.up.sql'', mig_downPath = ''m/10_b.down.sql''\<rparr>]"
  let ?es = "demo_files ''02'' ''10''"
  have load: "loadMigrations (demo_host ?es) (demo_order ''02'' ''10'') ''m'' [] = Inr ?ms" by code_simp
  have widths: "\<forall>e \<in> set ?es. \<not> snd e \<longrightarrow> (case match_filename (fst e) of None \<Rightarrow> True | Some (v, n, k) \<Rightarrow> length v = 2)" by code_simp
  have found: "discover ''m'' ?es v \<noteq> None \<longleftrightarrow> v \<in> {''02'', ''10''}" for v
  proof -
    have "found_versions ?es = [''02'', ''02'', ''10'', ''10'']" by code_simp
    then have "dom (discover ''m'' ?es) = {''02'', ''10''}" by (simp add: dom_discover)
    then show ?thesis by (metis domIff)
  qed
  have "make_plan (\<lambda>_. [''02'', ''10'']) ''up'' 0 ?ms (applied_of (ledger_of (take 2 ?ms))) = Inr (drop 2 ?ms) \<and>
      make_plan (\<lambda>_. [''02'', ''10'']) ''down'' 1 ?ms (applied_of (ledger_of (take 2 ?ms))) = Inr (take (nat 1) (rev (take 2 ?ms)))"
  proof (rule rollback_takes_back_the_latest [OF _ load])
    show "os_ReadDir (demo_host ?es) ''m'' [] = Inr ?es" by (simp add: demo_host_def)
    show "enumerates (demo_order ''02'' ''10'' (discover ''m'' ?es)) (discover ''m'' ?es)"
      using found by (auto simp: enumerates_def demo_order_def)
    show "\<forall>e \<in> set ?es. \<forall>v n k. \<not> snd e \<longrightarrow> match_filename (fst e) = Some (v, n, k) \<longrightarrow> length v = 2" using widths by fastforce
    show "enumerates [''02'', ''10''] (applied_of (ledger_of (take 2 ?ms)))" by (auto simp: enumerates_def)
  qed simp_all
  then show ?thesis by simp
qed

subsection \<open>Applying a plan\<close>

text \<open>
  What is relied on of the server. Its state is the ledger (the table \<open>schema_migrations\<close>) and the rest of the schema; a
  script that \<open>plain\<close> admits, one without transaction control of its own, has an effect on the rest. Outside a
  transaction only the table is created and read, files do not change and printing touches no database.
\<close>

type_synonym 's ledger = "(string \<rightharpoonup> string) \<times> 's"

definition migration_server ::
  "'w host \<Rightarrow> ('cfg, 'db, 'w) PgxDriver \<Rightarrow> ('w \<Rightarrow> 's ledger) \<Rightarrow> ('w \<Rightarrow> 's ledger) \<Rightarrow> (string \<Rightarrow> bool) \<Rightarrow> (string \<Rightarrow> 's \<Rightarrow> 's) \<Rightarrow>
    (string \<Rightarrow> string result) \<Rightarrow> bool" where
  "migration_server os px committed working plain effect file \<longleftrightarrow>
    (\<forall>p w. os_ReadFile os p w = file p) \<and>
    (\<forall>s w. committed (os_Stdout os s w) = committed w) \<and>
    (\<forall>cfg w. committed (snd (pgx_OpenDB px cfg w)) = committed w) \<and>
    (\<forall>db w. committed (snd (pgx_Ping px db w)) = committed w) \<and>
    (\<forall>db w. committed (snd (pgx_Close px db w)) = committed w) \<and>
    (\<forall>db w. committed (snd (sql_Exec (pgx_pool px db) create_table_sql [] w)) = committed w) \<and>
    (\<forall>db w. committed (snd (sql_Query (pgx_pool px db) versions_sql [] w)) = committed w) \<and>
    (\<forall>db w rows w'. sql_Query (pgx_pool px db) versions_sql [] w = (Inr (rows, None), w') \<longrightarrow>
       (\<exists>vs. rows = map (\<lambda>v. [SqlText v]) vs \<and> set vs = dom (fst (committed w)))) \<and>
    (\<forall>db. sql_transactions (pgx_tx px db) committed working) \<and>
    (\<forall>db c w r w'. plain c \<longrightarrow> sql_Exec (pgx_txconn px db) c [] w = (r, w') \<longrightarrow> committed w' = committed w \<and>
       (\<forall>n. r = Inr n \<longrightarrow> working w' = (fst (working w), effect c (snd (working w))))) \<and>
    (\<forall>db v n w r w'. sql_Exec (pgx_txconn px db) insert_version_sql [SqlText v, SqlText n] w = (r, w') \<longrightarrow> committed w' = committed w \<and>
       (\<forall>k. r = Inr k \<longrightarrow> working w' = ((fst (working w))(v \<mapsto> n), snd (working w)))) \<and>
    (\<forall>db v w r w'. sql_Exec (pgx_txconn px db) delete_version_sql [SqlText v] w = (r, w') \<longrightarrow> committed w' = committed w \<and>
       (\<forall>k. r = Inr k \<longrightarrow> working w' = ((fst (working w))(v := None), snd (working w))))"

lemma migration_serverD:
  assumes "migration_server os px committed working plain effect file"
  shows "os_ReadFile os p w = file p" "committed (os_Stdout os t w) = committed w"
    "committed (snd (pgx_OpenDB px cfg w)) = committed w" "committed (snd (pgx_Ping px db w)) = committed w"
    "committed (snd (pgx_Close px db w)) = committed w"
    "committed (snd (sql_Exec (pgx_pool px db) create_table_sql [] w)) = committed w"
    "committed (snd (sql_Query (pgx_pool px db) versions_sql [] w)) = committed w"
    "sql_transactions (pgx_tx px db) committed working"
  using assms by (simp_all add: migration_server_def)

lemma migration_server_rows:
  assumes "migration_server os px committed working plain effect file"
    and "sql_Query (pgx_pool px db) versions_sql [] w = (Inr (rows, None), w')"
  shows "\<exists>vs. rows = map (\<lambda>v. [SqlText v]) vs \<and> set vs = dom (fst (committed w))"
proof -
  have "\<forall>db w rows w'. sql_Query (pgx_pool px db) versions_sql [] w = (Inr (rows, None), w') \<longrightarrow>
       (\<exists>vs. rows = map (\<lambda>v. [SqlText v]) vs \<and> set vs = dom (fst (committed w)))"
    using assms(1) unfolding migration_server_def by (elim conjE)
  with assms(2) show ?thesis by blast
qed

lemma migration_server_script:
  assumes "migration_server os px committed working plain effect file" "plain c"
    and "sql_Exec (pgx_txconn px db) c [] w = (r, w')"
  shows "committed w' = committed w" "r = Inr n \<Longrightarrow> working w' = (fst (working w), effect c (snd (working w)))"
proof -
  have "\<forall>db c w r w'. plain c \<longrightarrow> sql_Exec (pgx_txconn px db) c [] w = (r, w') \<longrightarrow> committed w' = committed w \<and>
       (\<forall>n. r = Inr n \<longrightarrow> working w' = (fst (working w), effect c (snd (working w))))"
    using assms(1) unfolding migration_server_def by (elim conjE)
  with assms(2,3) show "committed w' = committed w" "r = Inr n \<Longrightarrow> working w' = (fst (working w), effect c (snd (working w)))"
    by blast+
qed

lemma migration_server_insert:
  assumes "migration_server os px committed working plain effect file"
    and "sql_Exec (pgx_txconn px db) insert_version_sql [SqlText v, SqlText m] w = (r, w')"
  shows "committed w' = committed w" "r = Inr n \<Longrightarrow> working w' = ((fst (working w))(v \<mapsto> m), snd (working w))"
proof -
  have "\<forall>db v n w r w'. sql_Exec (pgx_txconn px db) insert_version_sql [SqlText v, SqlText n] w = (r, w') \<longrightarrow> committed w' = committed w \<and>
       (\<forall>k. r = Inr k \<longrightarrow> working w' = ((fst (working w))(v \<mapsto> n), snd (working w)))"
    using assms(1) unfolding migration_server_def by (elim conjE)
  with assms(2) show "committed w' = committed w" "r = Inr n \<Longrightarrow> working w' = ((fst (working w))(v \<mapsto> m), snd (working w))"
    by blast+
qed

lemma migration_server_delete:
  assumes "migration_server os px committed working plain effect file"
    and "sql_Exec (pgx_txconn px db) delete_version_sql [SqlText v] w = (r, w')"
  shows "committed w' = committed w" "r = Inr n \<Longrightarrow> working w' = ((fst (working w))(v := None), snd (working w))"
proof -
  have "\<forall>db v w r w'. sql_Exec (pgx_txconn px db) delete_version_sql [SqlText v] w = (r, w') \<longrightarrow> committed w' = committed w \<and>
       (\<forall>k. r = Inr k \<longrightarrow> working w' = ((fst (working w))(v := None), snd (working w)))"
    using assms(1) unfolding migration_server_def by (elim conjE)
  with assms(2) show "committed w' = committed w" "r = Inr n \<Longrightarrow> working w' = ((fst (working w))(v := None), snd (working w))"
    by blast+
qed

text \<open>What one migration does to the database.\<close>

definition advance :: "(string \<Rightarrow> 's \<Rightarrow> 's) \<Rightarrow> (string \<Rightarrow> string result) \<Rightarrow> string \<Rightarrow> migration \<Rightarrow> 's ledger \<Rightarrow> 's ledger" where
  "advance effect file direction m s =
    ((if direction = ''up'' then (fst s)(mig_version m \<mapsto> mig_name m) else (fst s)(mig_version m := None)),
     (case file (pathFor m direction) of Inl err \<Rightarrow> snd s | Inr c \<Rightarrow> effect c (snd s)))"

text \<open>\<open>applyOne\<close> in two halves: the body of the transaction, and the transaction around it.\<close>

definition migration_body :: "('cfg, 'db, 'w) PgxDriver \<Rightarrow> 'db \<Rightarrow> migration \<Rightarrow> string \<Rightarrow> string \<Rightarrow> 'w \<Rightarrow> gerr option \<times> 'w" where
  "migration_body px db m direction content w1 =
    (let conn = pgx_txconn px db
     in case sql_Exec conn content [] w1 of
          (Inl err, w2) \<Rightarrow> (Some err, w2)
        | (Inr _, w2) \<Rightarrow>
            (case record_version conn m direction w2 of
              (Inl err, w3) \<Rightarrow> (Some err, w3)
            | (Inr _, w3) \<Rightarrow> (None, w3)))"

lemma applyOne_within:
  "applyOne os px db m direction w =
    (let path = pathFor m direction; tx = pgx_tx px db
     in if path = [] then (Some (ErrorString (''no '' @ direction @ ''.sql file for version '' @ mig_version m)), w)
        else case os_ReadFile os path w of
          Inl err \<Rightarrow> (Some err, w)
        | Inr content \<Rightarrow>
            (case db_BeginTx tx w of
              (Some err, w1) \<Rightarrow> (Some err, w1)
            | (None, w1) \<Rightarrow>
                (case migration_body px db m direction content w1 of
                  (Some err, w2) \<Rightarrow> (Some err, snd (db_Rollback tx w2))
                | (None, w2) \<Rightarrow> db_Commit tx w2)))"
  by (auto simp: applyOne_def migration_body_def Let_def split: sum.split prod.split option.split)

lemma record_version_effect:
  assumes "migration_server os px committed working plain effect file"
    and "record_version (pgx_txconn px db) m direction w = (r, w')"
  shows "committed w' = committed w"
    and "r = Inr n \<Longrightarrow> file (pathFor m direction) = Inr content \<Longrightarrow> working w = (fst s, effect content (snd s)) \<Longrightarrow>
      working w' = advance effect file direction m s"
  using assms(2) migration_server_insert [OF assms(1)] migration_server_delete [OF assms(1)]
  by (cases "direction = ''up''"; force simp: record_version_def advance_def)+

lemma migration_body_effect:
  assumes "migration_server os px committed working plain effect file" "plain content"
    and "migration_body px db m direction content w = (r, w')"
  shows "committed w' = committed w"
    and "r = None \<Longrightarrow> file (pathFor m direction) = Inr content \<Longrightarrow> working w' = advance effect file direction m (working w)"
proof -
  obtain r1 w2 where e: "sql_Exec (pgx_txconn px db) content [] w = (r1, w2)" by fastforce
  obtain r2 w3 where v: "record_version (pgx_txconn px db) m direction w2 = (r2, w3)" by fastforce
  have body: "(r, w') = (case r1 of Inl err \<Rightarrow> (Some err, w2)
      | Inr _ \<Rightarrow> (case r2 of Inl err \<Rightarrow> (Some err, w3) | Inr _ \<Rightarrow> (None, w3)))"
    using assms(3) e v by (simp add: migration_body_def Let_def split: sum.splits)
  note script = migration_server_script [OF assms(1,2) e] and rec = record_version_effect [OF assms(1) v]
  show "committed w' = committed w" using body script(1) rec(1) by (auto split: sum.splits)
  assume n: "r = None" "file (pathFor m direction) = Inr content"
  then obtain k j where "r1 = Inr k" "r2 = Inr j" "w' = w3" using body by (auto split: sum.splits)
  with script(2) rec(2) n(2) show "working w' = advance effect file direction m (working w)" by blast
qed

lemma applyOne_atomic:
  assumes s: "migration_server os px committed working plain effect file" and p: "\<And>q c. file q = Inr c \<Longrightarrow> plain c"
    and r: "applyOne os px db m direction w = (r, w')"
  shows "committed w' = (if r = None then advance effect file direction m (committed w) else committed w)"
proof -
  note rf = migration_serverD(1) [OF s] and tx = migration_serverD(8) [OF s, of db]
  show ?thesis
  proof (cases "pathFor m direction = [] \<or> (\<exists>err. file (pathFor m direction) = Inl err)")
    case True
    with r show ?thesis by (auto simp: applyOne_within Let_def rf split: if_splits)
  next
    case False
    then obtain content where f: "file (pathFor m direction) = Inr content" and ne: "pathFor m direction \<noteq> []"
      by (cases "file (pathFor m direction)") auto
    obtain b w1 where b: "db_BeginTx (pgx_tx px db) w = (b, w1)" by fastforce
    obtain e w2 where e: "migration_body px db m direction content w1 = (e, w2)" by fastforce
    note body = migration_body_effect [OF s p [OF f] e]
    have roll: "committed (snd (db_Rollback (pgx_tx px db) v)) = committed v" for v
      using tx unfolding sql_transactions_def by (metis prod.collapse)
    show ?thesis
    proof (cases b)
      case (Some err)
      with r f ne b tx show ?thesis by (auto simp: applyOne_within Let_def rf sql_transactions_def)
    next
      case None
      then have c1: "committed w1 = committed w" "working w1 = committed w"
        using tx b unfolding sql_transactions_def by blast+
      show ?thesis
      proof (cases e)
        case (Some err)
        with r f ne b None e body c1 show ?thesis by (auto simp: applyOne_within Let_def rf roll)
      next
        case e_None: None
        then have "db_Commit (pgx_tx px db) w2 = (r, w')"
          using r f ne b None e by (simp add: applyOne_within Let_def rf)
        then have "committed w' = (if r = None then working w2 else committed w2)"
          using tx unfolding sql_transactions_def by (cases r) auto
        with body c1 e_None f show ?thesis by simp
      qed
    qed
  qed
qed

lemma apply_plan_prefix:
  assumes s: "migration_server os px committed working plain effect file" and p: "\<And>q c. file q = Inr c \<Longrightarrow> plain c"
  shows "apply_plan os px db direction plan w = (r, w') \<Longrightarrow>
    \<exists>k \<le> length plan. committed w' = fold (advance effect file direction) (take k plan) (committed w) \<and> (r = None \<longleftrightarrow> k = length plan)"
proof (induction plan arbitrary: w)
  case Nil
  then show ?case by simp
next
  case (Cons m ms)
  obtain e w1 where e: "applyOne os px db m direction w = (e, w1)" by fastforce
  note one = applyOne_atomic [OF s p e]
  show ?case
  proof (cases e)
    case (Some err)
    with Cons.prems e one show ?thesis by (auto intro!: exI [of _ 0])
  next
    case None
    let ?w2 = "os_Stdout os (''  ok  '' @ path_Base (pathFor m direction) @ newline) w1"
    have "apply_plan os px db direction ms ?w2 = (r, w')" using Cons.prems e None by simp
    from Cons.IH [OF this] obtain k where k: "k \<le> length ms"
        "committed w' = fold (advance effect file direction) (take k ms) (committed ?w2)" "r = None \<longleftrightarrow> k = length ms" by blast
    moreover have "committed ?w2 = committed w1" by (rule migration_serverD(2) [OF s])
    ultimately show ?thesis using one None by (auto intro!: exI [of _ "Suc k"])
  qed
qed

lemma scan_versions_texts:
  "scan_versions (map (\<lambda>v. [SqlText v]) vs) f = Inr (\<lambda>v. if v \<in> set vs then Some True else f v)"
  by (induction vs arbitrary: f) (auto simp: fun_eq_iff)

lemma appliedVersions_ledger:
  assumes s: "migration_server os px committed working plain effect file"
    and r: "appliedVersions (pgx_pool px db) w = (r, w')"
  shows "committed w' = committed w" and "r = Inr applied \<Longrightarrow> applied = applied_of (fst (committed w))"
proof -
  obtain q w1 where q: "sql_Query (pgx_pool px db) versions_sql [] w = (q, w1)" by fastforce
  have "committed w1 = committed w" using migration_serverD(7) [OF s, of db w] q by simp
  then show "committed w' = committed w"
    using r q by (auto simp: appliedVersions_def split: sum.splits prod.splits option.splits)
  assume a: "r = Inr applied"
  then obtain rows where rows: "q = Inr (rows, None)" "scan_versions rows Map.empty = Inr applied"
    using r q by (auto simp: appliedVersions_def split: sum.splits prod.splits option.splits)
  then obtain vs where vs: "rows = map (\<lambda>v. [SqlText v]) vs" "set vs = dom (fst (committed w))"
    using migration_server_rows [OF s] q by blast
  show "applied = applied_of (fst (committed w))"
  proof
    fix v
    have "applied v = (if v \<in> set vs then Some True else None)" using rows vs(1) by (auto simp: scan_versions_texts)
    then show "applied v = applied_of (fst (committed w)) v" using vs(2) by (auto simp: applied_of_def)
  qed
qed

lemma open_db_committed:
  assumes "migration_server os px committed working plain effect file" "open_db px dsn w = (r, w')"
  shows "committed w' = committed w"
proof -
  have p: "committed v' = committed v" if "pgx_Ping px db v = (e, v')" for db v e v'
    using migration_serverD(4) [OF assms(1), of db v] that by simp
  have o: "committed v' = committed v" if "pgx_OpenDB px cfg v = (db, v')" for cfg v db v'
    using migration_serverD(3) [OF assms(1), of cfg v] that by simp
  show ?thesis
    using assms(2) by (auto simp: open_db_def migration_serverD(5) [OF assms(1)] split: sum.splits prod.splits option.splits dest!: p o)
qed

lemma run_on_prefix:
  assumes s: "migration_server os px committed working plain effect file" and p: "\<And>q c. file q = Inr c \<Longrightarrow> plain c"
    and r: "run_on os px order db direction steps ms w = (r, w')"
  shows "(r \<noteq> None \<and> committed w' = committed w) \<or>
    (\<exists>plan k. make_plan order direction steps ms (applied_of (fst (committed w))) = Inr plan \<and> k \<le> length plan \<and>
       committed w' = fold (advance effect file direction) (take k plan) (committed w) \<and> (r = None \<longleftrightarrow> k = length plan))"
proof -
  obtain e w1 where e: "ensureSchemaMigrationsTable (pgx_pool px db) w = (e, w1)" by fastforce
  have c1: "committed w1 = committed w"
    using e migration_serverD(6) [OF s, of db w]
    by (auto simp: ensureSchemaMigrationsTable_def split: sum.splits prod.splits)
  obtain a w2 where a: "appliedVersions (pgx_pool px db) w1 = (a, w2)" by fastforce
  note led = appliedVersions_ledger [OF s a]
  show ?thesis
  proof (cases "e = None \<and> (\<exists>applied. a = Inr applied)")
    case False
    have "r \<noteq> None \<and> committed w' = committed w"
    proof (cases e)
      case (Some err)
      with r e c1 show ?thesis by (auto simp: run_on_def)
    next
      case None
      with False obtain err where "a = Inl err" by (cases a) auto
      with None r e a c1 led(1) show ?thesis by (auto simp: run_on_def)
    qed
    then show ?thesis by blast
  next
    case True
    then obtain applied where ap0: "e = None" "a = Inr applied" by blast
    have "applied = applied_of (fst (committed w))" using led(2) [OF ap0(2)] c1 by simp
    note ap = ap0 this
    show ?thesis
    proof (cases "make_plan order direction steps ms applied")
      case (Inl err)
      with r e a ap(1,2) c1 led(1) show ?thesis by (auto simp: run_on_def)
    next
      case (Inr plan)
      show ?thesis
      proof (cases "plan = []")
        case True
        with r e a ap Inr c1 led(1) show ?thesis by (auto simp: run_on_def migration_serverD(2) [OF s])
      next
        case False
        let ?w3 = "os_Stdout os (''applying '' @ Itoa (int (length plan)) @ '' migration(s) ('' @ direction @ ''):'' @ newline) w2"
        have "apply_plan os px db direction plan ?w3 = (r, w')"
          using r e a ap(1,2) Inr False by (simp add: run_on_def)
        from apply_plan_prefix [OF s p this] Inr ap(3) show ?thesis
          by (simp add: migration_serverD(2) [OF s] led(1) c1)
      qed
    qed
  qed
qed

lemma advance_up_ledger: "fst (fold (advance effect file ''up'') ms s) v = None \<longleftrightarrow> fst s v = None \<and> v \<notin> mig_version ` set ms"
  by (induction ms arbitrary: s) (auto simp: advance_def)

text \<open>Property C11: a run of the migration tool stops at a prefix of its plan, and says so. With a server that keeps transactions
  (for scripts without transaction control of their own), the tables afterwards are those that the first \<open>k\<close> migrations of the
  plan produce from the tables before, one after the other, each with its record in the ledger; no migration is half applied. The
  run returns nil exactly when that is the whole plan, and a run that fails before planning changes nothing. After an uncapped
  \<open>up\<close> that returned nil, nothing is pending.\<close>

theorem migrate_run_applies_a_prefix:
  assumes "migration_server os px committed working plain effect file" and "\<forall>q c. file q = Inr c \<longrightarrow> plain c"
    and "migrate_run os px order dsn direction steps ms w = (r, w')"
  shows "((r \<noteq> None \<and> committed w' = committed w) \<or>
      (\<exists>plan k. make_plan order direction steps ms (applied_of (fst (committed w))) = Inr plan \<and> k \<le> length plan \<and>
         committed w' = fold (advance effect file direction) (take k plan) (committed w) \<and> (r = None \<longleftrightarrow> k = length plan))) \<and>
    (r = None \<and> direction = ''up'' \<and> steps \<le> 0 \<longrightarrow>
      make_plan order direction steps ms (applied_of (fst (committed w'))) = Inr [])"
proof -
  obtain d w1 where d: "open_db px dsn w = (d, w1)" by fastforce
  note c1 = open_db_committed [OF assms(1) d]
  have first: "(r \<noteq> None \<and> committed w' = committed w) \<or>
      (\<exists>plan k. make_plan order direction steps ms (applied_of (fst (committed w))) = Inr plan \<and> k \<le> length plan \<and>
         committed w' = fold (advance effect file direction) (take k plan) (committed w) \<and> (r = None \<longleftrightarrow> k = length plan))"
  proof (cases d)
    case (Inl err)
    with assms(3) d c1 show ?thesis by (auto simp: migrate_run_def)
  next
    case (Inr db)
    obtain w2 where w2: "run_on os px order db direction steps ms w1 = (r, w2)" "w' = snd (pgx_Close px db w2)"
      using assms(3) d Inr by (auto simp: migrate_run_def split: prod.splits)
    from run_on_prefix [OF assms(1) _ w2(1)] assms(2) w2(2) c1 migration_serverD(5) [OF assms(1), of db w2]
    show ?thesis by auto
  qed
  moreover have "make_plan order direction steps ms (applied_of (fst (committed w'))) = Inr []"
    if "r = None" "direction = ''up''" "steps \<le> 0"
    using first that
    by (auto simp: make_plan_def pendingUp_eq advance_up_ledger Let_def filter_empty_conv)
  ultimately show ?thesis by blast
qed

text \<open>A server over a pair of a committed and a working state, on which a script appends itself to a journal. One script fails.\<close>

definition demo_exec :: "string \<Rightarrow> sql_value list \<Rightarrow> string list ledger \<times> string list ledger \<Rightarrow> int result \<times> string list ledger \<times> string list ledger" where
  "demo_exec q args w =
    (case args of
      [] \<Rightarrow> if q = ''bad'' then (Inl (ErrorString ''syntax error''), w) else (Inr 0, fst w, fst (snd w), snd (snd w) @ [q])
    | [SqlText v] \<Rightarrow> (Inr 1, fst w, (fst (snd w))(v := None), snd (snd w))
    | [SqlText v, SqlText n] \<Rightarrow> (Inr 1, fst w, (fst (snd w))(v \<mapsto> n), snd (snd w))
    | _ \<Rightarrow> (Inl (ErrorString ''unexpected arguments''), w))"

definition demo_pgx :: "string list \<Rightarrow> (unit, unit, string list ledger \<times> string list ledger) PgxDriver" where
  "demo_pgx vs = \<lparr>pgx_ParseConfig = \<lambda>_. Inr (), pgx_SimpleProtocol = id, pgx_OpenDB = \<lambda>_ w. ((), w), pgx_Ping = \<lambda>_ w. (None, w),
     pgx_Close = \<lambda>_ w. (None, w),
     pgx_pool = \<lambda>_. \<lparr>sql_QueryRow = \<lambda>q args w. (Inr [], w),
        sql_Query = \<lambda>q args w. (Inr (map (\<lambda>v. [SqlText v]) (filter (\<lambda>v. fst (fst w) v \<noteq> None) vs),
          if \<forall>v. fst (fst w) v \<noteq> None \<longrightarrow> v \<in> set vs then None else Some (ErrorString ''more rows'')), w),
        sql_Exec = \<lambda>q args w. (Inr 0, w)\<rparr>,
     pgx_tx = \<lambda>_. demo_db,
     pgx_txconn = \<lambda>_. \<lparr>sql_QueryRow = \<lambda>q args w. (Inr [], w), sql_Query = \<lambda>q args w. (Inr ([], None), w), sql_Exec = demo_exec\<rparr>\<rparr>"

definition quiet_host :: "'w host" where
  "quiet_host = \<lparr>os_Stdout = \<lambda>s w. w, os_Stderr = \<lambda>s w. w, os_Getenv = \<lambda>_. ''dsn'', os_ReadFile = \<lambda>p w. Inr p,
     os_ReadDir = \<lambda>p w. Inr [], os_WriteFile = \<lambda>p c w. (None, w), os_Quote = \<lambda>s. s\<rparr>"

lemma demo_migration_server:
  "migration_server quiet_host (demo_pgx vs) fst snd (\<lambda>_. True) (\<lambda>c s. s @ [c]) Inr"
  unfolding migration_server_def
  by (auto simp: demo_pgx_def quiet_host_def demo_exec_def sql_transactions_def demo_db_def split: if_splits)

theorem migrate_run_applies_a_prefix_witness:
  "fst (snd (migrate_run quiet_host (demo_pgx [''1'']) (\<lambda>_. []) ''dsn'' ''up'' 0
      [\<lparr>mig_version = ''1'', mig_name = ''a'', mig_upPath = ''one'', mig_downPath = []\<rparr>,
       \<lparr>mig_version = ''2'', mig_name = ''b'', mig_upPath = ''bad'', mig_downPath = []\<rparr>] ((Map.empty, []), (Map.empty, [])))) =
    ([''1'' \<mapsto> ''a''], [''one''])"
proof -
  let ?ms = "[\<lparr>mig_version = ''1'', mig_name = ''a'', mig_upPath = ''one'', mig_downPath = []\<rparr>,
    \<lparr>mig_version = ''2'', mig_name = ''b'', mig_upPath = ''bad'', mig_downPath = []\<rparr>]"
  let ?w = "((Map.empty, []), (Map.empty, [])) :: string list ledger \<times> string list ledger"
  obtain r w' where r: "migrate_run quiet_host (demo_pgx [''1'']) (\<lambda>_. []) ''dsn'' ''up'' 0 ?ms ?w = (r, w')"
    by (meson surj_pair)
  have e: "r \<noteq> None" "fst w' \<noteq> (Map.empty, [])"
    using r
    by (auto simp: migrate_run_def open_db_def run_on_def ensureSchemaMigrationsTable_def appliedVersions_def demo_pgx_def quiet_host_def
        make_plan_def pendingUp_eq is_applied_def Let_def applyOne_def pathFor_def record_version_def demo_exec_def demo_db_def fun_eq_iff
        split: if_splits)
  have p: "make_plan (\<lambda>_. []) ''up'' 0 ?ms (applied_of (Map.empty :: string \<rightharpoonup> string)) = Inr ?ms"
    by (simp add: make_plan_def pendingUp_eq is_applied_def applied_of_def)
  have "fst w' \<noteq> fst ?w" using e(2) by simp
  then obtain plan k where pk: "make_plan (\<lambda>_. []) ''up'' 0 ?ms (applied_of (fst (fst ?w))) = Inr plan" "k \<le> length plan"
      "fst w' = fold (advance (\<lambda>c s. s @ [c]) Inr ''up'') (take k plan) (fst ?w)" "r = None \<longleftrightarrow> k = length plan"
    using migrate_run_applies_a_prefix [OF demo_migration_server _ r, THEN conjunct1] by blast
  have "plan = ?ms" using pk(1) p by simp
  with pk e(1) have k: "k \<le> 2" "fst w' = fold (advance (\<lambda>c s. s @ [c]) Inr ''up'') (take k ?ms) (Map.empty, [])" "k \<noteq> 2"
    by simp_all
  then have "k = 0 \<or> k = 1" by linarith
  then have "k = 1" using e(2) k(2) by auto
  then show ?thesis using k(2) r by (simp add: advance_def pathFor_def)
qed

end
