(* ===== verification/AgentCtl.thy ===== *)
theory AgentCtl
  imports KafkaBus Ids GoFlags
begin

text \<open>
  The tool that exercises the Kafka bus by hand (\<open>cmd/agentctl/main.go\<close>): publishing one event over the production path,
  and reading a topic beside the consumer group. The client library is the parameter \<open>KafkaClient\<close>; the writer
  that the bus opens is made from its configuration by \<open>io\<close>. The tool's dispatch on its arguments is in \<open>EventTap\<close>.
\<close>

subsection \<open>What the tool uses of the libraries\<close>

record ReaderConfig =
  rc_Brokers :: "string list"
  rc_Topic :: string
  rc_Partition :: int
  rc_StartOffset :: int

record kafka_partition =
  part_Topic :: string
  part_ID :: int

text \<open>A connection is dialled to a broker or to the leader of a partition; a reader reads one partition of one topic.\<close>

record ('c, 'rd, 'w) KafkaClient =
  kc_Dial :: "string \<Rightarrow> 'w \<Rightarrow> 'c result \<times> 'w"
  kc_DialLeader :: "string \<Rightarrow> string \<Rightarrow> int \<Rightarrow> 'w \<Rightarrow> 'c result \<times> 'w"
  kc_ReadPartitions :: "'c \<Rightarrow> 'w \<Rightarrow> kafka_partition list result \<times> 'w"
  kc_ReadOffsets :: "'c \<Rightarrow> 'w \<Rightarrow> (int \<times> int) result \<times> 'w"
  kc_Seek :: "'c \<Rightarrow> int \<Rightarrow> 'w \<Rightarrow> int result \<times> 'w"
  kc_ReadMessage :: "'c \<Rightarrow> 'w \<Rightarrow> KafkaMessage result \<times> 'w"
  kc_Close :: "'c \<Rightarrow> 'w \<Rightarrow> gerr option \<times> 'w"
  kc_NewReader :: "ReaderConfig \<Rightarrow> 'w \<Rightarrow> 'rd \<times> 'w"
  kc_FetchMessage :: "'rd \<Rightarrow> 'w \<Rightarrow> KafkaMessage result \<times> 'w"
  kc_CloseReader :: "'rd \<Rightarrow> 'w \<Rightarrow> gerr option \<times> 'w"
  kc_FirstOffset :: int
  kc_LastOffset :: int

definition DeadlineExceeded :: gerr where
  "DeadlineExceeded = ErrorString ''context deadline exceeded''"

text \<open>\<open>Duration.String\<close>: the fraction of a second to as many digits as it needs, with the unit below a second it fits.\<close>

definition fraction_text :: "nat \<Rightarrow> int \<Rightarrow> string" where
  "fraction_text digits v =
    (let f = strip_zeros (pad digits (nat (v mod 10 ^ digits)))
     in Itoa (v div 10 ^ digits) @ (if f = [] then [] else CHR ''.'' # f))"

definition Duration_String :: "int \<Rightarrow> string" where
  "Duration_String d =
    (let u = \<bar>d\<bar>; sign = (if d < 0 then ''-'' else []);
         s = u mod (60 * Second); m = u div (60 * Second)
     in if d = 0 then ''0s''
        else if u < 1000 then sign @ Itoa u @ ''ns''
        else if u < 1000000 then sign @ fraction_text 3 u @ [CHR 0xC2, CHR 0xB5] @ ''s''
        else if u < Second then sign @ fraction_text 6 u @ ''ms''
        else if m = 0 then sign @ fraction_text 9 s @ ''s''
        else if m < 60 then sign @ Itoa m @ ''m'' @ fraction_text 9 s @ ''s''
        else sign @ Itoa (m div 60) @ ''h'' @ Itoa (m mod 60) @ ''m'' @ fraction_text 9 s @ ''s'')"

text \<open>
  A \<open>RawMessage\<close> is written without its white space and with the characters that HTML cares about escaped. The flag tells
  whether a string literal is open.
\<close>

fun json_compact :: "bool \<Rightarrow> nat list \<Rightarrow> nat list" where
  "json_compact q [] = []"
| "json_compact q (c # cs) =
    (if \<not> q then (if is_ws c then json_compact False cs else c # json_compact (c = 34) cs)
     else if c = 34 then c # json_compact False cs
     else if c = 92 then (case cs of [] \<Rightarrow> [c] | d # ds \<Rightarrow> c # d # json_compact True ds)
     else if c = 60 \<or> c = 62 \<or> c = 38 then [92, 117, 48, 48, hex_digit (c div 16), hex_digit (c mod 16)] @ json_compact True cs
     else if c = 0xE2 \<and> 2 \<le> length cs \<and> cs ! 0 = 0x80 \<and> (cs ! 1 = 0xA8 \<or> cs ! 1 = 0xA9)
       then [92, 117, 50, 48, 50, hex_digit (cs ! 1 mod 16)] @ json_compact True (drop 2 cs)
     else c # json_compact True cs)"

text \<open>The result of a command: the process ends with a status, or the command returns an error or nil.\<close>

datatype cmd_result = Exits int | Returns "gerr option"

abbreviation fails :: "gerr \<Rightarrow> 'w \<Rightarrow> cmd_result outcome \<times> 'w" where
  "fails err w \<equiv> (Return (Returns (Some err)), w)"

subsection \<open>Publish\<close>

definition publish_flags :: flags where
  "publish_flags = [''brokers'' \<mapsto> FlagString ''localhost:9092'', ''name'' \<mapsto> FlagString [], ''topic'' \<mapsto> FlagString [],
    ''source'' \<mapsto> FlagString [], ''aggregate-id'' \<mapsto> FlagString [], ''version'' \<mapsto> FlagInt 1, ''payload'' \<mapsto> FlagString [],
    ''payload-file'' \<mapsto> FlagString [], ''correlation-id'' \<mapsto> FlagString [], ''causation-id'' \<mapsto> FlagString [], ''id'' \<mapsto> FlagString []]"

definition readPayload :: "'w host \<Rightarrow> string \<Rightarrow> string \<Rightarrow> 'w \<Rightarrow> string result" where
  "readPayload os inline file w =
    (if file \<noteq> [] then os_ReadFile os file w
     else if inline \<noteq> [] then Inr inline
     else Inl (ErrorString ''one of -payload or -payload-file is required''))"

definition orDefault :: "string \<Rightarrow> (string, 'w) action \<Rightarrow> (string, 'w) action" where
  "orDefault v gen w = (if v \<noteq> [] then (Return v, w) else gen w)"

definition splitCSV :: "string \<Rightarrow> string list" where
  "splitCSV s = filter (\<lambda>p. p \<noteq> []) (map TrimSpace (SplitByte s CHR '',''))"

definition source_for :: "string \<Rightarrow> string \<Rightarrow> string" where
  "source_for source name =
    (if source \<noteq> [] then source
     else let i = IndexByte name CHR ''.'' in if 0 \<le> i then take (nat i) name else name)"

definition publish_config :: "string \<Rightarrow> string \<Rightarrow> KafkaConfig" where
  "publish_config brokers topic =
    \<lparr>cfg_Brokers = splitCSV brokers, cfg_GroupID = [], cfg_TopicFor = (if topic \<noteq> [] then Some (\<lambda>_. topic) else None),
     cfg_MaxRetries = 0, cfg_Backoff = None, cfg_RetryTopicFor = None, cfg_DLQTopicFor = None, cfg_Codec = None\<rparr>"

text \<open>The end of \<open>runPublish\<close>: the event is complete, the bus is opened, used and closed.\<close>

definition publish_event ::
  "'w host \<Rightarrow> (KafkaConfig \<Rightarrow> 'w KafkaIO) \<Rightarrow> 'w env \<Rightarrow> ((string \<rightharpoonup> string) \<Rightarrow> string list) \<Rightarrow> string \<Rightarrow> string \<Rightarrow> Event \<Rightarrow>
    (cmd_result, 'w) action" where
  "publish_event os io env ord brokers topic e w =
    (let cfg = publish_config brokers topic; bus = KBus_New ord cfg env (io cfg) []
     in case KBus_Publish bus [e] w of
          (Panic p, w1) \<Rightarrow> (Panic p, snd (KBus_Close bus w1))
        | (Return (Some err), w1) \<Rightarrow> fails (WrapError ''publish: '' err) (snd (KBus_Close bus w1))
        | (Return None, w1) \<Rightarrow>
            (let dest = (if topic = [] then DefaultTopicFor (ev_Name e) else topic);
                 w2 = os_Stdout os (''published '' @ ev_Name e @ '' (id='' @ ev_ID e @ '' aggregate_id='' @ ev_AggregateID e @
                        '') to topic '' @ os_Quote os dest @ newline) w1
             in (Return (Returns None), snd (KBus_Close bus w2))))"

definition runPublish ::
  "'w host \<Rightarrow> (KafkaConfig \<Rightarrow> 'w KafkaIO) \<Rightarrow> 'w env \<Rightarrow> 'w entropy \<Rightarrow> ((string \<rightharpoonup> string) \<Rightarrow> string list) \<Rightarrow> string list \<Rightarrow>
    (cmd_result, 'w) action" where
  "runPublish os io env rand ord args w =
    (case flag_Parse publish_flags args of
      ParseExit n \<Rightarrow> (Return (Exits n), w)
    | Parsed fs rest \<Rightarrow>
        (let str = string_flag fs; name = str ''name''
         in if name = [] then fails (ErrorString ''-name is required'') w
            else case readPayload os (str ''payload'') (str ''payload-file'') w of
              Inl err \<Rightarrow> fails err w
            | Inr body \<Rightarrow>
                if \<not> json_Valid body then fails (ErrorString ''-payload/-payload-file must be valid JSON'') w
                else case orDefault (str ''id'') (New rand) w of
                  (Panic p, w1) \<Rightarrow> (Panic p, w1)
                | (Return i, w1) \<Rightarrow>
                    (case clock_now env w1 of
                      (t, w2) \<Rightarrow>
                        (case orDefault (str ''correlation-id'') (New rand) w2 of
                          (Panic p, w3) \<Rightarrow> (Panic p, w3)
                        | (Return c, w3) \<Rightarrow>
                            publish_event os io env ord (str ''brokers'') (str ''topic'')
                              \<lparr>ev_ID = i, ev_Name = name, ev_Source = source_for (str ''source'') name,
                               ev_AggregateID = str ''aggregate-id'', ev_OccurredAt = t, ev_Version = int_flag fs ''version'',
                               ev_CorrelationID = c, ev_CausationID = str ''causation-id'', ev_Payload = body,
                               ev_Metadata = Map.empty\<rparr> w3))))"

subsection \<open>Printing\<close>

definition headerMap :: "(string \<times> string) list \<Rightarrow> (string \<rightharpoonup> string)" where
  "headerMap hs = fold (\<lambda>h m. m(fst h \<mapsto> snd h)) hs Map.empty"

text \<open>A map of strings as a JSON value; a nil map is \<open>null\<close>, and the model does not tell it from an empty one.\<close>

definition string_map_json :: "((string \<rightharpoonup> string) \<Rightarrow> string list) \<Rightarrow> (string \<rightharpoonup> string) \<Rightarrow> nat list" where
  "string_map_json ord m = (if ord m = [] then json_null else json_map (ord m) m)"

definition payload_json :: "string \<Rightarrow> nat list" where
  "payload_json p = (if json_Valid p then json_compact False (bytes p) else json_bytes p)"

text \<open>The encoder writes a map with its keys sorted, and a newline. Only the time of the event can be refused.\<close>

definition printEvent ::
  "'w host \<Rightarrow> ((string \<rightharpoonup> string) \<Rightarrow> string list) \<Rightarrow> string \<Rightarrow> KafkaMessage \<Rightarrow> Event \<Rightarrow> 'w \<Rightarrow> gerr option \<times> 'w" where
  "printEvent os ord topic msg ev w =
    (case json_time (ev_OccurredAt ev) of
      Inl err \<Rightarrow> (Some err, w)
    | Inr tm \<Rightarrow>
        (None, os_Stdout os (of_bytes (json_object
          [(''aggregate_id'', json_quote (ev_AggregateID ev)), (''causation_id'', json_quote (ev_CausationID ev)),
           (''correlation_id'', json_quote (ev_CorrelationID ev)), (''headers'', string_map_json ord (headerMap (km_Headers msg))),
           (''id'', json_quote (ev_ID ev)), (''metadata'', string_map_json ord (ev_Metadata ev)), (''name'', json_quote (ev_Name ev)),
           (''occurred_at'', tm), (''offset'', json_int (km_Offset msg)), (''partition'', json_int (km_Partition msg)),
           (''payload'', payload_json (ev_Payload ev)), (''source'', json_quote (ev_Source ev)), (''topic'', json_quote topic),
           (''version'', json_int (ev_Version ev))]) @ newline) w))"

subsection \<open>Consume\<close>

definition consume_flags :: flags where
  "consume_flags = [''brokers'' \<mapsto> FlagString ''localhost:9092'', ''topic'' \<mapsto> FlagString [], ''name'' \<mapsto> FlagString [],
    ''aggregate-id'' \<mapsto> FlagString [], ''count'' \<mapsto> FlagInt 1, ''timeout'' \<mapsto> FlagDuration (10 * Second),
    ''from-beginning'' \<mapsto> FlagBool True]"

definition wanted :: "string \<Rightarrow> string \<Rightarrow> Event \<Rightarrow> bool" where
  "wanted name aggregateID ev \<longleftrightarrow> \<not> (name \<noteq> [] \<and> ev_Name ev \<noteq> name) \<and> \<not> (aggregateID \<noteq> [] \<and> ev_AggregateID ev \<noteq> aggregateID)"

text \<open>
  The loop reads until enough events matched, the deadline passes or a call fails; a topic that never stops delivering
  other events, read without a deadline, keeps it running, which is the value \<open>None\<close>.
\<close>

partial_function (option) consume_loop ::
  "'w host \<Rightarrow> ((string \<rightharpoonup> string) \<Rightarrow> string list) \<Rightarrow> ('c, 'rd, 'w) KafkaClient \<Rightarrow> 'rd \<Rightarrow> string \<Rightarrow> string \<Rightarrow> string \<Rightarrow> int \<Rightarrow> int \<Rightarrow> 'w \<Rightarrow>
    (gerr option \<times> int \<times> 'w) option" where
  "consume_loop os ord kc rd t name aggregateID count matched w =
    (if matched < count then
       (case kc_FetchMessage kc rd w of
         (Inl err, w1) \<Rightarrow>
           Some (if errors_Is err DeadlineExceeded then None else Some (WrapError ''fetch: '' err), matched, w1)
       | (Inr msg, w1) \<Rightarrow>
           (case JSONCodec_Decode (km_Value msg) of
             Inl err \<Rightarrow>
               consume_loop os ord kc rd t name aggregateID count matched
                 (os_Stderr os (''agentctl: skipping undecodable message at offset '' @ Itoa (km_Offset msg) @ '': '' @ error_text err @ newline) w1)
           | Inr ev \<Rightarrow>
               if \<not> wanted name aggregateID ev then consume_loop os ord kc rd t name aggregateID count matched w1
               else (case printEvent os ord t msg ev w1 of
                 (Some err, w2) \<Rightarrow> Some (Some err, matched, w2)
               | (None, w2) \<Rightarrow> consume_loop os ord kc rd t name aggregateID count (matched + 1) w2)))
     else Some (None, matched, w))"

definition runConsume ::
  "'w host \<Rightarrow> ((string \<rightharpoonup> string) \<Rightarrow> string list) \<Rightarrow> ('c, 'rd, 'w) KafkaClient \<Rightarrow> string list \<Rightarrow> 'w \<Rightarrow> (cmd_result \<times> 'w) option" where
  "runConsume os ord kc args w =
    (case flag_Parse consume_flags args of
      ParseExit n \<Rightarrow> Some (Exits n, w)
    | Parsed fs rest \<Rightarrow>
        (let str = string_flag fs; name = str ''name''
         in if str ''topic'' = [] \<and> name = [] then Some (Returns (Some (ErrorString ''one of -topic or -name is required'')), w)
            else let t = (if str ''topic'' = [] then DefaultTopicFor name else str ''topic'');
                     (rd, w1) = kc_NewReader kc
                       \<lparr>rc_Brokers = splitCSV (str ''brokers''), rc_Topic = t, rc_Partition = 0,
                        rc_StartOffset = (if bool_flag fs ''from-beginning'' then kc_FirstOffset kc else kc_LastOffset kc)\<rparr> w
                 in case consume_loop os ord kc rd t name (str ''aggregate-id'') (int_flag fs ''count'') 0 w1 of
                      None \<Rightarrow> None
                    | Some (Some err, matched, w2) \<Rightarrow> Some (Returns (Some err), snd (kc_CloseReader kc rd w2))
                    | Some (None, matched, w2) \<Rightarrow>
                        Some (Returns
                          (if matched = 0
                           then Some (ErrorString (''no matching message on topic '' @ os_Quote os t @ '' within '' @
                                  Duration_String (duration_flag fs ''timeout'')))
                           else None), snd (kc_CloseReader kc rd w2))))"

end
