(* ===== verification/EventTap.thy ===== *)
theory EventTap
  imports AgentCtl
begin

text \<open>
  The event tap of the tool (\<open>cmd/agentctl/tap.go\<close>): marks of the end offsets of every partition, and the events
  produced after a mark. Last comes the dispatch of the tool on its arguments (\<open>run\<close> and \<open>main\<close> of \<open>main.go\<close>). Compiling a
  regular expression given by the user is a parameter; a read that blocks for five seconds shows as an error of the client.
\<close>

subsection \<open>Marks\<close>

type_synonym offsetMark = "string \<rightharpoonup> int"

definition markKey :: "string \<Rightarrow> int \<Rightarrow> string" where
  "markKey topic part = topic @ ''/'' @ Itoa part"

fun indent_members :: "(string \<times> nat list) list \<Rightarrow> nat list" where
  "indent_members [] = []"
| "indent_members [f] = 32 # 32 # json_quote (fst f) @ 58 # 32 # snd f"
| "indent_members (f # g # fs) = 32 # 32 # json_quote (fst f) @ 58 # 32 # snd f @ 44 # 10 # indent_members (g # fs)"

text \<open>\<open>json.MarshalIndent\<close> of a mark, with two blanks; \<open>keys\<close> is the order in which the map is ranged over.\<close>

definition mark_text :: "string list \<Rightarrow> offsetMark \<Rightarrow> string" where
  "mark_text keys m =
    of_bytes (if keys = [] then [123, 125]
      else 123 # 10 # indent_members (map (\<lambda>k. (k, json_int (the (m k)))) (sort_Slice string_less keys)) @ [10, 125])"

fun read_offsets :: "(nat list \<times> json) list \<Rightarrow> offsetMark \<Rightarrow> offsetMark \<times> bool" where
  "read_offsets [] m = (m, False)"
| "read_offsets ((k, x) # ms) m =
    (let (v, bad) = read_int x 0; (m', bads) = read_offsets ms (m(of_bytes (encode_runes k) \<mapsto> v))
     in (m', bad \<or> bads))"

text \<open>\<open>json.Unmarshal\<close> into an empty mark.\<close>

definition read_mark :: "string \<Rightarrow> offsetMark result" where
  "read_mark s =
    (case json_parse (bytes s) of
      None \<Rightarrow> Inl json_syntax_error
    | Some JNull \<Rightarrow> Inr Map.empty
    | Some (JObj ms) \<Rightarrow> (case read_offsets ms Map.empty of (m, bad) \<Rightarrow> if bad then Inl json_type_error else Inr m)
    | Some _ \<Rightarrow> Inl json_type_error)"

subsection \<open>Partitions\<close>

definition partition_less :: "kafka_partition \<Rightarrow> kafka_partition \<Rightarrow> bool" where
  "partition_less p q =
    (if part_Topic p \<noteq> part_Topic q then string_less (part_Topic p) (part_Topic q) else part_ID p < part_ID q)"

definition listPartitions :: "('c, 'rd, 'w) KafkaClient \<Rightarrow> string list \<Rightarrow> 'w \<Rightarrow> kafka_partition list result \<times> 'w" where
  "listPartitions kc brokers w =
    (case brokers of
      [] \<Rightarrow> (Inl (ErrorString ''no brokers given''), w)
    | broker # rest \<Rightarrow>
        (case kc_Dial kc broker w of
          (Inl err, w1) \<Rightarrow> (Inl (WrapError (''dial '' @ broker @ '': '') err), w1)
        | (Inr conn, w1) \<Rightarrow>
            (case kc_ReadPartitions kc conn w1 of
              (Inl err, w2) \<Rightarrow> (Inl (WrapError ''list partitions: '' err), snd (kc_Close kc conn w2))
            | (Inr all, w2) \<Rightarrow>
                (Inr (sort_Slice partition_less (filter (\<lambda>p. \<not> prefix ''_'' (part_Topic p)) all)), snd (kc_Close kc conn w2)))))"

text \<open>
  Partitions come in the order of their topic and number, and none of an internal topic (\<open>_\<close>), if the brokers name each
  partition once: the order that a mark and the events printed for it rely on.
\<close>

lemma listPartitions_sorted:
  assumes "kc_ReadPartitions kc conn w1 = (Inr all, w2)" "kc_Dial kc broker w = (Inr conn, w1)" "distinct all"
  shows "\<exists>ps. listPartitions kc (broker # bs) w = (Inr ps, snd (kc_Close kc conn w2)) \<and> sorted_wrt partition_less ps \<and>
    set ps = {p \<in> set all. \<not> prefix ''_'' (part_Topic p)}"
proof (intro exI conjI)
  show "sorted_wrt partition_less (sort_Slice partition_less (filter (\<lambda>p. \<not> prefix ''_'' (part_Topic p)) all))"
  proof (rule sort_Slice_sorted)
    fix p q r :: kafka_partition
    show "partition_less p q \<Longrightarrow> partition_less q r \<Longrightarrow> partition_less p r"
      unfolding partition_less_def by (smt (verit, best) string_less_trans string_less_irrefl)
    show "p \<noteq> q \<Longrightarrow> partition_less p q \<or> partition_less q p"
      using string_less_total by (cases p; cases q) (auto simp: partition_less_def)
  qed (use assms(3) in simp)
qed (use assms in \<open>auto simp: listPartitions_def\<close>)

text \<open>The brokers are not empty when this is called: \<open>listPartitions\<close> has refused an empty list.\<close>

definition partitionBounds :: "('c, 'rd, 'w) KafkaClient \<Rightarrow> string list \<Rightarrow> string \<Rightarrow> int \<Rightarrow> 'w \<Rightarrow> (int \<times> int) result \<times> 'w" where
  "partitionBounds kc brokers topic part w =
    (case kc_DialLeader kc (brokers ! 0) topic part w of
      (Inl err, w1) \<Rightarrow> (Inl (WrapError (''dial '' @ markKey topic part @ '': '') err), w1)
    | (Inr conn, w1) \<Rightarrow>
        (case kc_ReadOffsets kc conn w1 of
          (Inl err, w2) \<Rightarrow> (Inl (WrapError (''offsets '' @ markKey topic part @ '': '') err), snd (kc_Close kc conn w2))
        | (Inr bounds, w2) \<Rightarrow> (Inr bounds, snd (kc_Close kc conn w2))))"

subsection \<open>Reading a range\<close>

text \<open>A broker that never reaches the end keeps the loop running, which is the value \<open>None\<close>.\<close>

partial_function (option) read_loop ::
  "('c, 'rd, 'w) KafkaClient \<Rightarrow> 'c \<Rightarrow> string \<Rightarrow> int \<Rightarrow> int \<Rightarrow> (KafkaMessage \<Rightarrow> 'w \<Rightarrow> gerr option \<times> 'w) \<Rightarrow> 'w \<Rightarrow>
    (gerr option \<times> 'w) option" where
  "read_loop kc conn topic part fin fn w =
    (case kc_ReadMessage kc conn w of
      (Inl err, w1) \<Rightarrow> Some (Some (WrapError (''read '' @ markKey topic part @ '': '') err), w1)
    | (Inr msg, w1) \<Rightarrow>
        (case fn msg w1 of
          (Some err, w2) \<Rightarrow> Some (Some err, w2)
        | (None, w2) \<Rightarrow>
            if wrap64 (km_Offset msg + 1) \<ge> fin then Some (None, w2)
            else read_loop kc conn topic part fin fn w2))"

definition readRange ::
  "('c, 'rd, 'w) KafkaClient \<Rightarrow> string list \<Rightarrow> string \<Rightarrow> int \<Rightarrow> int \<Rightarrow> (KafkaMessage \<Rightarrow> 'w \<Rightarrow> gerr option \<times> 'w) \<Rightarrow> 'w \<Rightarrow>
    (gerr option \<times> 'w) option" where
  "readRange kc brokers topic part from fn w =
    (case partitionBounds kc brokers topic part w of
      (Inl err, w1) \<Rightarrow> Some (Some err, w1)
    | (Inr (first, fin), w1) \<Rightarrow>
        (let from = (if from < first then first else from)
         in if from \<ge> fin then Some (None, w1)
            else case kc_DialLeader kc (brokers ! 0) topic part w1 of
              (Inl err, w2) \<Rightarrow> Some (Some (WrapError (''dial '' @ markKey topic part @ '': '') err), w2)
            | (Inr conn, w2) \<Rightarrow>
                (case kc_Seek kc conn from w2 of
                  (Inl err, w3) \<Rightarrow>
                    Some (Some (WrapError (''seek '' @ markKey topic part @ '' to '' @ Itoa from @ '': '') err),
                      snd (kc_Close kc conn w3))
                | (Inr _, w3) \<Rightarrow>
                    map_option (\<lambda>(err, w4). (err, snd (kc_Close kc conn w4)))
                      (read_loop kc conn topic part fin fn w3))))"

subsection \<open>The commands\<close>

definition mark_flags :: flags where
  "mark_flags = [''brokers'' \<mapsto> FlagString ''localhost:9092'', ''o'' \<mapsto> FlagString []]"

fun mark_loop :: "('c, 'rd, 'w) KafkaClient \<Rightarrow> string list \<Rightarrow> kafka_partition list \<Rightarrow> offsetMark \<Rightarrow> 'w \<Rightarrow> offsetMark result \<times> 'w" where
  "mark_loop kc brokers [] m w = (Inr m, w)"
| "mark_loop kc brokers (p # ps) m w =
    (case partitionBounds kc brokers (part_Topic p) (part_ID p) w of
      (Inl err, w1) \<Rightarrow> (Inl err, w1)
    | (Inr (_, fin), w1) \<Rightarrow> mark_loop kc brokers ps (m(markKey (part_Topic p) (part_ID p) \<mapsto> fin)) w1)"

definition runMark ::
  "'w host \<Rightarrow> (offsetMark \<Rightarrow> string list) \<Rightarrow> ('c, 'rd, 'w) KafkaClient \<Rightarrow> string list \<Rightarrow> 'w \<Rightarrow> cmd_result \<times> 'w" where
  "runMark os mord kc args w =
    (case flag_Parse mark_flags args of
      ParseExit n \<Rightarrow> (Exits n, w)
    | Parsed fs rest \<Rightarrow>
        (let brokers = splitCSV (string_flag fs ''brokers''); out = string_flag fs ''o''
         in case listPartitions kc brokers w of
              (Inl err, w1) \<Rightarrow> (Returns (Some err), w1)
            | (Inr parts, w1) \<Rightarrow>
                (case mark_loop kc brokers parts Map.empty w1 of
                  (Inl err, w2) \<Rightarrow> (Returns (Some err), w2)
                | (Inr m, w2) \<Rightarrow>
                    (let b = mark_text (mord m) m
                     in if out = [] then (Returns None, os_Stdout os (b @ newline) w2)
                        else case os_WriteFile os out (b @ newline) w2 of (err, w3) \<Rightarrow> (Returns err, w3)))))"

text \<open>What cannot be decoded is printed as it is.\<close>

definition printRaw ::
  "'w host \<Rightarrow> ((string \<rightharpoonup> string) \<Rightarrow> string list) \<Rightarrow> string \<Rightarrow> KafkaMessage \<Rightarrow> gerr \<Rightarrow> 'w \<Rightarrow> gerr option \<times> 'w" where
  "printRaw os ord topic msg decodeErr w =
    (None, os_Stdout os (of_bytes (json_object
      [(''decode_error'', json_quote (error_text decodeErr)), (''headers'', string_map_json ord (headerMap (km_Headers msg))),
       (''offset'', json_int (km_Offset msg)), (''partition'', json_int (km_Partition msg)), (''raw'', json_quote (km_Value msg)),
       (''topic'', json_quote topic)]) @ newline) w)"

definition print_matching ::
  "'w host \<Rightarrow> ((string \<rightharpoonup> string) \<Rightarrow> string list) \<Rightarrow> string \<Rightarrow> string \<Rightarrow> string \<Rightarrow> KafkaMessage \<Rightarrow> 'w \<Rightarrow> gerr option \<times> 'w" where
  "print_matching os ord topic name aggregateID msg w =
    (case JSONCodec_Decode (km_Value msg) of
      Inl err \<Rightarrow> printRaw os ord topic msg err w
    | Inr ev \<Rightarrow> if \<not> wanted name aggregateID ev then (None, w) else printEvent os ord topic msg ev w)"

definition events_flags :: flags where
  "events_flags = [''brokers'' \<mapsto> FlagString ''localhost:9092'', ''since-mark'' \<mapsto> FlagString [], ''topic-regex'' \<mapsto> FlagString [],
    ''name'' \<mapsto> FlagString [], ''aggregate-id'' \<mapsto> FlagString []]"

definition offset_at :: "offsetMark \<Rightarrow> string \<Rightarrow> int" where
  "offset_at start k = (case start k of None \<Rightarrow> 0 | Some o1 \<Rightarrow> o1)"

fun events_loop ::
  "('c, 'rd, 'w) KafkaClient \<Rightarrow> string list \<Rightarrow> (string \<Rightarrow> bool) option \<Rightarrow> offsetMark \<Rightarrow>
    (string \<Rightarrow> KafkaMessage \<Rightarrow> 'w \<Rightarrow> gerr option \<times> 'w) \<Rightarrow> kafka_partition list \<Rightarrow> 'w \<Rightarrow> (gerr option \<times> 'w) option" where
  "events_loop kc bs re start fn [] w = Some (None, w)"
| "events_loop kc bs re start fn (p # ps) w =
    (if (case re of None \<Rightarrow> False | Some match \<Rightarrow> \<not> match (part_Topic p)) then events_loop kc bs re start fn ps w
     else case readRange kc bs (part_Topic p) (part_ID p) (offset_at start (markKey (part_Topic p) (part_ID p)))
                 (fn (part_Topic p)) w of
            None \<Rightarrow> None
          | Some (Some err, w1) \<Rightarrow> Some (Some err, w1)
          | Some (None, w1) \<Rightarrow> events_loop kc bs re start fn ps w1)"

definition load_mark :: "'w host \<Rightarrow> string \<Rightarrow> 'w \<Rightarrow> offsetMark result" where
  "load_mark os since w =
    (if since = [] then Inr Map.empty
     else case os_ReadFile os since w of
       Inl err \<Rightarrow> Inl (WrapError ''read mark: '' err)
     | Inr b \<Rightarrow> (case read_mark b of Inl err \<Rightarrow> Inl (WrapError (''parse mark '' @ since @ '': '') err) | Inr m \<Rightarrow> Inr m))"

definition compile_topics :: "(string \<Rightarrow> (string \<Rightarrow> bool) result) \<Rightarrow> string \<Rightarrow> (string \<Rightarrow> bool) option result" where
  "compile_topics compile re =
    (if re = [] then Inr None
     else case compile re of Inl err \<Rightarrow> Inl (WrapError ''-topic-regex: '' err) | Inr match \<Rightarrow> Inr (Some match))"

definition runEvents ::
  "'w host \<Rightarrow> (string \<Rightarrow> (string \<Rightarrow> bool) result) \<Rightarrow> ((string \<rightharpoonup> string) \<Rightarrow> string list) \<Rightarrow> ('c, 'rd, 'w) KafkaClient \<Rightarrow>
    string list \<Rightarrow> 'w \<Rightarrow> (cmd_result \<times> 'w) option" where
  "runEvents os compile ord kc args w =
    (case flag_Parse events_flags args of
      ParseExit n \<Rightarrow> Some (Exits n, w)
    | Parsed fs rest \<Rightarrow>
        (let str = string_flag fs
         in case load_mark os (str ''since-mark'') w of
              Inl err \<Rightarrow> Some (Returns (Some err), w)
            | Inr start \<Rightarrow>
                (case compile_topics compile (str ''topic-regex'') of
                  Inl err \<Rightarrow> Some (Returns (Some err), w)
                | Inr re \<Rightarrow>
                    (let bs = splitCSV (str ''brokers'')
                     in case listPartitions kc bs w of
                          (Inl err, w1) \<Rightarrow> Some (Returns (Some err), w1)
                        | (Inr parts, w1) \<Rightarrow>
                            map_option (\<lambda>(err, w2). (Returns err, w2))
                              (events_loop kc bs re start (\<lambda>topic. print_matching os ord topic (str ''name'') (str ''aggregate-id''))
                                 parts w1)))))"

subsection \<open>The tool\<close>

definition usage_text :: string where
  "usage_text = concat (map (\<lambda>l. l @ newline)
    [''agentctl - drive the Kafka event bus for end-to-end testing'', [], ''Usage:'',
     ''  agentctl kafka publish -name <event-name> -aggregate-id <id> -payload <json> [flags]'',
     ''  agentctl kafka consume -name <event-name> | -topic <topic> [flags]'',
     ''  agentctl kafka mark -o <file>                 snapshot every topic'' @ [CHR 0x27] @ ''s end offsets'',
     ''  agentctl kafka events -since-mark <file>      print every event produced after the snapshot'', [],
     ''Run \"agentctl kafka <subcommand> -h\" for flags.''])"

definition usage :: "'w host \<Rightarrow> 'w \<Rightarrow> 'w" where
  "usage os w = os_Stderr os usage_text w"

fun join_blanks :: "string list \<Rightarrow> string" where
  "join_blanks [] = []"
| "join_blanks [s] = s"
| "join_blanks (s # t # ss) = s @ CHR '' '' # join_blanks (t # ss)"

text \<open>What the tool is linked with, in one record.\<close>

record ('c, 'rd, 'w) tool_env =
  te_host :: "'w host"
  te_io :: "KafkaConfig \<Rightarrow> 'w KafkaIO"
  te_env :: "'w env"
  te_rand :: "'w entropy"
  te_ord :: "(string \<rightharpoonup> string) \<Rightarrow> string list"
  te_mord :: "offsetMark \<Rightarrow> string list"
  te_client :: "('c, 'rd, 'w) KafkaClient"
  te_compile :: "string \<Rightarrow> (string \<Rightarrow> bool) result"

definition agentctl_run :: "('c, 'rd, 'w) tool_env \<Rightarrow> string list \<Rightarrow> 'w \<Rightarrow> (cmd_result outcome \<times> 'w) option" where
  "agentctl_run te args w =
    (let os = te_host te
     in if length args < 2 \<or> args ! 0 \<noteq> ''kafka''
        then let w1 = usage os w
             in Some (fails (if args = [] then ErrorString ''no command given''
                  else ErrorString (''unknown command '' @ os_Quote os (join_blanks args))) w1)
        else if args ! 1 = ''publish'' then Some (runPublish os (te_io te) (te_env te) (te_rand te) (te_ord te) (drop 2 args) w)
        else if args ! 1 = ''consume'' then map_option (apfst Return) (runConsume os (te_ord te) (te_client te) (drop 2 args) w)
        else if args ! 1 = ''mark'' then Some (apfst Return (runMark os (te_mord te) (te_client te) (drop 2 args) w))
        else if args ! 1 = ''events'' then map_option (apfst Return) (runEvents os (te_compile te) (te_ord te) (te_client te) (drop 2 args) w)
        else Some (fails (ErrorString (''unknown kafka subcommand '' @ os_Quote os (args ! 1))) (usage os w)))"

text \<open>The exit status of the process; a panic ends it in the runtime.\<close>

definition agentctl_main :: "('c, 'rd, 'w) tool_env \<Rightarrow> string list \<Rightarrow> 'w \<Rightarrow> (int outcome \<times> 'w) option" where
  "agentctl_main te args w =
    (case agentctl_run te args w of
      None \<Rightarrow> None
    | Some (Panic p, w1) \<Rightarrow> Some (Panic p, w1)
    | Some (Return (Exits n), w1) \<Rightarrow> Some (Return n, w1)
    | Some (Return (Returns None), w1) \<Rightarrow> Some (Return 0, w1)
    | Some (Return (Returns (Some err)), w1) \<Rightarrow>
        Some (Return 1, os_Stderr (te_host te) (''agentctl: '' @ error_text err @ newline) w1))"


subsection \<open>A mark is read back\<close>

definition indented :: "(string \<times> int) list \<Rightarrow> nat list" where
  "indented ms = indent_members (map (\<lambda>m. (fst m, json_int (snd m))) ms)"

definition offset_member :: "string \<times> int \<Rightarrow> nat list \<times> json" where
  "offset_member m = (runes (bytes (fst m)), JNum (json_int (snd m)))"

lemma skip_blank [simp]: "skip_ws (10 # s) = skip_ws s" "skip_ws (32 # s) = skip_ws s"
  by (simp_all add: skip_ws_def is_ws_def)

lemma parse_value_blank: "parse_value f d (32 # s) = parse_value f d s"
  by (cases f) simp_all

lemma parse_members_blank: "parse_members f d (10 # s) = parse_members f d s" "parse_members f d (32 # s) = parse_members f d s"
  by (cases f; simp)+

lemma parse_offset_next:
  "parse_members (Suc (Suc f)) d (json_quote k @ 58 # 32 # json_int i @ 44 # t) =
    map_option (apfst (Cons (offset_member (k, i)))) (parse_members (Suc f) d t)"
proof -
  obtain u where u: "json_quote k @ 58 # 32 # json_int i @ 44 # t = 34 # u"
    "scan_string u = Some (runes (bytes k), 58 # 32 # json_int i @ 44 # t)"
    using json_quote_front by metis
  have p: "parse_value (Suc f) d (32 # json_int i @ 44 # t) = Some (JNum (json_int i), 44 # t)"
    unfolding parse_value_blank by (rule parse_int) (simp_all add: is_dig_def)
  show ?thesis
    unfolding u(1)
    by (subst parse_members.simps(2))
       (simp add: u(2) p offset_member_def expect_def skip_ws_def is_ws_def del: parse_value.simps parse_members.simps scan_string.simps)
qed

lemma parse_offset_last:
  "parse_members (Suc (Suc f)) d (json_quote k @ 58 # 32 # json_int i @ 10 # 125 # t) =
    Some ([offset_member (k, i)], t)"
proof -
  obtain u where u: "json_quote k @ 58 # 32 # json_int i @ 10 # 125 # t = 34 # u"
    "scan_string u = Some (runes (bytes k), 58 # 32 # json_int i @ 10 # 125 # t)"
    using json_quote_front by metis
  have p: "parse_value (Suc f) d (32 # json_int i @ 10 # 125 # t) = Some (JNum (json_int i), 10 # 125 # t)"
    unfolding parse_value_blank by (rule parse_int) (simp_all add: is_dig_def)
  show ?thesis
    unfolding u(1)
    by (subst parse_members.simps(2))
       (simp add: u(2) p offset_member_def expect_def skip_ws_def is_ws_def del: parse_value.simps parse_members.simps scan_string.simps)
qed

lemma parse_indented:
  "ms \<noteq> [] \<Longrightarrow> length (indented ms) < f \<Longrightarrow>
    parse_members f d (indented ms @ 10 # 125 # t) = Some (map offset_member ms, t)"
proof (induction ms arbitrary: f)
  case (Cons m ms)
  obtain g where g: "f = Suc (Suc g)"
    using Cons.prems(2) by (cases f; cases "f - 1"; cases ms) (auto simp: indented_def)
  show ?case
  proof (cases ms)
    case Nil
    have e: "indented (m # ms) @ 10 # 125 # t = 32 # 32 # json_quote (fst m) @ 58 # 32 # json_int (snd m) @ 10 # 125 # t"
      using Nil by (simp add: indented_def)
    show ?thesis
      unfolding e parse_members_blank g parse_offset_last using Nil by simp
  next
    case (Cons n ns)
    have e: "indented (m # ms) @ 10 # 125 # t =
        32 # 32 # json_quote (fst m) @ 58 # 32 # json_int (snd m) @ 44 # 10 # indented ms @ 10 # 125 # t"
      using Cons by (simp add: indented_def)
    have "length (indented ms) < Suc g" using Cons.prems(2) g Cons by (simp add: indented_def)
    with Cons.IH [of "Suc g"] Cons have IH: "parse_members (Suc g) d (indented ms @ 10 # 125 # t) = Some (map offset_member ms, t)"
      by simp
    show ?thesis
      unfolding e parse_members_blank g parse_offset_next IH by simp
  qed
qed simp

lemma read_offset_members:
  assumes "\<forall>m \<in> set ms. valid_utf8 (fst m) \<and> int64_range (snd m)"
  shows "read_offsets (map offset_member ms) f = (fold (\<lambda>m f. f(fst m \<mapsto> snd m)) ms f, False)"
  using assms by (induction ms arbitrary: f) (auto simp: offset_member_def read_int_json valid_utf8_def)

lemma fold_updates: "fold (\<lambda>k f. f(k \<mapsto> g k)) ks f = (\<lambda>k. if k \<in> set ks then Some (g k) else f k)"
  by (induction ks arbitrary: f) (auto simp: fun_eq_iff)

lemma byte_list_indented: "byte_list (indented ms)"
  unfolding indented_def by (induction ms rule: induct_list012) simp_all

text \<open>A mark that the tool wrote is the mark it reads. Whatever the order in which the map was ranged over, the text
  that \<open>mark\<close> writes, with the newline it adds, is decoded by \<open>events\<close> to the same offsets.\<close>

theorem mark_round_trip:
  assumes "enumerates keys m" and "\<forall>k o1. m k = Some o1 \<longrightarrow> valid_utf8 k \<and> int64_range o1"
  shows "read_mark (mark_text keys m @ newline) = Inr m"
proof -
  define ks where "ks = sort_Slice string_less keys"
  have ks: "set ks = dom m" using assms(1) by (simp add: ks_def enumerates_def)
  define ms where "ms = map (\<lambda>k. (k, the (m k))) ks"
  have ok: "\<forall>x \<in> set ms. valid_utf8 (fst x) \<and> int64_range (snd x)"
    using assms(2) ks by (auto simp: ms_def)
  have "fold (\<lambda>x f. f(fst x \<mapsto> snd x)) ms f = fold (\<lambda>k f. f(k \<mapsto> the (m k))) ks f" for f :: offsetMark
    by (simp add: ms_def fold_map o_def)
  then have all: "fold (\<lambda>x f. f(fst x \<mapsto> snd x)) ms Map.empty = m"
    using ks by (auto simp: fold_updates fun_eq_iff domIff)
  show ?thesis
  proof (cases "keys = []")
    case True
    then have "m = Map.empty" using assms(1) by (auto simp: enumerates_def)
    moreover have "json_parse (bytes (mark_text keys m @ newline)) = Some (JObj [])"
      unfolding True by code_simp
    ultimately show ?thesis by (simp add: read_mark_def)
  next
    case False
    then have ne: "ms \<noteq> []" by (metis ks_def length_0_conv length_map length_sort_Slice ms_def)
    define raw where "raw = 123 # 10 # indented ms @ [10, 125, 10]"
    have t: "bytes (mark_text keys m @ newline) = raw"
    proof -
      have "mark_text keys m = of_bytes (123 # 10 # indented ms @ [10, 125])"
        using False by (simp add: mark_text_def indented_def ms_def ks_def o_def)
      then have "bytes (mark_text keys m @ newline) = (123 # 10 # indented ms @ [10, 125]) @ bytes newline"
        using bytes_of_byte_list [of "123 # 10 # indented ms @ [10, 125]"] byte_list_indented by (simp add: bytes_def)
      then show ?thesis by (simp add: raw_def newline_def bytes_def)
    qed
    have m: "parse_members f d (10 # indented ms @ [10, 125, 10]) = Some (map offset_member ms, [10])"
      if "length (indented ms) < f" for f d
      unfolding parse_members_blank using parse_indented [OF ne that, of d "[10]"] by simp
    obtain u where "indented ms = 32 # 32 # 34 # u"
      using ne by (cases ms; cases "tl ms") (auto simp: indented_def json_quote_def)
    then have ex: "expect 125 (skip_ws (10 # indented ms @ [10, 125, 10])) = None"
      by (simp add: skip_ws_def is_ws_def expect_def)
    have "parse_value (Suc (2 * length raw)) max_depth raw = Some (JObj (map offset_member ms), [10])"
      using m [of "2 * length raw" "max_depth - 1"] ex
      by (simp add: raw_def max_depth_def skip_ws_def [of "123 # _"] is_ws_def del: parse_members.simps skip_blank)
    then have "json_parse raw = Some (JObj (map offset_member ms))"
      by (simp add: json_parse_def skip_ws_def is_ws_def del: parse_value.simps)
    then show ?thesis
      unfolding read_mark_def t by (simp add: read_offset_members [OF ok] all)
  qed
qed

theorem mark_round_trip_witness:
  "read_mark (mark_text [''b/0'', ''a/1''] [''a/1'' \<mapsto> 12, ''b/0'' \<mapsto> 3] @ newline) = Inr [''a/1'' \<mapsto> 12, ''b/0'' \<mapsto> 3]"
proof (rule mark_round_trip)
  show "enumerates [''b/0'', ''a/1''] [''a/1'' \<mapsto> (12 :: int), ''b/0'' \<mapsto> 3]" by (auto simp: enumerates_def)
  show "\<forall>k o1. [''a/1'' \<mapsto> 12, ''b/0'' \<mapsto> 3] k = Some o1 \<longrightarrow> valid_utf8 k \<and> int64_range o1"
    by (auto simp: int64_range_def valid_utf8_def bytes_def runes_ascii encode_runes_ascii split: if_splits)
qed

subsection \<open>What a range reads\<close>

text \<open>
  What is relied on of the client for one partition: a connection to the leader has a position; the broker keeps a log
  whose messages have consecutive offsets from \<open>base\<close>; the bounds are those of the kept; reading at a position inside
  the kept gives the message there and moves on. \<open>seen\<close> is what the reader's caller has been given, which only the caller adds to.
\<close>

definition partition_log ::
  "('c, 'rd, 'w) KafkaClient \<Rightarrow> string \<Rightarrow> string \<Rightarrow> int \<Rightarrow> 'c \<Rightarrow> int \<Rightarrow> KafkaMessage list \<Rightarrow> ('w \<Rightarrow> bool) \<Rightarrow> ('w \<Rightarrow> int) \<Rightarrow>
    ('w \<Rightarrow> KafkaMessage list) \<Rightarrow> bool" where
  "partition_log kc broker topic part conn base kept good pos seen \<longleftrightarrow>
    (\<forall>i < length kept. km_Offset (kept ! i) = base + int i) \<and> 0 \<le> base \<and> base + int (length kept) < 2 ^ 63 \<and>
    (\<forall>w. good w \<longrightarrow> (\<exists>w'. kc_DialLeader kc broker topic part w = (Inr conn, w') \<and> good w' \<and> seen w' = seen w)) \<and>
    (\<forall>w. good w \<longrightarrow> (\<exists>w'. kc_ReadOffsets kc conn w = (Inr (base, base + int (length kept)), w') \<and> good w' \<and> seen w' = seen w)) \<and>
    (\<forall>w p. good w \<longrightarrow> (\<exists>n w'. kc_Seek kc conn p w = (Inr n, w') \<and> good w' \<and> pos w' = p \<and> seen w' = seen w)) \<and>
    (\<forall>w i. good w \<longrightarrow> i < length kept \<longrightarrow> pos w = base + int i \<longrightarrow>
       (\<exists>w'. kc_ReadMessage kc conn w = (Inr (kept ! i), w') \<and> good w' \<and> pos w' = pos w + 1 \<and> seen w' = seen w)) \<and>
    (\<forall>w. good w \<longrightarrow> good (snd (kc_Close kc conn w)) \<and> seen (snd (kc_Close kc conn w)) = seen w)"

text \<open>A callback that takes every message it is given.\<close>

definition takes_all :: "('w \<Rightarrow> bool) \<Rightarrow> ('w \<Rightarrow> int) \<Rightarrow> ('w \<Rightarrow> KafkaMessage list) \<Rightarrow> (KafkaMessage \<Rightarrow> 'w \<Rightarrow> gerr option \<times> 'w) \<Rightarrow> bool" where
  "takes_all good pos seen fn \<longleftrightarrow>
    (\<forall>m w. good w \<longrightarrow> (\<exists>w'. fn m w = (None, w') \<and> good w' \<and> pos w' = pos w \<and> seen w' = seen w @ [m]))"

lemma partition_log_read:
  assumes "partition_log kc broker topic part conn base kept good pos seen" "good w" "i < length kept" "pos w = base + int i"
  shows "\<exists>w'. kc_ReadMessage kc conn w = (Inr (kept ! i), w') \<and> good w' \<and> pos w' = pos w + 1 \<and> seen w' = seen w"
    "km_Offset (kept ! i) = base + int i" "wrap64 (km_Offset (kept ! i) + 1) = base + int i + 1"
proof -
  have "\<forall>w i. good w \<longrightarrow> i < length kept \<longrightarrow> pos w = base + int i \<longrightarrow>
       (\<exists>w'. kc_ReadMessage kc conn w = (Inr (kept ! i), w') \<and> good w' \<and> pos w' = pos w + 1 \<and> seen w' = seen w)"
    using assms(1) unfolding partition_log_def by (elim conjE)
  with assms(2-4) show "\<exists>w'. kc_ReadMessage kc conn w = (Inr (kept ! i), w') \<and> good w' \<and> pos w' = pos w + 1 \<and> seen w' = seen w" by blast
  have o: "\<forall>i < length kept. km_Offset (kept ! i) = base + int i" and b: "0 \<le> base" "base + int (length kept) < 2 ^ 63"
    using assms(1) unfolding partition_log_def by blast+
  with assms(3) show k: "km_Offset (kept ! i) = base + int i" by blast
  show "wrap64 (km_Offset (kept ! i) + 1) = base + int i + 1"
    using b assms(3) unfolding k by (simp add: wrap64_id)
qed

lemma read_loop_reads:
  assumes s: "partition_log kc broker topic part conn base kept good pos seen" and t: "takes_all good pos seen fn"
  shows "good w \<Longrightarrow> i < length kept \<Longrightarrow> pos w = base + int i \<Longrightarrow>
    \<exists>w'. read_loop kc conn topic part (base + int (length kept)) fn w = Some (None, w') \<and> good w' \<and> seen w' = seen w @ drop i kept"
proof (induction "length kept - i" arbitrary: i w)
  case (Suc n)
  note r = partition_log_read [OF s Suc.prems]
  obtain w1 where w1: "kc_ReadMessage kc conn w = (Inr (kept ! i), w1)" "good w1" "pos w1 = base + int i + 1" "seen w1 = seen w"
    using r(1) Suc.prems(3) by auto
  obtain w2 where w2: "fn (kept ! i) w1 = (None, w2)" "good w2" "pos w2 = base + int i + 1" "seen w2 = seen w @ [kept ! i]"
    using t w1 unfolding takes_all_def by metis
  have d: "drop i kept = kept ! i # drop (Suc i) kept" using Suc.prems(2) by (simp add: Cons_nth_drop_Suc)
  show ?case
  proof (cases "Suc i < length kept")
    case True
    have "n = length kept - Suc i" using Suc.hyps(2) by simp
    from Suc.hyps(1) [OF this w2(2) True] w2(3)
    obtain w' where "read_loop kc conn topic part (base + int (length kept)) fn w2 = Some (None, w')" "good w'"
        "seen w' = seen w2 @ drop (Suc i) kept"
      by auto
    then show ?thesis
      using True d w2 by (subst read_loop.simps) (simp add: w1(1) r(3))
  next
    case False
    then have "drop (Suc i) kept = []" by simp
    then show ?thesis
      using False d w2 by (subst read_loop.simps) (simp add: w1(1) r(3))
  qed
qed simp

lemma partition_log_calls:
  assumes "partition_log kc broker topic part conn base kept good pos seen" "good w"
  shows "\<exists>w'. kc_DialLeader kc broker topic part w = (Inr conn, w') \<and> good w' \<and> seen w' = seen w"
    "\<exists>w'. kc_ReadOffsets kc conn w = (Inr (base, base + int (length kept)), w') \<and> good w' \<and> seen w' = seen w"
    "\<exists>n w'. kc_Seek kc conn p w = (Inr n, w') \<and> good w' \<and> pos w' = p \<and> seen w' = seen w"
    "\<exists>err w'. kc_Close kc conn w = (err, w') \<and> good w' \<and> seen w' = seen w"
  using assms unfolding partition_log_def by (metis prod.collapse)+

text \<open>Property C40: the tap reads exactly what was produced after the mark. On a partition whose log has consecutive offsets, and
  with a callback that takes what it is given, \<open>readRange\<close> from an offset returns nil, after giving the callback the messages from that offset
  to the end of the kept, each once and in order; from an offset before the kept, all of it, and from the end or after it, nothing.\<close>

theorem tap_reads_exactly_the_range:
  assumes "partition_log kc (brokers ! 0) topic part conn base kept good pos seen" and "takes_all good pos seen fn" and "good w"
  shows "\<exists>w'. readRange kc brokers topic part from fn w = Some (None, w') \<and> good w' \<and>
    seen w' = seen w @ drop (nat (from - base)) kept"
proof -
  note call = partition_log_calls [OF assms(1)]
  obtain w1 where w1: "kc_DialLeader kc (brokers ! 0) topic part w = (Inr conn, w1)" "good w1" "seen w1 = seen w"
    using call(1) [OF assms(3)] by blast
  obtain w2 where w2: "kc_ReadOffsets kc conn w1 = (Inr (base, base + int (length kept)), w2)" "good w2" "seen w2 = seen w"
    using call(2) [OF w1(2)] w1(3) by auto
  obtain c w3 where w3: "kc_Close kc conn w2 = (c, w3)" "good w3" "seen w3 = seen w"
    using call(4) [OF w2(2)] w2(3) by auto
  have bounds: "partitionBounds kc brokers topic part w = (Inr (base, base + int (length kept)), w3)"
    by (simp add: partitionBounds_def w1(1) w2(1) w3(1))
  define start where "start = (if from < base then base else from)"
  show ?thesis
  proof (cases "start \<ge> base + int (length kept)")
    case True
    then have "drop (nat (from - base)) kept = []" by (auto simp: start_def split: if_splits)
    then show ?thesis using True w3 by (simp add: readRange_def bounds start_def Let_def)
  next
    case False
    define i where "i = nat (start - base)"
    have i: "start = base + int i" "i < length kept" "nat (from - base) = i"
      using False by (auto simp: i_def start_def split: if_splits)
    obtain w4 where w4: "kc_DialLeader kc (brokers ! 0) topic part w3 = (Inr conn, w4)" "good w4" "seen w4 = seen w"
      using call(1) [OF w3(2)] w3(3) by auto
    obtain n w5 where w5: "kc_Seek kc conn start w4 = (Inr n, w5)" "good w5" "pos w5 = base + int i" "seen w5 = seen w"
      using call(3) [OF w4(2), of start] w4(3) i(1) by auto
    obtain w6 where w6: "read_loop kc conn topic part (base + int (length kept)) fn w5 = Some (None, w6)" "good w6"
        "seen w6 = seen w @ drop i kept"
      using read_loop_reads [OF assms(1,2) w5(2) i(2) w5(3)] w5(4) by auto
    obtain c' w7 where w7: "kc_Close kc conn w6 = (c', w7)" "good w7" "seen w7 = seen w6"
      using call(4) [OF w6(2)] by auto
    have "readRange kc brokers topic part from fn w = Some (None, w7)"
      using False by (simp add: readRange_def bounds start_def [symmetric] Let_def w4(1) w5(1) w6(1) w7(1))
    then show ?thesis using w7 w6(3) i(3) by simp
  qed
qed

text \<open>A partition whose world is the position of the connection and what was given to the callback; \<open>fin\<close> is the end offset.\<close>

definition tap_message :: "int \<Rightarrow> KafkaMessage" where
  "tap_message i = \<lparr>km_Topic = ''t'', km_Partition = 0, km_Offset = i, km_Key = [], km_Value = [], km_Headers = []\<rparr>"

definition demo_tap :: "int \<Rightarrow> KafkaMessage list \<Rightarrow> int \<Rightarrow> (unit, unit, int \<times> KafkaMessage list) KafkaClient" where
  "demo_tap base kept fin =
    \<lparr>kc_Dial = \<lambda>_ w. (Inr (), w), kc_DialLeader = \<lambda>_ _ _ w. (Inr (), w), kc_ReadPartitions = \<lambda>_ w. (Inr [], w),
     kc_ReadOffsets = \<lambda>_ w. (Inr (base, fin), w), kc_Seek = \<lambda>_ p w. (Inr p, (p, snd w)),
     kc_ReadMessage = \<lambda>_ w. (case find (\<lambda>m. fst w \<le> km_Offset m) kept of
         None \<Rightarrow> (Inl (ErrorString ''i/o timeout''), w)
       | Some m \<Rightarrow> (Inr m, (km_Offset m + 1, snd w))),
     kc_Close = \<lambda>_ w. (None, w), kc_NewReader = \<lambda>_ w. ((), w), kc_FetchMessage = \<lambda>_ w. (Inl DeadlineExceeded, w),
     kc_CloseReader = \<lambda>_ w. (None, w), kc_FirstOffset = -2, kc_LastOffset = -1\<rparr>"

definition take_note :: "KafkaMessage \<Rightarrow> int \<times> KafkaMessage list \<Rightarrow> gerr option \<times> int \<times> KafkaMessage list" where
  "take_note m w = (None, (fst w, snd w @ [m]))"

theorem tap_reads_exactly_the_range_witness:
  "\<exists>p. readRange (demo_tap 5 [tap_message 5, tap_message 6] 7) [''b''] ''t'' 0 6 take_note (0, []) = Some (None, (p, [tap_message 6]))"
proof -
  have p: "partition_log (demo_tap 5 [tap_message 5, tap_message 6] 7) ([''b''] ! 0) ''t'' 0 () 5 [tap_message 5, tap_message 6]
      (\<lambda>_. True) fst snd"
    by (auto simp: partition_log_def demo_tap_def tap_message_def less_Suc_eq)
  have t: "takes_all (\<lambda>_. True) fst snd take_note" by (simp add: takes_all_def take_note_def)
  obtain w' where "readRange (demo_tap 5 [tap_message 5, tap_message 6] 7) [''b''] ''t'' 0 6 take_note (0, []) = Some (None, w')"
      "snd w' = drop (nat (6 - 5)) [tap_message 5, tap_message 6]"
    using tap_reads_exactly_the_range [OF p t, of 6 "(0, [])"] by auto
  then show ?thesis by (cases w') simp
qed

text \<open>The tap fails on a log that ends in a gap. When the last offset before the end holds no message for a reader, as
  after a transaction's control record, every message is printed and the command then waits for one more, which ends in an error.\<close>

theorem tap_fails_on_a_gap_at_the_end:
  "readRange (demo_tap 5 [tap_message 5] 7) [''b''] ''t'' 0 0 take_note (0, []) =
    Some (Some (WrapError ''read t/0: '' (ErrorString ''i/o timeout'')), (6, [tap_message 5]))"
proof -
  let ?kc = "demo_tap 5 [tap_message 5] 7"
  have k: "markKey ''t'' 0 = ''t/0''" by code_simp
  have "read_loop ?kc () ''t'' 0 7 take_note (6, [tap_message 5]) =
      Some (Some (WrapError ''read t/0: '' (ErrorString ''i/o timeout'')), (6, [tap_message 5]))"
    by (subst read_loop.simps) (simp add: demo_tap_def tap_message_def k)
  moreover have "read_loop ?kc () ''t'' 0 7 take_note (5, []) = read_loop ?kc () ''t'' 0 7 take_note (6, [tap_message 5])"
    by (subst read_loop.simps) (simp add: demo_tap_def tap_message_def take_note_def wrap64_id)
  ultimately show ?thesis
    by (simp add: readRange_def partitionBounds_def demo_tap_def Let_def)
qed

end
