(* ===== verification/Gateway.thy ===== *)
theory Gateway
  imports Processes GoFlags
begin

text \<open>
  The REST side of the services: the transcoding handlers generated from the proto files
  (\<open>api/proto/customer/v1/customer.pb.gw.go\<close>, \<open>api/proto/order/v1/order.pb.gw.go\<close>), and the routes of the HTTP
  server that \<open>Build\<close> mounts them on (\<open>internal/bootstrap/application.go\<close>). The grpc-gateway runtime is the parameter
  \<open>GatewayRuntime\<close>: its marshaler, its matching of patterns, what it does to a context, and how it writes
  an answer. The handlers exist twice, over the server in the process, which \<open>Build\<close> uses, and over a client. The messages of the services are one union, as \<open>proto.Message\<close> is.
\<close>

subsection \<open>The runtime\<close>

record HttpRequest = Request +
  hr_RawQuery :: string
  hr_Body :: string

type_synonym path_params = "string \<rightharpoonup> string"
type_synonym form = "string \<rightharpoonup> string list"

datatype request_message =
    PbCreate CreateCustomerRequest | PbGet GetCustomerRequest | PbList ListCustomersRequest
  | PbChange ChangeCustomerEmailRequest | PbPlace PlaceOrderRequest

datatype 'ts response_message =
    RespCreated CreateCustomerResponse | RespCustomer "'ts ProtoCustomer" | RespList "'ts ListCustomersResponse"
  | RespEmpty | RespPlaced PlaceOrderResponse

definition io_EOF :: gerr where
  "io_EOF = ErrorString ''EOF''"

type_synonym metadata_MD = "string \<rightharpoonup> string list"

record ServerMetadata =
  md_Header :: metadata_MD
  md_Trailer :: metadata_MD

definition no_metadata :: ServerMetadata where
  "no_metadata = \<lparr>md_Header = Map.empty, md_Trailer = Map.empty\<rparr>"

text \<open>
  A pattern is given to the library as its opcodes and its pool of strings. \<open>gw_Decode\<close> fills a message from a body and may
  fail after it has filled a part. \<open>gw_NewStream\<close> opens the stream that collects the metadata an in-process call sets.
  \<open>gw_Quote\<close> is \<open>strconv.Quote\<close>; an answer is written with the metadata of its call.
\<close>

record gw_pattern =
  pat_ops :: "int list"
  pat_pool :: "string list"

record ('ts, 'x) GatewayRuntime =
  gw_Decode :: "HttpRequest \<Rightarrow> request_message \<Rightarrow> gerr option \<times> request_message"
  gw_String :: "string \<Rightarrow> string result"
  gw_PopulateQuery :: "form \<Rightarrow> request_message \<Rightarrow> gerr option \<times> request_message"
  gw_Quote :: "string \<Rightarrow> string"
  gw_AnnotateIncoming :: "string \<Rightarrow> string \<Rightarrow> HttpRequest \<Rightarrow> gerr option"
  gw_Annotate :: "string \<Rightarrow> string \<Rightarrow> HttpRequest \<Rightarrow> gerr option"
  gw_NewStream :: "'x \<Rightarrow> 'x"
  gw_StreamMetadata :: "'x \<Rightarrow> ServerMetadata"
  gw_HTTPError :: "ServerMetadata \<Rightarrow> writer \<Rightarrow> HttpRequest \<Rightarrow> gerr \<Rightarrow> (unit, Exchange \<times> 'x) action"
  gw_Forward :: "ServerMetadata \<Rightarrow> writer \<Rightarrow> HttpRequest \<Rightarrow> 'ts response_message \<Rightarrow> (unit, Exchange \<times> 'x) action"

text \<open>\<open>status.Errorf(codes.InvalidArgument, ...)\<close>.\<close>

definition invalid_argument :: "string \<Rightarrow> gerr" where
  "invalid_argument msg = StatusError InvalidArgument msg"

subsection \<open>Query strings\<close>

text \<open>
  \<open>url.QueryUnescape\<close> and \<open>ParseForm\<close> of a request without a form body. A pair that does not decode is left out; the error
  is the first of the escapes, or the last of the semicolons.
\<close>

definition unhex :: "char \<Rightarrow> nat option" where
  "unhex c = hex_value (lower_byte c)"

definition escape_error :: "('ts, 'x) GatewayRuntime \<Rightarrow> string \<Rightarrow> gerr" where
  "escape_error rt s = ErrorString (''invalid URL escape '' @ gw_Quote rt (take 3 s))"

fun QueryUnescape :: "('ts, 'x) GatewayRuntime \<Rightarrow> string \<Rightarrow> string result" where
  "QueryUnescape rt [] = Inr []"
| "QueryUnescape rt (c # cs) =
    (if c = CHR ''%'' then
       (case cs of
          a # b # rest \<Rightarrow>
            (case (unhex a, unhex b) of
               (Some x, Some y) \<Rightarrow> map_sum id (Cons (char_of (x * 16 + y))) (QueryUnescape rt rest)
             | _ \<Rightarrow> Inl (escape_error rt (c # cs)))
        | _ \<Rightarrow> Inl (escape_error rt (c # cs)))
     else map_sum id (Cons (if c = CHR ''+'' then CHR '' '' else c)) (QueryUnescape rt cs))"

definition query_pair :: "('ts, 'x) GatewayRuntime \<Rightarrow> string \<Rightarrow> (string \<times> string) result" where
  "query_pair rt kv =
    (let i = IndexByte kv CHR ''=''; k = (if 0 \<le> i then take (nat i) kv else kv); v = (if 0 \<le> i then drop (nat i + 1) kv else [])
     in case QueryUnescape rt k of
          Inl e \<Rightarrow> Inl e
        | Inr k' \<Rightarrow> (case QueryUnescape rt v of Inl e \<Rightarrow> Inl e | Inr v' \<Rightarrow> Inr (k', v')))"

fun parse_pairs :: "('ts, 'x) GatewayRuntime \<Rightarrow> string list \<Rightarrow> form \<Rightarrow> gerr option \<Rightarrow> gerr option \<times> form" where
  "parse_pairs rt [] f err = (err, f)"
| "parse_pairs rt (kv # kvs) f err =
    (if CHR '';'' \<in> set kv then parse_pairs rt kvs f (Some (ErrorString ''invalid semicolon separator in query''))
     else if kv = [] then parse_pairs rt kvs f err
     else case query_pair rt kv of
       Inl e \<Rightarrow> parse_pairs rt kvs f (case err of None \<Rightarrow> Some e | Some e0 \<Rightarrow> Some e0)
     | Inr (k, v) \<Rightarrow> parse_pairs rt kvs (f(k \<mapsto> (case f k of None \<Rightarrow> [v] | Some vs \<Rightarrow> vs @ [v]))) err)"

definition ParseForm :: "('ts, 'x) GatewayRuntime \<Rightarrow> HttpRequest \<Rightarrow> gerr option \<times> form" where
  "ParseForm rt r = parse_pairs rt (SplitByte (hr_RawQuery r) CHR ''&'') Map.empty None"

subsection \<open>Requests become messages\<close>

text \<open>The parts that the generated functions are made of: the body, and a parameter of the path.\<close>

definition decode_body :: "('ts, 'x) GatewayRuntime \<Rightarrow> HttpRequest \<Rightarrow> request_message \<Rightarrow> request_message result" where
  "decode_body rt req zero =
    (case gw_Decode rt req zero of
      (Some err, m) \<Rightarrow> if errors_Is err io_EOF then Inr m else Inl (invalid_argument (error_text err))
    | (None, m) \<Rightarrow> Inr m)"

definition path_param :: "('ts, 'x) GatewayRuntime \<Rightarrow> path_params \<Rightarrow> string \<Rightarrow> string result" where
  "path_param rt params n =
    (case params n of
      None \<Rightarrow> Inl (invalid_argument (''missing parameter '' @ n))
    | Some val \<Rightarrow>
        (case gw_String rt val of
          Inl err \<Rightarrow> Inl (invalid_argument (''type mismatch, parameter: '' @ n @ '', error: '' @ error_text err))
        | Inr v \<Rightarrow> Inr v))"

text \<open>The message of each call; the constructors a decoder cannot return are those of other messages.\<close>

definition build_CreateCustomer :: "('ts, 'x) GatewayRuntime \<Rightarrow> HttpRequest \<Rightarrow> path_params \<Rightarrow> CreateCustomerRequest result" where
  "build_CreateCustomer rt req params =
    (case decode_body rt req (PbCreate \<lparr>creq_Name = [], creq_Email = []\<rparr>) of
      Inl err \<Rightarrow> Inl err
    | Inr (PbCreate m) \<Rightarrow> Inr m
    | Inr _ \<Rightarrow> Inl scan_error)"

definition build_GetCustomer :: "('ts, 'x) GatewayRuntime \<Rightarrow> HttpRequest \<Rightarrow> path_params \<Rightarrow> GetCustomerRequest result" where
  "build_GetCustomer rt req params =
    (case path_param rt params ''id'' of Inl err \<Rightarrow> Inl err | Inr v \<Rightarrow> Inr \<lparr>greq_Id = v\<rparr>)"

definition build_ListCustomers :: "('ts, 'x) GatewayRuntime \<Rightarrow> HttpRequest \<Rightarrow> path_params \<Rightarrow> ListCustomersRequest result" where
  "build_ListCustomers rt req params =
    (case ParseForm rt req of
      (Some err, f) \<Rightarrow> Inl (invalid_argument (error_text err))
    | (None, f) \<Rightarrow>
        (case gw_PopulateQuery rt f (PbList \<lparr>lreq_Limit = 0, lreq_Offset = 0\<rparr>) of
          (Some err, m) \<Rightarrow> Inl (invalid_argument (error_text err))
        | (None, PbList m) \<Rightarrow> Inr m
        | (None, _) \<Rightarrow> Inl scan_error))"

definition build_ChangeCustomerEmail :: "('ts, 'x) GatewayRuntime \<Rightarrow> HttpRequest \<Rightarrow> path_params \<Rightarrow> ChangeCustomerEmailRequest result" where
  "build_ChangeCustomerEmail rt req params =
    (case decode_body rt req (PbChange \<lparr>ereq_Id = [], ereq_Email = []\<rparr>) of
      Inl err \<Rightarrow> Inl err
    | Inr (PbChange m) \<Rightarrow>
        (case path_param rt params ''id'' of Inl err \<Rightarrow> Inl err | Inr v \<Rightarrow> Inr (m\<lparr>ereq_Id := v\<rparr>))
    | Inr _ \<Rightarrow> Inl scan_error)"

definition build_PlaceOrder :: "('ts, 'x) GatewayRuntime \<Rightarrow> HttpRequest \<Rightarrow> path_params \<Rightarrow> PlaceOrderRequest result" where
  "build_PlaceOrder rt req params =
    (case decode_body rt req (PbPlace \<lparr>preq_CustomerId = []\<rparr>) of
      Inl err \<Rightarrow> Inl err
    | Inr (PbPlace m) \<Rightarrow> Inr m
    | Inr _ \<Rightarrow> Inl scan_error)"

text \<open>The call on the server in the process, and its answer as a message.\<close>

definition transcode ::
  "'m result \<Rightarrow> ('m \<Rightarrow> ('r result, 'x) action) \<Rightarrow> ('r \<Rightarrow> 'ts response_message) \<Rightarrow> ('ts response_message result, 'x) action" where
  "transcode m call wrap x =
    (case m of
      Inl err \<Rightarrow> (Return (Inl err), x)
    | Inr req \<Rightarrow>
        (case call req x of
          (Panic p, x') \<Rightarrow> (Panic p, x')
        | (Return (Inl err), x') \<Rightarrow> (Return (Inl err), x')
        | (Return (Inr r), x') \<Rightarrow> (Return (Inr (wrap r)), x')))"

text \<open>The server interfaces of the generated code.\<close>

record ('ts, 'x) CustomerServiceServer =
  css_CreateCustomer :: "CreateCustomerRequest \<Rightarrow> (CreateCustomerResponse result, 'x) action"
  css_GetCustomer :: "GetCustomerRequest \<Rightarrow> ('ts ProtoCustomer result, 'x) action"
  css_ListCustomers :: "ListCustomersRequest \<Rightarrow> ('ts ListCustomersResponse result, 'x) action"
  css_ChangeCustomerEmail :: "ChangeCustomerEmailRequest \<Rightarrow> (unit result, 'x) action"

type_synonym ('ts, 'x) local_request = "HttpRequest \<Rightarrow> path_params \<Rightarrow> ('ts response_message result, 'x) action"

definition local_request_CreateCustomer ::
  "('ts, 'x) GatewayRuntime \<Rightarrow> ('ts, 'x) CustomerServiceServer \<Rightarrow> ('ts, 'x) local_request" where
  "local_request_CreateCustomer rt server req params = transcode (build_CreateCustomer rt req params) (css_CreateCustomer server) RespCreated"

definition local_request_GetCustomer ::
  "('ts, 'x) GatewayRuntime \<Rightarrow> ('ts, 'x) CustomerServiceServer \<Rightarrow> ('ts, 'x) local_request" where
  "local_request_GetCustomer rt server req params = transcode (build_GetCustomer rt req params) (css_GetCustomer server) RespCustomer"

definition local_request_ListCustomers ::
  "('ts, 'x) GatewayRuntime \<Rightarrow> ('ts, 'x) CustomerServiceServer \<Rightarrow> ('ts, 'x) local_request" where
  "local_request_ListCustomers rt server req params = transcode (build_ListCustomers rt req params) (css_ListCustomers server) RespList"

definition local_request_ChangeCustomerEmail ::
  "('ts, 'x) GatewayRuntime \<Rightarrow> ('ts, 'x) CustomerServiceServer \<Rightarrow> ('ts, 'x) local_request" where
  "local_request_ChangeCustomerEmail rt server req params =
    transcode (build_ChangeCustomerEmail rt req params) (css_ChangeCustomerEmail server) (\<lambda>_. RespEmpty)"

definition local_request_PlaceOrder ::
  "('ts, 'x) GatewayRuntime \<Rightarrow> (PlaceOrderRequest \<Rightarrow> (PlaceOrderResponse result, 'x) action) \<Rightarrow> ('ts, 'x) local_request" where
  "local_request_PlaceOrder rt place req params = transcode (build_PlaceOrder rt req params) place RespPlaced"

subsection \<open>Handlers\<close>

type_synonym 'x gw_handler = "writer \<Rightarrow> HttpRequest \<Rightarrow> path_params \<Rightarrow> (unit, Exchange \<times> 'x) action"

text \<open>The body that every registered handler has.\<close>

definition serve_local :: "('ts, 'x) GatewayRuntime \<Rightarrow> string \<Rightarrow> string \<Rightarrow> ('ts, 'x) local_request \<Rightarrow> 'x gw_handler" where
  "serve_local rt rpc path handle w req params sx =
    (case gw_AnnotateIncoming rt rpc path req of
      Some err \<Rightarrow> gw_HTTPError rt no_metadata w req err (fst sx, gw_NewStream rt (snd sx))
    | None \<Rightarrow>
        (case handle req params (gw_NewStream rt (snd sx)) of
          (Panic p, x1) \<Rightarrow> (Panic p, (fst sx, x1))
        | (Return (Inl err), x1) \<Rightarrow> gw_HTTPError rt (gw_StreamMetadata rt x1) w req err (fst sx, x1)
        | (Return (Inr resp), x1) \<Rightarrow> gw_Forward rt (gw_StreamMetadata rt x1) w req resp (fst sx, x1)))"

record 'x gw_route =
  gr_method :: string
  gr_pattern :: gw_pattern
  gr_handler :: "'x gw_handler"

definition pattern_customers :: gw_pattern where
  "pattern_customers = \<lparr>pat_ops = [2, 0, 2, 1, 2, 2], pat_pool = [''api'', ''v1'', ''customers'']\<rparr>"

definition pattern_customer :: gw_pattern where
  "pattern_customer = \<lparr>pat_ops = [2, 0, 2, 1, 2, 2, 1, 0, 4, 1, 5, 3], pat_pool = [''api'', ''v1'', ''customers'', ''id'']\<rparr>"

definition pattern_customer_email :: gw_pattern where
  "pattern_customer_email =
    \<lparr>pat_ops = [2, 0, 2, 1, 2, 2, 1, 0, 4, 1, 5, 3, 2, 4], pat_pool = [''api'', ''v1'', ''customers'', ''id'', ''email'']\<rparr>"

definition pattern_orders :: gw_pattern where
  "pattern_orders = \<lparr>pat_ops = [2, 0, 2, 1, 2, 2], pat_pool = [''api'', ''v1'', ''orders'']\<rparr>"

definition braced :: "string \<Rightarrow> string" where
  "braced s = CHR 0x7B # s @ [CHR 0x7D]"

text \<open>The handlers in the order of their registration.\<close>

definition RegisterCustomerServiceHandlerServer ::
  "('ts, 'x) GatewayRuntime \<Rightarrow> ('ts, 'x) CustomerServiceServer \<Rightarrow> 'x gw_route list \<Rightarrow> 'x gw_route list" where
  "RegisterCustomerServiceHandlerServer rt server mux = mux @
    [\<lparr>gr_method = ''POST'', gr_pattern = pattern_customers,
      gr_handler = serve_local rt ''/customer.v1.CustomerService/CreateCustomer'' ''/api/v1/customers''
        (local_request_CreateCustomer rt server)\<rparr>,
     \<lparr>gr_method = ''GET'', gr_pattern = pattern_customer,
      gr_handler = serve_local rt ''/customer.v1.CustomerService/GetCustomer'' (''/api/v1/customers/'' @ braced ''id'')
        (local_request_GetCustomer rt server)\<rparr>,
     \<lparr>gr_method = ''GET'', gr_pattern = pattern_customers,
      gr_handler = serve_local rt ''/customer.v1.CustomerService/ListCustomers'' ''/api/v1/customers''
        (local_request_ListCustomers rt server)\<rparr>,
     \<lparr>gr_method = ''PATCH'', gr_pattern = pattern_customer_email,
      gr_handler = serve_local rt ''/customer.v1.CustomerService/ChangeCustomerEmail'' (''/api/v1/customers/'' @ braced ''id'' @ ''/email'')
        (local_request_ChangeCustomerEmail rt server)\<rparr>]"

definition RegisterOrderServiceHandlerServer ::
  "('ts, 'x) GatewayRuntime \<Rightarrow> (PlaceOrderRequest \<Rightarrow> (PlaceOrderResponse result, 'x) action) \<Rightarrow> 'x gw_route list \<Rightarrow> 'x gw_route list" where
  "RegisterOrderServiceHandlerServer rt place mux = mux @
    [\<lparr>gr_method = ''POST'', gr_pattern = pattern_orders,
      gr_handler = serve_local rt ''/order.v1.OrderService/PlaceOrder'' ''/api/v1/orders'' (local_request_PlaceOrder rt place)\<rparr>]"

subsection \<open>The same over a connection\<close>

text \<open>
  The handlers for a service behind a gRPC connection. A client answers with the metadata of its call, and the rest of the body is
  read and dropped before it. \<open>Dial\<close> is the part of the gRPC library and of the generated stubs they use: how a connection is made and
  what a call over it does.
\<close>

record ('ts, 'x) CustomerServiceClient =
  csc_CreateCustomer :: "CreateCustomerRequest \<Rightarrow> (CreateCustomerResponse result \<times> ServerMetadata, 'x) action"
  csc_GetCustomer :: "GetCustomerRequest \<Rightarrow> ('ts ProtoCustomer result \<times> ServerMetadata, 'x) action"
  csc_ListCustomers :: "ListCustomersRequest \<Rightarrow> ('ts ListCustomersResponse result \<times> ServerMetadata, 'x) action"
  csc_ChangeCustomerEmail :: "ChangeCustomerEmailRequest \<Rightarrow> (unit result \<times> ServerMetadata, 'x) action"

type_synonym 'x OrderServiceClient = "PlaceOrderRequest \<Rightarrow> (PlaceOrderResponse result \<times> ServerMetadata, 'x) action"

type_synonym ('ts, 'x) client_request =
  "HttpRequest \<Rightarrow> path_params \<Rightarrow> ('ts response_message result \<times> ServerMetadata, 'x) action"

definition transcode_client ::
  "'m result \<Rightarrow> ('m \<Rightarrow> ('r result \<times> ServerMetadata, 'x) action) \<Rightarrow> ('r \<Rightarrow> 'ts response_message) \<Rightarrow>
    ('ts response_message result \<times> ServerMetadata, 'x) action" where
  "transcode_client m call wrap x =
    (case m of
      Inl err \<Rightarrow> (Return (Inl err, no_metadata), x)
    | Inr req \<Rightarrow>
        (case call req x of
          (Panic p, x') \<Rightarrow> (Panic p, x')
        | (Return (Inl err, md), x') \<Rightarrow> (Return (Inl err, md), x')
        | (Return (Inr r, md), x') \<Rightarrow> (Return (Inr (wrap r), md), x')))"

definition request_CreateCustomer :: "('ts, 'x) GatewayRuntime \<Rightarrow> ('ts, 'x) CustomerServiceClient \<Rightarrow> ('ts, 'x) client_request" where
  "request_CreateCustomer rt client req params = transcode_client (build_CreateCustomer rt req params) (csc_CreateCustomer client) RespCreated"

definition request_GetCustomer :: "('ts, 'x) GatewayRuntime \<Rightarrow> ('ts, 'x) CustomerServiceClient \<Rightarrow> ('ts, 'x) client_request" where
  "request_GetCustomer rt client req params = transcode_client (build_GetCustomer rt req params) (csc_GetCustomer client) RespCustomer"

definition request_ListCustomers :: "('ts, 'x) GatewayRuntime \<Rightarrow> ('ts, 'x) CustomerServiceClient \<Rightarrow> ('ts, 'x) client_request" where
  "request_ListCustomers rt client req params = transcode_client (build_ListCustomers rt req params) (csc_ListCustomers client) RespList"

definition request_ChangeCustomerEmail :: "('ts, 'x) GatewayRuntime \<Rightarrow> ('ts, 'x) CustomerServiceClient \<Rightarrow> ('ts, 'x) client_request" where
  "request_ChangeCustomerEmail rt client req params = transcode_client (build_ChangeCustomerEmail rt req params) (csc_ChangeCustomerEmail client) (\<lambda>_. RespEmpty)"

definition request_PlaceOrder :: "('ts, 'x) GatewayRuntime \<Rightarrow> 'x OrderServiceClient \<Rightarrow> ('ts, 'x) client_request" where
  "request_PlaceOrder rt client req params = transcode_client (build_PlaceOrder rt req params) client RespPlaced"

definition serve_client :: "('ts, 'x) GatewayRuntime \<Rightarrow> string \<Rightarrow> string \<Rightarrow> ('ts, 'x) client_request \<Rightarrow> 'x gw_handler" where
  "serve_client rt rpc path handle w req params sx =
    (case gw_Annotate rt rpc path req of
      Some err \<Rightarrow> gw_HTTPError rt no_metadata w req err sx
    | None \<Rightarrow>
        (case handle req params (snd sx) of
          (Panic p, x1) \<Rightarrow> (Panic p, (fst sx, x1))
        | (Return (Inl err, md), x1) \<Rightarrow> gw_HTTPError rt md w req err (fst sx, x1)
        | (Return (Inr resp, md), x1) \<Rightarrow> gw_Forward rt md w req resp (fst sx, x1)))"

definition RegisterCustomerServiceHandlerClient ::
  "('ts, 'x) GatewayRuntime \<Rightarrow> ('ts, 'x) CustomerServiceClient \<Rightarrow> 'x gw_route list \<Rightarrow> 'x gw_route list" where
  "RegisterCustomerServiceHandlerClient rt client mux = mux @
    [\<lparr>gr_method = ''POST'', gr_pattern = pattern_customers,
      gr_handler = serve_client rt ''/customer.v1.CustomerService/CreateCustomer'' ''/api/v1/customers''
        (request_CreateCustomer rt client)\<rparr>,
     \<lparr>gr_method = ''GET'', gr_pattern = pattern_customer,
      gr_handler = serve_client rt ''/customer.v1.CustomerService/GetCustomer'' (''/api/v1/customers/'' @ braced ''id'')
        (request_GetCustomer rt client)\<rparr>,
     \<lparr>gr_method = ''GET'', gr_pattern = pattern_customers,
      gr_handler = serve_client rt ''/customer.v1.CustomerService/ListCustomers'' ''/api/v1/customers''
        (request_ListCustomers rt client)\<rparr>,
     \<lparr>gr_method = ''PATCH'', gr_pattern = pattern_customer_email,
      gr_handler = serve_client rt ''/customer.v1.CustomerService/ChangeCustomerEmail'' (''/api/v1/customers/'' @ braced ''id'' @ ''/email'')
        (request_ChangeCustomerEmail rt client)\<rparr>]"

definition RegisterOrderServiceHandlerClient ::
  "('ts, 'x) GatewayRuntime \<Rightarrow> 'x OrderServiceClient \<Rightarrow> 'x gw_route list \<Rightarrow> 'x gw_route list" where
  "RegisterOrderServiceHandlerClient rt client mux = mux @
    [\<lparr>gr_method = ''POST'', gr_pattern = pattern_orders,
      gr_handler = serve_client rt ''/order.v1.OrderService/PlaceOrder'' ''/api/v1/orders'' (request_PlaceOrder rt client)\<rparr>]"

record ('conn, 'ts, 'x) Dial =
  dial_NewClient :: "string \<Rightarrow> 'conn result"
  dial_Customer :: "'conn \<Rightarrow> ('ts, 'x) CustomerServiceClient"
  dial_Order :: "'conn \<Rightarrow> 'x OrderServiceClient"

definition RegisterCustomerServiceHandler ::
  "('conn, 'ts, 'x) Dial \<Rightarrow> ('ts, 'x) GatewayRuntime \<Rightarrow> 'conn \<Rightarrow> 'x gw_route list \<Rightarrow> 'x gw_route list" where
  "RegisterCustomerServiceHandler dial rt conn = RegisterCustomerServiceHandlerClient rt (dial_Customer dial conn)"

definition RegisterOrderServiceHandler ::
  "('conn, 'ts, 'x) Dial \<Rightarrow> ('ts, 'x) GatewayRuntime \<Rightarrow> 'conn \<Rightarrow> 'x gw_route list \<Rightarrow> 'x gw_route list" where
  "RegisterOrderServiceHandler dial rt conn = RegisterOrderServiceHandlerClient rt (dial_Order dial conn)"

text \<open>
  The registration itself does not fail, so a connection that was made stays open until the context is done: the last part of the
  answer is the connection that the started goroutine then closes.
\<close>

definition from_endpoint :: "(string \<Rightarrow> 'conn result) \<Rightarrow> ('conn \<Rightarrow> 'm \<Rightarrow> 'm) \<Rightarrow> string \<Rightarrow> 'm \<Rightarrow> gerr option \<times> 'm \<times> 'conn option" where
  "from_endpoint new register endpoint mux =
    (case new endpoint of
      Inl err \<Rightarrow> (Some err, mux, None)
    | Inr conn \<Rightarrow> (None, register conn mux, Some conn))"

definition RegisterCustomerServiceHandlerFromEndpoint ::
  "('conn, 'ts, 'x) Dial \<Rightarrow> ('ts, 'x) GatewayRuntime \<Rightarrow> string \<Rightarrow> 'x gw_route list \<Rightarrow> gerr option \<times> 'x gw_route list \<times> 'conn option" where
  "RegisterCustomerServiceHandlerFromEndpoint dial rt = from_endpoint (dial_NewClient dial) (RegisterCustomerServiceHandler dial rt)"

definition RegisterOrderServiceHandlerFromEndpoint ::
  "('conn, 'ts, 'x) Dial \<Rightarrow> ('ts, 'x) GatewayRuntime \<Rightarrow> string \<Rightarrow> 'x gw_route list \<Rightarrow> gerr option \<times> 'x gw_route list \<times> 'conn option" where
  "RegisterOrderServiceHandlerFromEndpoint dial rt = from_endpoint (dial_NewClient dial) (RegisterOrderServiceHandler dial rt)"

text \<open>The customer module's service behind the interface.\<close>

definition customer_service :: "('x, 'ts) CustomerServer \<Rightarrow> ('ts, 'x) CustomerServiceServer" where
  "customer_service srv =
    \<lparr>css_CreateCustomer = Server_CreateCustomer srv, css_GetCustomer = Server_GetCustomer srv,
     css_ListCustomers = Server_ListCustomers srv, css_ChangeCustomerEmail = Server_ChangeCustomerEmail srv\<rparr>"

subsection \<open>The modules' services\<close>

definition lift_service :: "('ts, 'x) CustomerServiceServer \<Rightarrow> ('ts, 's \<times> 'x) CustomerServiceServer" where
  "lift_service server =
    \<lparr>css_CreateCustomer = (\<lambda>r. beside (css_CreateCustomer server r)), css_GetCustomer = (\<lambda>r. beside (css_GetCustomer server r)),
     css_ListCustomers = (\<lambda>r. beside (css_ListCustomers server r)),
     css_ChangeCustomerEmail = (\<lambda>r. beside (css_ChangeCustomerEmail server r))\<rparr>"

text \<open>The REST routes; the order context keeps its repository beside the customers' world.\<close>

definition customer_RegisterGateway ::
  "('ts, 'x) GatewayRuntime \<Rightarrow> ('ts, 'x) CustomerServiceServer \<Rightarrow> 'x gw_route list \<Rightarrow> gerr option \<times> 'x gw_route list" where
  "customer_RegisterGateway rt server mux = (None, RegisterCustomerServiceHandlerServer rt server mux)"

definition order_RegisterGateway ::
  "('ts, 'x) GatewayRuntime \<Rightarrow> 'x OrderDeps \<Rightarrow> 'x gw_route list \<Rightarrow> gerr option \<times> 'x gw_route list" where
  "order_RegisterGateway rt d mux = (None, RegisterOrderServiceHandlerServer rt (Server_PlaceOrder d) mux)"

definition registerGateway ::
  "('ts, OrderRepository \<times> 'w) GatewayRuntime \<Rightarrow> ('w, 'ts) modules \<Rightarrow> (OrderRepository \<times> 'w) gw_route list \<Rightarrow>
    gerr option \<times> (OrderRepository \<times> 'w) gw_route list" where
  "registerGateway rt mods mux =
    (case customer_RegisterGateway rt (lift_service (customer_service (mods_customer mods))) mux of
      (Some err, mux') \<Rightarrow> (Some err, mux')
    | (None, mux') \<Rightarrow> order_RegisterGateway rt (mods_order mods) mux')"

text \<open>The gRPC services, as the methods they add to the server, each with the message its decoder makes.\<close>

type_synonym ('ts, 'x) grpc_method = "string \<times> (request_message \<Rightarrow> ('ts response_message result, 'x) action)"

definition customer_RegisterGRPC ::
  "('ts, 'x) CustomerServiceServer \<Rightarrow> ('ts, 'x) grpc_method list \<Rightarrow> ('ts, 'x) grpc_method list" where
  "customer_RegisterGRPC server s = s @
    [(''/customer.v1.CustomerService/CreateCustomer'',
      \<lambda>m. transcode (case m of PbCreate r \<Rightarrow> Inr r | _ \<Rightarrow> Inl scan_error) (css_CreateCustomer server) RespCreated),
     (''/customer.v1.CustomerService/GetCustomer'',
      \<lambda>m. transcode (case m of PbGet r \<Rightarrow> Inr r | _ \<Rightarrow> Inl scan_error) (css_GetCustomer server) RespCustomer),
     (''/customer.v1.CustomerService/ListCustomers'',
      \<lambda>m. transcode (case m of PbList r \<Rightarrow> Inr r | _ \<Rightarrow> Inl scan_error) (css_ListCustomers server) RespList),
     (''/customer.v1.CustomerService/ChangeCustomerEmail'',
      \<lambda>m. transcode (case m of PbChange r \<Rightarrow> Inr r | _ \<Rightarrow> Inl scan_error) (css_ChangeCustomerEmail server) (\<lambda>_. RespEmpty))]"

definition order_RegisterGRPC :: "'x OrderDeps \<Rightarrow> ('ts, 'x) grpc_method list \<Rightarrow> ('ts, 'x) grpc_method list" where
  "order_RegisterGRPC d s = s @
    [(''/order.v1.OrderService/PlaceOrder'',
      \<lambda>m. transcode (case m of PbPlace r \<Rightarrow> Inr r | _ \<Rightarrow> Inl scan_error) (Server_PlaceOrder d) RespPlaced)]"

definition registerGRPC :: "('w, 'ts) modules \<Rightarrow> ('ts, OrderRepository \<times> 'w) grpc_method list \<Rightarrow> ('ts, OrderRepository \<times> 'w) grpc_method list" where
  "registerGRPC mods s = order_RegisterGRPC (mods_order mods) (customer_RegisterGRPC (lift_service (customer_service (mods_customer mods))) s)"

text \<open>Mounting the REST routes never fails, and every gRPC method with a REST annotation has exactly one route.\<close>

lemma registerGateway_routes:
  "fst (registerGateway rt mods mux) = None"
  "map (\<lambda>r. (gr_method r, pat_pool (gr_pattern r))) (snd (registerGateway rt mods [])) =
    [(''POST'', [''api'', ''v1'', ''customers'']), (''GET'', [''api'', ''v1'', ''customers'', ''id'']),
     (''GET'', [''api'', ''v1'', ''customers'']), (''PATCH'', [''api'', ''v1'', ''customers'', ''id'', ''email'']),
     (''POST'', [''api'', ''v1'', ''orders''])]"
  "distinct (map (\<lambda>r. (gr_method r, gr_pattern r)) (snd (registerGateway rt mods [])))"
  by (simp_all add: registerGateway_def customer_RegisterGateway_def order_RegisterGateway_def RegisterCustomerServiceHandlerServer_def
      RegisterOrderServiceHandlerServer_def pattern_customers_def pattern_customer_def pattern_customer_email_def pattern_orders_def)

subsection \<open>The routes of the server\<close>

text \<open>
  The choice that \<open>net/http\<close>'s mux makes among the registered patterns: a method matches itself, and GET also HEAD;
  a pattern that ends in a slash matches the paths below it. A path that is not clean, or that lacks the final slash of
  a pattern, is redirected.
\<close>

datatype root_target = ToHealthz | ToReadyz | ToOpenAPI | ToDocs | ToGateway

datatype root_choice = Serve root_target | RedirectTo string | MethodNotAllowed | NoRoute

definition root_patterns :: "(string option \<times> string \<times> root_target) list" where
  "root_patterns =
    [(Some ''GET'', ''/healthz'', ToHealthz), (Some ''GET'', ''/readyz'', ToReadyz), (Some ''GET'', ''/openapi.json'', ToOpenAPI),
     (Some ''GET'', ''/docs'', ToDocs), (None, ''/api/v1/'', ToGateway)]"

definition cleanPath :: "string \<Rightarrow> string" where
  "cleanPath p =
    (if p = [] then ''/''
     else let p = (if hd p \<noteq> CHR ''/'' then CHR ''/'' # p else p); np = path_Clean p
          in if last p = CHR ''/'' \<and> np \<noteq> ''/'' then np @ ''/'' else np)"

definition method_ok :: "string option \<Rightarrow> string \<Rightarrow> bool" where
  "method_ok pm rm = (case pm of None \<Rightarrow> True | Some m \<Rightarrow> rm = m \<or> (m = ''GET'' \<and> rm = ''HEAD''))"

definition path_ok :: "string \<Rightarrow> string \<Rightarrow> bool" where
  "path_ok pat path = (if last pat = CHR ''/'' then prefix pat path else path = pat)"

definition root_route :: "string \<Rightarrow> string \<Rightarrow> root_choice" where
  "root_route rm raw =
    (let path = cleanPath raw;
         hit = find (\<lambda>(pm, pat, t). method_ok pm rm \<and> path_ok pat path) root_patterns;
         slashed = find (\<lambda>(pm, pat, t). method_ok pm rm \<and> pat = path @ ''/'') root_patterns
     in case hit of
          Some (pm, pat, t) \<Rightarrow> if path \<noteq> raw then RedirectTo path else Serve t
        | None \<Rightarrow>
            if last path \<noteq> CHR ''/'' \<and> slashed \<noteq> None then RedirectTo (path @ ''/'')
            else if path \<noteq> raw then RedirectTo path
            else if list_ex (\<lambda>(pm, pat, t). path_ok pat path) root_patterns then MethodNotAllowed else NoRoute)"

definition docsHTML :: string where
  "docsHTML = join_lines
    [''<!doctype html>'', ''<html>'', ''  <head>'', ''    <title>myapp API docs</title>'', ''    <meta charset=\"utf-8\"/>'', ''  </head>'',
     ''  <body>'', ''    <redoc spec-url=\"/openapi.json\"></redoc>'',
     ''    <script src=\"https://cdn.redoc.ly/redoc/latest/bundles/redoc.standalone.js\"></script>'', ''  </body>'', ''</html>'']"

text \<open>The documentation: \<open>spec\<close> is the embedded file.\<close>

definition serve_doc :: "string \<Rightarrow> string \<Rightarrow> 'x http_handler" where
  "serve_doc ctype body = scripted (\<lambda>r x. ([SetHeader ''Content-Type'' ctype, SendBytes body], None, x))"

text \<open>
  The handler that \<open>Build\<close> makes. The answers the mux gives itself and the dispatch of the gateway's mux over its routes, with the
  query and the body it reads from the connection, are those libraries' own.
\<close>

definition root_handler ::
  "(root_choice \<Rightarrow> 'x http_handler) \<Rightarrow> ('x gw_route list \<Rightarrow> 'x http_handler) \<Rightarrow> string \<Rightarrow> ('db, 'x) SqlDriver \<Rightarrow> 'db persistence \<Rightarrow>
    'x gw_route list \<Rightarrow> 'x http_handler" where
  "root_handler answer gw_mux spec drv p routes w r sx =
    (case root_route (rq_Method r) (rq_Path r) of
      Serve ToHealthz \<Rightarrow> healthz w r sx
    | Serve ToReadyz \<Rightarrow> readyz drv p w r sx
    | Serve ToOpenAPI \<Rightarrow> serve_doc ''application/json; charset=utf-8'' spec w r sx
    | Serve ToDocs \<Rightarrow> serve_doc ''text/html; charset=utf-8'' docsHTML w r sx
    | Serve ToGateway \<Rightarrow> gw_mux routes w r sx
    | other \<Rightarrow> answer other w r sx)"

definition api_handler ::
  "'x env \<Rightarrow> 'x entropy \<Rightarrow> Logger \<Rightarrow> (root_choice \<Rightarrow> 'x http_handler) \<Rightarrow> ('x gw_route list \<Rightarrow> 'x http_handler) \<Rightarrow> string \<Rightarrow>
    ('db, 'x) SqlDriver \<Rightarrow> 'db persistence \<Rightarrow> 'x gw_route list \<Rightarrow> 'x http_handler" where
  "api_handler env rand logger answer gw_mux spec drv p routes =
    http_stack env rand logger (root_handler answer gw_mux spec drv p routes)"

subsection \<open>The path decides whom a request is about\<close>

lemma build_ChangeCustomerEmail_id:
  "build_ChangeCustomerEmail rt req params = Inr m \<Longrightarrow> \<exists>v. params ''id'' = Some v \<and> gw_String rt v = Inr (ereq_Id m)"
  by (auto simp: build_ChangeCustomerEmail_def path_param_def split: sum.splits request_message.splits option.splits)

text \<open>Property C10: a PATCH of an email address changes no other customer than the one its path names. Whatever the body says, an
  identifier of its own included, on the default wiring the call always returns, every other customer's row is what it was, and a
  request the gateway refuses (a body that does not decode, a path without the parameter) changes nothing at all.\<close>

theorem patch_changes_only_the_customer_of_its_path:
  fixes env :: "'x env"
  assumes "rand_ok rand" and "mem_inv r" and "store_inv s" and "srv_changeEmail srv = ChangeCustomerEmail_Handle ul (memory_deps env rand ul)"
  shows "\<exists>res r' s' x'. local_request_ChangeCustomerEmail rt (customer_service srv) req params (r, s, x) = (Return res, (r', s', x')) \<and>
    mem_inv r' \<and> store_inv s' \<and>
    (\<forall>j. params ''id'' = None \<or> gw_String rt (the (params ''id'')) \<noteq> Inr j \<longrightarrow> byID r' j = byID r j) \<and>
    (case build_ChangeCustomerEmail rt req params of
       Inl err \<Rightarrow> res = Inl err \<and> r' = r \<and> s' = s \<and> x' = x
     | Inr m \<Rightarrow> gw_String rt (the (params ''id'')) = Inr (ereq_Id m))"
proof (cases "build_ChangeCustomerEmail rt req params")
  case (Inl e)
  then show ?thesis
    using assms(2,3) by (auto simp: local_request_ChangeCustomerEmail_def transcode_def)
next
  case (Inr m)
  obtain v where v: "params ''id'' = Some v" "gw_String rt v = Inr (ereq_Id m)"
    using build_ChangeCustomerEmail_id [OF Inr] by blast
  let ?cmd = "\<lparr>change_CustomerID = ereq_Id m, change_NewEmail = ereq_Email m\<rparr>"
  obtain res r' s' x' t where h: "ChangeCustomerEmail_Handle ul (memory_deps env rand ul) ?cmd (r, s, x) = (Return res, (r', s', x'))"
    and c: "case res of
      Some err \<Rightarrow> r' = r \<and> s' = s \<and>
        (errors_Is err ErrValidation \<or> err = ErrConflict \<or> mem_FindByID ul (CustomerID (change_CustomerID ?cmd)) r = Inl err) \<and>
        evolves env rand [] x x'
    | None \<Rightarrow> \<exists>e c. NewEmail ul (change_NewEmail ?cmd) = Inr e \<and>
        mem_FindByID ul (CustomerID (change_CustomerID ?cmd)) r = Inr c \<and>
        (if c_email c = e then r' = r \<and> s' = s \<and> evolves env rand [] x x'
         else c_status c \<noteq> StatusDeactivated \<and> \<not> email_taken (byID r) (Email_String e) \<and>
           byID r' = (byID r)(change_CustomerID ?cmd \<mapsto> ToSnapshot (snd (ChangeEmail e t c))) \<and>
           mem_inv r' \<and> unique_emails (byID r') \<and> store_inv s' \<and>
           (\<exists>ie. maps_to (CustomerEmailChanged (change_CustomerID ?cmd) (Email_String (c_email c)) (Email_String e) t) ie \<and>
             store_rows s' = add_rows [ie] (store_rows s) \<and> evolves env rand [ev_ID ie] x x' \<and> reads_clock env t))"
    using change_email_memory [OF assms(1-3), of ul env ?cmd x] by blast
  have frame: "mem_inv r' \<and> store_inv s' \<and> (\<forall>j. j \<noteq> ereq_Id m \<longrightarrow> byID r' j = byID r j)"
    using c assms(2,3) by (cases res) (auto split: if_splits)
  obtain res' where call: "local_request_ChangeCustomerEmail rt (customer_service srv) req params (r, s, x) = (Return res', (r', s', x'))"
    using that by (cases res) (simp_all add: local_request_ChangeCustomerEmail_def transcode_def Inr customer_service_def
        Server_ChangeCustomerEmail_def assms(4) h)
  have others: "\<forall>j. params ''id'' = None \<or> gw_String rt (the (params ''id'')) \<noteq> Inr j \<longrightarrow> byID r' j = byID r j"
  proof (intro allI impI)
    fix j assume "params ''id'' = None \<or> gw_String rt (the (params ''id'')) \<noteq> Inr j"
    then have "j \<noteq> ereq_Id m" using v by auto
    then show "byID r' j = byID r j" using frame by blast
  qed
  have path: "gw_String rt (the (params ''id'')) = Inr (ereq_Id m)" using v by simp
  show ?thesis
    unfolding Inr sum.case
    by (rule exI [of _ res'], rule exI [of _ r'], rule exI [of _ s'], rule exI [of _ x'],
        rule conjI [OF call conjI [OF conjunct1 [OF frame] conjI [OF conjunct1 [OF conjunct2 [OF frame]] conjI [OF others path]]]])
qed

text \<open>A runtime whose decoder finds an identifier and an address in every body.\<close>

definition demo_runtime :: "(gotime, string list memory) GatewayRuntime" where
  "demo_runtime =
    \<lparr>gw_Decode = \<lambda>req m. (None, PbChange \<lparr>ereq_Id = ''c-2'', ereq_Email = ''ada@new.com''\<rparr>), gw_String = Inr,
     gw_PopulateQuery = \<lambda>f m. (None, m), gw_Quote = \<lambda>s. s, gw_AnnotateIncoming = \<lambda>_ _ _. None,
     gw_Annotate = \<lambda>_ _ _. None, gw_NewStream = \<lambda>x. x, gw_StreamMetadata = \<lambda>_. no_metadata,
     gw_HTTPError = \<lambda>_ _ _ _ sx. (Return (), sx), gw_Forward = \<lambda>_ _ _ _ sx. (Return (), sx)\<rparr>"

definition demo_service :: "(string list memory, gotime) CustomerServer" where
  "demo_service =
    \<lparr>srv_create = \<lambda>_ w. (Return (Inl ErrNotFound), w), srv_changeEmail = ChangeCustomerEmail_Handle (\<lambda>r. r) (memory_deps demo_env demo_rand (\<lambda>r. r)),
     srv_get = \<lambda>_ w. (Return (Inl ErrNotFound), w), srv_list = \<lambda>_ w. (Return (Inl ErrNotFound), w),
     srv_SetHeader = \<lambda>_ w. (None, w), srv_timestamp = \<lambda>t. t\<rparr>"

theorem patch_changes_only_the_customer_of_its_path_witness:
  "\<exists>res r' s' x'. local_request_ChangeCustomerEmail demo_runtime (customer_service demo_service)
      \<lparr>rq_Method = ''PATCH'', rq_Path = ''/api/v1/customers/c-9/email'', rq_Header = Map.empty, rq_ctx = Background, hr_RawQuery = [], hr_Body = []\<rparr>
      [''id'' \<mapsto> ''c-9''] (ada_repo, demo_store, []) = (Return res, (r', s', x')) \<and> byID r' ''c-1'' = byID ada_repo ''c-1'' \<and> byID r' ''c-2'' = None"
proof -
  have s: "srv_changeEmail demo_service = ChangeCustomerEmail_Handle (\<lambda>r. r) (memory_deps demo_env demo_rand (\<lambda>r. r))"
    by (simp add: demo_service_def)
  have "byID ada_repo ''c-2'' = None" by (simp add: ada_repo_def)
  let ?req = "\<lparr>rq_Method = ''PATCH'', rq_Path = ''/api/v1/customers/c-9/email'', rq_Header = Map.empty, rq_ctx = Background,
     hr_RawQuery = [], hr_Body = []\<rparr>"
  obtain res r' s' x' where run: "local_request_ChangeCustomerEmail demo_runtime (customer_service demo_service) ?req [''id'' \<mapsto> ''c-9'']
      (ada_repo, demo_store, []) = (Return res, (r', s', x'))"
    and rows: "\<forall>j. [''id'' \<mapsto> ''c-9''] ''id'' = None \<or> gw_String demo_runtime (the ([''id'' \<mapsto> ''c-9''] ''id'')) \<noteq> Inr j \<longrightarrow>
      byID r' j = byID ada_repo j"
    using patch_changes_only_the_customer_of_its_path [OF demo_rand_ok ada_repo_inv demo_store_eval [THEN conjunct1] s,
        of demo_runtime ?req "[''id'' \<mapsto> ''c-9'']" "[]"]
    by (elim exE conjE) (rule that)
  have "byID r' ''c-1'' = byID ada_repo ''c-1''" "byID r' ''c-2'' = byID ada_repo ''c-2''"
    by (rule rows [rule_format]; simp add: demo_runtime_def)+
  with run \<open>byID ada_repo ''c-2'' = None\<close> show ?thesis
    by (intro exI [of _ res] exI [of _ r'] exI [of _ s'] exI [of _ x'] conjI) (erule asm_rl | simp)+
qed

subsection \<open>Listing over REST\<close>

text \<open>Property C24: the list that a REST client sees is a window of one ordering of the read model, by creation time and then
  identifier, whatever order the map is visited in. Whatever limit and offset the query asks for, the answer has the rows from the offset on,
  an offset below zero counting as zero, at most the limit of them, twenty if none is given and never more than a
  hundred, with the total and the window that was used; a query that does not parse is refused; and the state stays as it is.\<close>

theorem rest_list_is_a_window:
  assumes "rm_inv (rd w)" "enumerates keys (rm_rows (rd w))" "int (card (dom (rm_rows (rd w)))) < 2 ^ 31"
    and "\<And>q. srv_list srv q w = (ListCustomers_Handle (memory_queries keys) q (rd w), w)"
    and "\<And>req params q. build_ListCustomers rt req params = Inr q \<Longrightarrow> lreq_Offset q < 2 ^ 31"
  shows "\<exists>all. sorted_wrt row_before all \<and> set all = ran (rm_rows (rd w)) \<and> length all = card (dom (rm_rows (rd w))) \<and>
    (\<forall>req params. local_request_ListCustomers rt (customer_service srv) req params w =
      (case build_ListCustomers rt req params of
        Inl err \<Rightarrow> (Return (Inl err), w)
      | Inr q \<Rightarrow>
          (let n = (if lreq_Limit q \<le> 0 then 20 else min 100 (lreq_Limit q)); k = max 0 (lreq_Offset q)
           in (Return (Inr (RespList
                \<lparr>lresp_Items = map (toProto (srv_timestamp srv)) (take (nat n) (drop (nat k) all)), lresp_Total = int (length all),
                 lresp_Limit = n, lresp_Offset = k\<rparr>)), w))))"
proof -
  obtain all where all: "sorted_wrt row_before all" "set all = ran (rm_rows (rd w))" "length all = card (dom (rm_rows (rd w)))"
    and page: "\<And>l off. ReadModel_List keys (Page_New l off) (rd w) = Return (Inr
         \<lparr>res_Items = take (nat (page_Limit (Page_New l off))) (drop (nat (page_Offset (Page_New l off))) all),
          res_Total = int (length all), res_Limit = page_Limit (Page_New l off), res_Offset = page_Offset (Page_New l off)\<rparr>)"
    using list_is_a_window_of_one_ordering [OF assms(1,2)] assms(2,3) by (auto simp: Let_def)
  have p: "page_Limit (Page_New l off) = (if l \<le> 0 then 20 else min 100 l)" "page_Offset (Page_New l off) = max 0 off" for l off
    by (simp_all add: Page_New_def DefaultLimit_def MaxLimit_def Let_def)
  have "local_request_ListCustomers rt (customer_service srv) req params w =
      (case build_ListCustomers rt req params of
        Inl err \<Rightarrow> (Return (Inl err), w)
      | Inr q \<Rightarrow>
          (let n = (if lreq_Limit q \<le> 0 then 20 else min 100 (lreq_Limit q)); k = max 0 (lreq_Offset q)
           in (Return (Inr (RespList
                \<lparr>lresp_Items = map (toProto (srv_timestamp srv)) (take (nat n) (drop (nat k) all)), lresp_Total = int (length all),
                 lresp_Limit = n, lresp_Offset = k\<rparr>)), w)))" for req params
  proof (cases "build_ListCustomers rt req params")
    case (Inr q)
    have "int32 (int (length all)) = int (length all)" "int32 (max 0 (lreq_Offset q)) = max 0 (lreq_Offset q)"
      "int32 (if lreq_Limit q \<le> 0 then 20 else min 100 (lreq_Limit q)) = (if lreq_Limit q \<le> 0 then 20 else min 100 (lreq_Limit q))"
      using all(3) assms(3) assms(5) [OF Inr] by (simp_all add: int32_id)
    then show ?thesis
      using Inr by (simp add: local_request_ListCustomers_def transcode_def customer_service_def Server_ListCustomers_def assms(4)
          ListCustomers_Handle_def memory_queries_def page p Let_def)
  qed (simp add: local_request_ListCustomers_def transcode_def)
  with all show ?thesis by blast
qed

text \<open>A query for one row from before the first, on a read model of two.\<close>

definition list_runtime :: "(gotime, MemoryReadModel) GatewayRuntime" where
  "list_runtime =
    \<lparr>gw_Decode = \<lambda>req m. (None, m), gw_String = Inr, gw_PopulateQuery = \<lambda>f m. (None, PbList \<lparr>lreq_Limit = 1, lreq_Offset = - 5\<rparr>),
     gw_Quote = \<lambda>s. s, gw_AnnotateIncoming = \<lambda>_ _ _. None, gw_Annotate = \<lambda>_ _ _. None, gw_NewStream = \<lambda>x. x,
     gw_StreamMetadata = \<lambda>_. no_metadata, gw_HTTPError = \<lambda>_ _ _ _ sx. (Return (), sx), gw_Forward = \<lambda>_ _ _ _ sx. (Return (), sx)\<rparr>"

definition list_service :: "(MemoryReadModel, gotime) CustomerServer" where
  "list_service =
    \<lparr>srv_create = \<lambda>_ w. (Return (Inl ErrNotFound), w), srv_changeEmail = \<lambda>_ w. (Return None, w),
     srv_get = \<lambda>_ w. (Return (Inl ErrNotFound), w),
     srv_list = \<lambda>q w. (ListCustomers_Handle (memory_queries [''a'', ''b'']) q w, w),
     srv_SetHeader = \<lambda>_ w. (None, w), srv_timestamp = \<lambda>t. t\<rparr>"

theorem rest_list_is_a_window_witness:
  "\<exists>cs. length cs = 1 \<and> local_request_ListCustomers list_runtime (customer_service list_service)
      \<lparr>rq_Method = ''GET'', rq_Path = ''/api/v1/customers'', rq_Header = Map.empty, rq_ctx = Background, hr_RawQuery = ''limit=1&offset=-5'', hr_Body = []\<rparr>
      Map.empty demo_rm = (Return (Inr (RespList \<lparr>lresp_Items = cs, lresp_Total = 2, lresp_Limit = 1, lresp_Offset = 0\<rparr>)), demo_rm)"
proof -
  let ?req = "\<lparr>rq_Method = ''GET'', rq_Path = ''/api/v1/customers'', rq_Header = Map.empty, rq_ctx = Background,
    hr_RawQuery = ''limit=1&offset=-5'', hr_Body = []\<rparr>"
  have e: "enumerates [''a'', ''b''] (rm_rows demo_rm)" using demo_rm_ok by (auto simp: enumerates_def)
  have c: "card (dom (rm_rows demo_rm)) = 2" using demo_rm_ok(2) by simp
  have off: "lreq_Offset q < 2 ^ 31" if "build_ListCustomers list_runtime req params = Inr q" for req params q
    using that by (auto simp: build_ListCustomers_def list_runtime_def split: prod.splits option.splits)
  have "fst (ParseForm list_runtime ?req) = None" by (simp add: ParseForm_def query_pair_def Let_def)
  then obtain f where f: "ParseForm list_runtime ?req = (None, f)" by (metis prod.collapse)
  have b: "build_ListCustomers list_runtime ?req Map.empty = Inr \<lparr>lreq_Limit = 1, lreq_Offset = - 5\<rparr>"
    unfolding build_ListCustomers_def f by (simp add: list_runtime_def)
  have s: "srv_list list_service q demo_rm = (ListCustomers_Handle (memory_queries [''a'', ''b'']) q (id demo_rm), demo_rm)" for q
    by (simp add: list_service_def)
  obtain all where "length all = 2" and r: "\<forall>req params. local_request_ListCustomers list_runtime (customer_service list_service) req params demo_rm =
      (case build_ListCustomers list_runtime req params of
        Inl err \<Rightarrow> (Return (Inl err), demo_rm)
      | Inr q \<Rightarrow>
          (let n = (if lreq_Limit q \<le> 0 then 20 else min 100 (lreq_Limit q)); k = max 0 (lreq_Offset q)
           in (Return (Inr (RespList
                \<lparr>lresp_Items = map (toProto (srv_timestamp list_service)) (take (nat n) (drop (nat k) all)), lresp_Total = int (length all),
                 lresp_Limit = n, lresp_Offset = k\<rparr>)), demo_rm)))"
    using rest_list_is_a_window [where rd = id, OF _ _ _ s off] demo_rm_ok(1) e c unfolding id_apply by fastforce
  then show ?thesis
    using b by (intro exI [of _ "map (toProto (srv_timestamp list_service)) (take 1 all)"]) simp
qed

end
