(* ===== verification/Spec2Isabelle.thy ===== *)
theory Spec2Isabelle
  imports Processes System KafkaDelivery Migrate EventTap Gateway
begin

text \<open>
  A verification of the go-ddd service (module \<open>github.com/example/myapp\<close>): a customer context with commands, queries and
  events, an order context that asks it for customers, a notification context that listens to it, an event bus that is local
  or Kafka, a transactional outbox between commands and bus, the platform and composition root that run them, the generated
  REST gateway in front, and the command-line tools beside.
  Definitions carry the names of the Go declarations they translate, with a prefix where two packages share one.

  \<^bold>\<open>How the parts interact.\<close> A command handler (\<open>internal/customer/application/commands\<close>) loads or builds an aggregate
  (\<open>internal/customer/domain\<close>), saves it through the repository port and publishes its domain events through a dispatcher,
  which maps them to integration events and appends them to the outbox. The relay (\<open>internal/eventbus/outbox\<close>) forwards
  outbox rows to the bus; the bus runs the subscribed handlers, among them the projection that maintains the read model that
  queries answer from. \<open>Build\<close> (\<open>internal/bootstrap\<close>) chooses the implementations from the configuration and subscribes everything.

  \<^bold>\<open>Modelling.\<close> State is passed explicitly: an \<open>action\<close> maps a state \<open>'w\<close> to an outcome, \<open>Return\<close> or \<open>Panic\<close>, and the next
  state; a port is a record of actions; the clock and the logger are an \<open>env\<close> and the entropy source an argument, all
  acting on \<open>'w\<close>. Errors are the datatype \<open>gerr\<close>, with \<open>errors_Is\<close>. A Go string or \<open>[]byte\<close> is a list of 8-bit characters (nil and
  empty are not distinguished), an \<open>int\<close> or \<open>int64\<close> an integer whose wrap-around is written out (\<open>wrap64\<close>), a \<open>time.Time\<close> the
  nanoseconds since the zero time, in UTC. A map is a partial function; where the code ranges over one, the order of its keys is an argument, and
  statements hold for each order that \<open>enumerates\<close> it. A mutex makes a method one step; goroutines appear by what they
  send or receive, in order. The standard library is written out as far as it is used: UTF-8 (\<open>Utf8\<close>), \<open>strings\<close> and \<open>strconv\<close>
  (\<open>GoText\<close>, \<open>TextNormal\<close>), \<open>encoding/json\<close> and \<open>base64\<close> (\<open>Json\<close>, \<open>JsonValues\<close>), \<open>time\<close> (\<open>GoTime\<close>, \<open>GoDuration\<close>) and the parts of
  \<open>net/http\<close> the middleware works on (\<open>HttpStack\<close>), \<open>flag\<close>, \<open>path\<close> and what a process has of its host (\<open>GoFlags\<close>). Third-party code is a parameter, with what is relied on as a named hypothesis:
  the SQL driver and server (\<open>UnitOfWork\<close>, \<open>Postgres\<close>, \<open>Bootstrap\<close>), kafka-go (\<open>KafkaIO\<close>, \<open>KafkaClient\<close>), gRPC's status and
  metadata functions, the grpc-gateway runtime (\<open>GatewayRuntime\<close>), the compiler of regular expressions, \<open>strconv.Quote\<close> and the table of
  Unicode lower-case letters.

  \<^bold>\<open>Theories and the code they model.\<close>
  \<open>SharedKernel\<close>: \<open>internal/shared/domain\<close>. \<open>Ids\<close>: \<open>shared/infrastructure/id\<close> and \<open>clock\<close>. \<open>UnitOfWork\<close>:
  \<open>shared/infrastructure/transaction\<close>. \<open>PlatformLog\<close>: \<open>platform/observability\<close>, \<open>shared/infrastructure/logging\<close>.
  \<open>CustomerDomain\<close>, \<open>CustomerRepository\<close>, \<open>CustomerMessaging\<close>, \<open>CustomerCommands\<close>, \<open>Projections\<close> (with \<open>pkg/pagination\<close>),
  \<open>CustomerServer\<close> and \<open>Postgres\<close>: the layers of \<open>internal/customer\<close>. \<open>OrderContext\<close>: \<open>internal/order\<close>, and the data of
  \<open>internal/identity\<close> and \<open>internal/payment\<close>. \<open>Notification\<close>: \<open>internal/notification\<close>. \<open>EventBus\<close>: \<open>internal/eventbus\<close> and its local bus;
  \<open>Outbox\<close> and \<open>OutboxLedger\<close>: \<open>eventbus/outbox\<close>; \<open>KafkaCodec\<close>, \<open>KafkaRetry\<close>, \<open>KafkaBus\<close>, \<open>KafkaConsumer\<close>: the four files of \<open>eventbus/kafka\<close>;
  \<open>KafkaDelivery\<close> composes them with the outbox.
  \<open>AppConfig\<close>: \<open>platform/config\<close>. \<open>HttpStack\<close>, \<open>GrpcStack\<close>: \<open>platform/httpx\<close>, \<open>platform/grpcx\<close>. \<open>Bootstrap\<close>: \<open>internal/bootstrap\<close>,
  \<open>platform/database\<close> and the modules. \<open>Processes\<close>: the servers, the probes and \<open>cmd/api\<close>, \<open>cmd/worker\<close>.
  \<open>Gateway\<close>: \<open>api/proto/*/v1/*.pb.gw.go\<close>, the registration of the services and the routes of the root handler. \<open>Migrate\<close>: \<open>cmd/migrate\<close>.
  \<open>AgentCtl\<close>, \<open>EventTap\<close>: the two files of \<open>cmd/agentctl\<close>. \<open>System\<close>: no code of its own;
  the built application as a whole. \<open>Prelude\<close>: numbers, maps and lists.

  \<^bold>\<open>Interfaces.\<close> What one component asks of another is a locale: \<open>customer_repository\<close> has the laws of the repository, \<open>unit_of_work\<close>
  those of a transaction, \<open>outbox_store\<close> and \<open>reliable_store\<close> of a store, \<open>outbox_relay\<close> of a relay and its bus, \<open>guarded\<close> of a middleware stack and \<open>subscriber\<close> of a bus one can
  register with; \<open>sound_world\<close> is what \<open>System\<close> asks of the surroundings of the built application. Each is interpreted on the definitions of the code: the in-memory repository and store, the relay over that store, the SQL and
  the empty unit of work, the stack that starts with \<open>Recover\<close>, the local bus, the Kafka bus and the bus of the composition root.

  \<^bold>\<open>What the lemmas show.\<close> Domain: aggregates are always well formed, events record every transition and replay to the state.
  Commands: their effect on every path, the validity of the store under any sequence of commands, and what goes wrong when two of them interleave
  without a transaction. Messaging: round trips of payloads and of the Kafka envelope, also against a parser of arbitrary JSON.
  The answer of each command is the one the stored rows decide.
  Outbox and buses: delivery at least once, the outbox a ledger of what the bus answered, no message left behind, every handler run, offsets committed only when it is safe, poisoned messages
  dead-lettered after bounded retries that each wait out their backoff, topics that hold exactly what the outbox calls published. Read side: the projection equals the replay of the events, pages are windows of one ordering,
  Postgres and memory agree. Platform: what clients and logs see of panics and statuses, precedence of configuration, no leaked
  pool, complete wiring, servers that end with their context, and REST requests that change no other customer than the one of their path.
  Tools: a migration run applies a prefix of its plan and a rollback takes back the latest version; a mark of the event tap is read back as it was
  written and the tap prints exactly the messages of its range. \<open>System\<close> composes these: after any requests, the reads of the built application catch up with its writes.
  Some properties prove that the code misbehaves where it does; their texts say so.

  \<^bold>\<open>Bounds and fuel.\<close> The JSON parser and the parser of durations recurse on fuel, the length of the input plus a constant; lemmas show that
  more changes nothing. Loops over channels take the list of what is received. Retries and batches are bounded as in the code.

  \<^bold>\<open>Not modelled.\<close> The generated message and stub files (\<open>*.pb.go\<close>), whose messages are records here; the bytes of the embedded OpenAPI document;
  the mocks (tests only); the usage text of the flag package; how the gateway's mux matches a pattern and renders an answer, which is the library's;
  the adapter that prints kafka-go's own log lines. Real time does not pass by itself: a clock is a function of the state, so timeouts
  appear as the events they cause.
\<close>

end
